(* ===== verification/Prelude.thy ===== *)
theory Prelude
  imports Complex_Main
begin

text \<open>
  Shared vocabulary of the development. Nothing here is about fq: the theory holds the error
  sums of fallible functions with their sequencing operators, the list functions behind Python's
  \<open>partition\<close>, \<open>rpartition\<close>, \<open>split\<close> and \<open>join\<close>, and the named collections the component
  theories add their rules to.
  \<^item> \<open>py_defs\<close> collects the defining equations of one-line wrappers that proofs unfold together;
  \<^item> \<open>wp\<close> collects the rules of the invariant calculus for stateful code (theory Effects).
\<close>

named_theorems py_defs \<open>definitions of one-line wrappers, unfolded together\<close>
named_theorems wp \<open>rules of the invariant calculus for stateful code\<close>

section \<open>Error sums\<close>

text \<open>
  A function that may raise returns \<open>'e + 'a\<close>: \<open>Inl\<close> is the exception, \<open>Inr\<close> the value.
  \<open>sbind\<close> is sequencing (an exception skips the rest), \<open>smap\<close> is a Python generator expression
  over a list: left to right, the first exception wins.
\<close>

definition sbind :: "'e + 'a \<Rightarrow> ('a \<Rightarrow> 'e + 'b) \<Rightarrow> 'e + 'b" where
  "sbind r f = (case r of Inl e \<Rightarrow> Inl e | Inr x \<Rightarrow> f x)"

fun smap :: "('a \<Rightarrow> 'e + 'b) \<Rightarrow> 'a list \<Rightarrow> 'e + 'b list" where
  "smap f [] = Inr []"
| "smap f (x # xs) = sbind (f x) (\<lambda>y. sbind (smap f xs) (\<lambda>ys. Inr (y # ys)))"

lemma sbind_simps [simp]:
  "sbind (Inl e) f = Inl e"
  "sbind (Inr x) f = f x"
  by (simp_all add: sbind_def)

lemma sbind_eq_Inr: "sbind r f = Inr y \<longleftrightarrow> (\<exists>x. r = Inr x \<and> f x = Inr y)"
  by (cases r) simp_all

lemma sbind_eq_Inl: "sbind r f = Inl e \<longleftrightarrow> r = Inl e \<or> (\<exists>x. r = Inr x \<and> f x = Inl e)"
  by (cases r) auto

lemma sbind_cong [fundef_cong]:
  "r = r' \<Longrightarrow> (\<And>x. r' = Inr x \<Longrightarrow> f x = g x) \<Longrightarrow> sbind r f = sbind r' g"
  by (cases r') simp_all

lemma smap_Inr_length: "smap f xs = Inr ys \<Longrightarrow> length ys = length xs"
  by (induction xs arbitrary: ys) (auto simp: sbind_eq_Inr)

lemma smap_Inr_nth: "smap f xs = Inr ys \<Longrightarrow> i < length xs \<Longrightarrow> f (xs ! i) = Inr (ys ! i)"
proof (induction xs arbitrary: ys i)
  case (Cons x xs)
  then show ?case by (cases i) (auto simp: sbind_eq_Inr)
qed simp

lemma smap_total: "(\<And>x. x \<in> set xs \<Longrightarrow> f x = Inr (g x)) \<Longrightarrow> smap f xs = Inr (map g xs)"
  by (induction xs) simp_all

lemma smap_map_total: "(\<And>x. x \<in> set xs \<Longrightarrow> f (h x) = Inr (g x)) \<Longrightarrow> smap f (map h xs) = Inr (map g xs)"
  by (induction xs) simp_all

lemma smap_Inl: "smap f xs = Inl e \<Longrightarrow> \<exists>x \<in> set xs. f x = Inl e"
  by (induction xs) (auto simp: sbind_eq_Inl)

lemma smap_append: "smap f (xs @ ys) = sbind (smap f xs) (\<lambda>as. sbind (smap f ys) (\<lambda>bs. Inr (as @ bs)))"
proof (induction xs)
  case Nil
  show ?case by (cases "smap f ys") simp_all
next
  case (Cons x xs)
  then show ?case by (cases "f x"; cases "smap f xs"; cases "smap f ys") simp_all
qed

section \<open>Splitting and joining\<close>

text \<open>
  \<open>s.partition(d)\<close> for a one-element separator: the part before the first \<open>d\<close>, whether \<open>d\<close> was
  found (Python returns the separator itself, or an empty one), and the part after it. When \<open>d\<close>
  is missing the whole input is the first part.
\<close>

fun partition_at :: "'a \<Rightarrow> 'a list \<Rightarrow> 'a list \<times> bool \<times> 'a list" where
  "partition_at d [] = ([], False, [])"
| "partition_at d (x # xs) =
     (if x = d then ([], True, xs)
      else case partition_at d xs of (a, found, b) \<Rightarrow> (x # a, found, b))"

text \<open>
  \<open>s.rpartition(d)\<close>: the split is at the last \<open>d\<close>; when it is missing the whole input is the
  last part.
\<close>

definition rpartition_at :: "'a \<Rightarrow> 'a list \<Rightarrow> 'a list \<times> bool \<times> 'a list" where
  "rpartition_at d xs = (case partition_at d (rev xs) of (b, found, a) \<Rightarrow>
     (if found then (rev a, True, rev b) else ([], False, xs)))"

text \<open>\<open>s.split(d)\<close> and \<open>d.join(parts)\<close> for a one-element separator.\<close>

fun split_on :: "'a \<Rightarrow> 'a list \<Rightarrow> 'a list list" where
  "split_on d [] = [[]]"
| "split_on d (x # xs) =
     (if x = d then [] # split_on d xs
      else (x # hd (split_on d xs)) # tl (split_on d xs))"

fun join_with :: "'a list \<Rightarrow> 'a list list \<Rightarrow> 'a list" where
  "join_with d [] = []"
| "join_with d [p] = p"
| "join_with d (p # q # ps) = p @ d @ join_with d (q # ps)"

lemma partition_at_notin: "d \<notin> set xs \<Longrightarrow> partition_at d xs = (xs, False, [])"
  by (induction xs) auto

lemma partition_at_append: "d \<notin> set xs \<Longrightarrow> partition_at d (xs @ d # ys) = (xs, True, ys)"
  by (induction xs) auto

lemma partition_at_sound:
  "case partition_at d xs of (a, found, b) \<Rightarrow>
     d \<notin> set a \<and> (if found then xs = a @ d # b else xs = a \<and> b = [])"
  by (induction xs) (auto split: prod.splits if_splits)

lemma partition_at_found:
  "partition_at d xs = (a, True, b) \<longleftrightarrow> d \<notin> set a \<and> xs = a @ d # b"
  using partition_at_sound [of d xs] by (auto simp: partition_at_append)

lemma partition_at_missing:
  "partition_at d xs = (a, False, b) \<longleftrightarrow> d \<notin> set xs \<and> a = xs \<and> b = []"
  using partition_at_sound [of d xs] by (auto simp: partition_at_notin)

lemma rpartition_at_append: "d \<notin> set ys \<Longrightarrow> rpartition_at d (xs @ d # ys) = (xs, True, ys)"
  by (simp add: rpartition_at_def partition_at_append)

lemma rpartition_at_notin: "d \<notin> set xs \<Longrightarrow> rpartition_at d xs = ([], False, xs)"
  by (simp add: rpartition_at_def partition_at_notin)

lemma split_on_nonempty [simp]: "split_on d xs \<noteq> []"
  by (induction xs) auto

lemma length_split_on: "length (split_on d xs) = Suc (count_list xs d)"
  by (induction xs) auto

lemma split_on_notin: "d \<notin> set xs \<Longrightarrow> split_on d xs = [xs]"
  by (induction xs) auto

lemma split_on_append: "d \<notin> set xs \<Longrightarrow> split_on d (xs @ d # ys) = xs # split_on d ys"
  by (induction xs) auto

lemma split_on_parts: "p \<in> set (split_on d xs) \<Longrightarrow> d \<notin> set p"
proof (induction xs arbitrary: p)
  case (Cons x xs)
  then show ?case
    by (cases "split_on d xs") (auto split: if_splits)
qed simp

lemma join_with_Cons: "ps \<noteq> [] \<Longrightarrow> join_with d (p # ps) = p @ d @ join_with d ps"
  by (cases ps) simp_all

lemma join_with_append:
  "ps \<noteq> [] \<Longrightarrow> qs \<noteq> [] \<Longrightarrow> join_with d (ps @ qs) = join_with d ps @ d @ join_with d qs"
  by (induction ps rule: induct_list012) (simp_all add: join_with_Cons)

lemma set_join_with: "set (join_with d ps) \<subseteq> set d \<union> (\<Union>p \<in> set ps. set p)"
  by (induction ps rule: induct_list012) auto

theorem split_join:
  "ps \<noteq> [] \<Longrightarrow> (\<And>p. p \<in> set ps \<Longrightarrow> d \<notin> set p) \<Longrightarrow> split_on d (join_with [d] ps) = ps"
  by (induction ps rule: induct_list012) (simp_all add: split_on_notin split_on_append)

theorem join_split: "join_with [d] (split_on d xs) = xs"
proof (induction xs)
  case (Cons x xs)
  then show ?case
    by (cases "split_on d xs"; cases "tl (split_on d xs)") auto
qed simp

end
