(* ===== verification/Errors.thy ===== *)
theory Errors
  imports Prelude
begin

text \<open>
  The exceptions of \<open>fq/errors.py\<close>: the numeric codes, the class hierarchy, and the choice of a
  class by code range. A raised exception is a value of type \<open>exc\<close>: its class, and for the
  classes below \<open>ProtocolError\<close> also the code and the message. Exceptions of the Python runtime
  that fq's own code lets escape (ValueError, OverflowError, queue.Empty and so on) are classes of
  the same type, so that a theorem can say which errors are fq's and which are not.
  The messages of the other classes are not modelled: nothing in fq reads them.
\<close>

section \<open>Error codes\<close>

datatype ErrorCode =
    INVALID_SYMBOL | INVALID_COMMAND | INVALID_ARGUMENTS | INVALID_ARGUMENTS_COUNT
  | MESSAGE_SIZE_EXCEEDS_MAXIMUM | HANDSHAKE_REQUIRED | UNSUPPORTED_PROTOCOL_VERSION
  | PROTOCOL_VERSION_ALREADY_NEGOTIATED
  | KEY_CANNOT_BE_EMPTY | KEY_LENGTH_EXCEEDS_MAXIMUM | BATCH_IS_NOT_NUMBER | INVALID_BATCH_SIZE
  | LIMIT_IS_NOT_NUMBER | INVALID_LIMIT | INVALID_RATE_LIMIT_ALGORITHM | INVALID_SCAN_COUNT
  | INVALID_SCAN_CURSOR | VALUE_OVERFLOW
  | NOT_AUTHENTICATED | PERMISSION_DENIED | AUTHENTICATION_FAILED
  | TOO_MANY_AUTHENTICATION_FAILURES
  | QUOTA_NOT_FOUND | QUOTA_LIMIT_MISMATCH | QUOTA_ALREADY_ACQUIRED_DIFFERENT_SIZE
  | QUOTA_IS_NOT_EMPTY | QUOTA_LIMIT_BELOW_USED_AMOUNT | QUOTA_OWNERSHIP_MISMATCH
  | QUOTA_POLICY_MISMATCH
  | SCAN_INDEX_DISABLED | INSPECT_NOT_AVAILABLE | INSPECT_REPORT_TOO_LARGE
  | MAX_MESSAGE_SIZE_TOO_SMALL_FOR_CHUNK | UNSUPPORTED_COMPRESSION | READ_ONLY_REPLICA
  | INTERNAL | INTERNAL_CONFIGURATION

fun code_value :: "ErrorCode \<Rightarrow> int" where
  "code_value INVALID_SYMBOL = 1000"
| "code_value INVALID_COMMAND = 1001"
| "code_value INVALID_ARGUMENTS = 1002"
| "code_value INVALID_ARGUMENTS_COUNT = 1003"
| "code_value MESSAGE_SIZE_EXCEEDS_MAXIMUM = 1004"
| "code_value HANDSHAKE_REQUIRED = 1010"
| "code_value UNSUPPORTED_PROTOCOL_VERSION = 1011"
| "code_value PROTOCOL_VERSION_ALREADY_NEGOTIATED = 1012"
| "code_value KEY_CANNOT_BE_EMPTY = 2000"
| "code_value KEY_LENGTH_EXCEEDS_MAXIMUM = 2001"
| "code_value BATCH_IS_NOT_NUMBER = 2002"
| "code_value INVALID_BATCH_SIZE = 2003"
| "code_value LIMIT_IS_NOT_NUMBER = 2004"
| "code_value INVALID_LIMIT = 2005"
| "code_value INVALID_RATE_LIMIT_ALGORITHM = 2006"
| "code_value INVALID_SCAN_COUNT = 2007"
| "code_value INVALID_SCAN_CURSOR = 2008"
| "code_value VALUE_OVERFLOW = 2009"
| "code_value NOT_AUTHENTICATED = 3000"
| "code_value PERMISSION_DENIED = 3001"
| "code_value AUTHENTICATION_FAILED = 3002"
| "code_value TOO_MANY_AUTHENTICATION_FAILURES = 3003"
| "code_value QUOTA_NOT_FOUND = 4000"
| "code_value QUOTA_LIMIT_MISMATCH = 4001"
| "code_value QUOTA_ALREADY_ACQUIRED_DIFFERENT_SIZE = 4002"
| "code_value QUOTA_IS_NOT_EMPTY = 4003"
| "code_value QUOTA_LIMIT_BELOW_USED_AMOUNT = 4004"
| "code_value QUOTA_OWNERSHIP_MISMATCH = 4005"
| "code_value QUOTA_POLICY_MISMATCH = 4006"
| "code_value SCAN_INDEX_DISABLED = 5000"
| "code_value INSPECT_NOT_AVAILABLE = 5001"
| "code_value INSPECT_REPORT_TOO_LARGE = 5002"
| "code_value MAX_MESSAGE_SIZE_TOO_SMALL_FOR_CHUNK = 5003"
| "code_value UNSUPPORTED_COMPRESSION = 5004"
| "code_value READ_ONLY_REPLICA = 5005"
| "code_value INTERNAL = 9000"
| "code_value INTERNAL_CONFIGURATION = 9001"

section \<open>The class hierarchy\<close>

datatype exc_class =
    FQError | FQConnectionError | FQTimeoutError | CorruptedResponseError | PoolClosedError
  | ShardIndexError | ValueOutOfRangeError
  | ProtocolError | RequestError | ArgumentError | AuthError | AuthenticationFailedError
  | QuotaError | InstanceStateError | InternalError
  | PyException | PyValueError | PyUnicodeEncodeError | PyOverflowError | PyQueueEmpty
  | PyRecursionError | PyTypeError | PyZeroDivisionError
  | PyOSError | PyTimeoutError | PyQueueFull | PyIncompleteReadError | GeneratorExit

text \<open>The base classes each \<open>class\<close> statement names (Python's own classes at the end).\<close>

fun bases :: "exc_class \<Rightarrow> exc_class list" where
  "bases FQError = [PyException]"
| "bases FQConnectionError = [FQError]"
| "bases FQTimeoutError = [FQConnectionError]"
| "bases CorruptedResponseError = [FQError]"
| "bases PoolClosedError = [FQError]"
| "bases ShardIndexError = [FQError]"
| "bases ValueOutOfRangeError = [FQError, PyValueError]"
| "bases ProtocolError = [FQError]"
| "bases RequestError = [ProtocolError]"
| "bases ArgumentError = [ProtocolError]"
| "bases AuthError = [ProtocolError]"
| "bases AuthenticationFailedError = [AuthError]"
| "bases QuotaError = [ProtocolError]"
| "bases InstanceStateError = [ProtocolError]"
| "bases InternalError = [ProtocolError]"
| "bases PyException = []"
| "bases PyValueError = [PyException]"
| "bases PyUnicodeEncodeError = [PyValueError]"
| "bases PyOverflowError = [PyException]"
| "bases PyQueueEmpty = [PyException]"
| "bases PyRecursionError = [PyException]"
| "bases PyTypeError = [PyException]"
| "bases PyZeroDivisionError = [PyException]"
| "bases PyOSError = [PyException]"
| "bases PyTimeoutError = [PyOSError]"
| "bases PyQueueFull = [PyException]"
| "bases PyIncompleteReadError = [PyException]"
| "bases GeneratorExit = []"

text \<open>The depth of a class below the root of its hierarchy: what makes the ancestor search stop.\<close>

fun class_depth :: "exc_class \<Rightarrow> nat" where
  "class_depth FQError = 1"
| "class_depth FQConnectionError = 2"
| "class_depth FQTimeoutError = 3"
| "class_depth CorruptedResponseError = 2"
| "class_depth PoolClosedError = 2"
| "class_depth ShardIndexError = 2"
| "class_depth ValueOutOfRangeError = 2"
| "class_depth ProtocolError = 2"
| "class_depth RequestError = 3"
| "class_depth ArgumentError = 3"
| "class_depth AuthError = 3"
| "class_depth AuthenticationFailedError = 4"
| "class_depth QuotaError = 3"
| "class_depth InstanceStateError = 3"
| "class_depth InternalError = 3"
| "class_depth PyException = 0"
| "class_depth PyValueError = 1"
| "class_depth PyUnicodeEncodeError = 2"
| "class_depth PyOverflowError = 1"
| "class_depth PyQueueEmpty = 1"
| "class_depth PyRecursionError = 1"
| "class_depth PyTypeError = 1"
| "class_depth PyZeroDivisionError = 1"
| "class_depth PyOSError = 1"
| "class_depth PyTimeoutError = 2"
| "class_depth PyQueueFull = 1"
| "class_depth PyIncompleteReadError = 1"
| "class_depth GeneratorExit = 0"

lemma bases_depth: "b \<in> set (bases c) \<Longrightarrow> class_depth b < class_depth c"
  by (cases c) auto

function ancestors :: "exc_class \<Rightarrow> exc_class list" where
  "ancestors c = c # concat (map ancestors (bases c))"
  by pat_completeness auto
termination
  by (relation "measure class_depth") (simp_all add: bases_depth)

declare ancestors.simps [simp del]

text \<open>\<open>issubclass(c, d)\<close>; an \<open>except d:\<close> clause catches what this test accepts.\<close>

definition issubclass :: "exc_class \<Rightarrow> exc_class \<Rightarrow> bool" where
  "issubclass c d \<longleftrightarrow> d \<in> set (ancestors c)"

lemma issubclass_rec: "issubclass c d \<longleftrightarrow> c = d \<or> (\<exists>b \<in> set (bases c). issubclass b d)"
  by (auto simp: issubclass_def ancestors.simps [of c])

lemma issubclass_refl [simp]: "issubclass c c"
  by (simp add: issubclass_def ancestors.simps [of c])

lemmas issubclass_eval = issubclass_def ancestors.simps

lemma issubclass_trans: "issubclass a b \<Longrightarrow> issubclass b c \<Longrightarrow> issubclass a c"
proof (induction a rule: ancestors.induct)
  case (1 a)
  then show ?case by (metis issubclass_rec)
qed

text \<open>The hierarchy is a partial order: a class is below its bases.\<close>

lemma issubclass_depth: "issubclass c d \<Longrightarrow> c = d \<or> class_depth d < class_depth c"
proof (induction c rule: ancestors.induct)
  case (1 c)
  then consider "c = d" | b where "b \<in> set (bases c)" "issubclass b d"
    using issubclass_rec by blast
  then show ?case
  proof cases
    case 2
    then have "b = d \<or> class_depth d < class_depth b" by (rule 1(1))
    then show ?thesis using bases_depth [OF 2(1)] by auto
  qed simp
qed

instantiation exc_class :: order
begin

definition less_eq_exc_class :: "exc_class \<Rightarrow> exc_class \<Rightarrow> bool" where
  "less_eq_exc_class c d \<longleftrightarrow> issubclass c d"

definition less_exc_class :: "exc_class \<Rightarrow> exc_class \<Rightarrow> bool" where
  "less_exc_class c d \<longleftrightarrow> issubclass c d \<and> c \<noteq> d"

instance
proof
  fix a b c :: exc_class
  have antisym: "a = b" if "issubclass a b" "issubclass b a"
    using issubclass_depth [OF that(1)] issubclass_depth [OF that(2)] by auto
  show "a \<le> a" by (simp add: less_eq_exc_class_def)
  show "a \<le> b \<Longrightarrow> b \<le> c \<Longrightarrow> a \<le> c"
    unfolding less_eq_exc_class_def by (rule issubclass_trans)
  show "a \<le> b \<Longrightarrow> b \<le> a \<Longrightarrow> a = b"
    unfolding less_eq_exc_class_def by (rule antisym)
  show "a < b \<longleftrightarrow> a \<le> b \<and> \<not> b \<le> a"
    unfolding less_eq_exc_class_def less_exc_class_def using antisym by auto
qed

end

section \<open>Raised exceptions\<close>

type_synonym pystr = "nat list" \<comment> \<open>a Python str: its code points\<close>

datatype exc =
    Exc exc_class
  | ProtocolExc exc_class int pystr \<comment> \<open>class, code, message\<close>

fun class_of :: "exc \<Rightarrow> exc_class" where
  "class_of (Exc c) = c"
| "class_of (ProtocolExc c code msg) = c"

fun exc_code :: "exc \<Rightarrow> int option" where
  "exc_code (Exc c) = None"
| "exc_code (ProtocolExc c code msg) = Some code"

definition catches :: "exc_class \<Rightarrow> exc \<Rightarrow> bool" where
  "catches c e \<longleftrightarrow> issubclass (class_of e) c"

type_synonym 'a result = "exc + 'a"

text \<open>The two classes the retry logic tells apart.\<close>

lemma catches_FQTimeoutError: "catches FQTimeoutError e \<longleftrightarrow> class_of e = FQTimeoutError"
  by (cases "class_of e") (simp_all add: catches_def issubclass_eval)

lemma catches_FQConnectionError:
  "catches FQConnectionError e \<longleftrightarrow> class_of e \<in> {FQConnectionError, FQTimeoutError}"
  by (cases "class_of e") (simp_all add: catches_def issubclass_eval)

lemma catches_Exc: "catches c (Exc d) \<longleftrightarrow> issubclass d c"
  by (simp add: catches_def)

lemma catches_os [simp]:
  "catches PyOSError (Exc PyOSError)" "catches PyOSError (Exc PyTimeoutError)"
  "catches PyTimeoutError (Exc PyTimeoutError)" "\<not> catches PyTimeoutError (Exc PyOSError)"
  by (simp_all add: catches_def issubclass_eval)

lemma catches_overflow [simp]:
  "\<not> catches PyOSError (Exc PyOverflowError)" "\<not> catches PyTimeoutError (Exc PyOverflowError)"
  by (simp_all add: catches_def issubclass_eval)

lemma catches_conn [simp]:
  "catches FQConnectionError (Exc FQConnectionError)" "catches FQConnectionError (Exc FQTimeoutError)"
  "catches FQTimeoutError (Exc FQTimeoutError)" "\<not> catches FQTimeoutError (Exc FQConnectionError)"
  by (simp_all add: catches_def issubclass_eval)

section \<open>Choosing the class by code\<close>

definition RANGES :: "(int \<times> exc_class) list" where
  "RANGES = [(1, RequestError), (2, ArgumentError), (3, AuthError), (4, QuotaError),
             (5, InstanceStateError), (9, InternalError)]"

definition protocol_error :: "int \<Rightarrow> pystr \<Rightarrow> exc" where
  "protocol_error code message =
     (if code = code_value AUTHENTICATION_FAILED
      then ProtocolExc AuthenticationFailedError code message
      else case map_of RANGES (code div 1000) of
             Some c \<Rightarrow> ProtocolExc c code message
           | None \<Rightarrow> ProtocolExc ProtocolError code message)"

lemma protocol_error_code [simp]: "exc_code (protocol_error code msg) = Some code"
  by (simp add: protocol_error_def split: option.splits)

lemma protocol_error_class:
  "class_of (protocol_error code msg) \<in>
     {ProtocolError, RequestError, ArgumentError, AuthError, AuthenticationFailedError,
      QuotaError, InstanceStateError, InternalError}"
  by (simp add: protocol_error_def RANGES_def)

lemma protocol_error_is_protocol: "issubclass (class_of (protocol_error code msg)) ProtocolError"
  using protocol_error_class [of code msg]
  by (elim insertE emptyE) (simp_all add: issubclass_eval)

lemma protocol_error_not_connection:
  "\<not> catches FQConnectionError (protocol_error code msg)"
  using protocol_error_class [of code msg] by (auto simp: catches_FQConnectionError)

text \<open>
  Every code the server may send is turned into an exception of the documented class: the
  class follows the thousands digit of the code, 3002 alone becomes AuthenticationFailedError
  (which still is an AuthError), codes in no known range become a plain ProtocolError, and the
  exact code and message are kept whatever the class.
\<close>

theorem protocol_error_by_range:
  "exc_code (protocol_error code msg) = Some code \<and>
   (class_of (protocol_error code msg) =
      (if code = 3002 then AuthenticationFailedError
       else if 1000 \<le> code \<and> code < 2000 then RequestError
       else if 2000 \<le> code \<and> code < 3000 then ArgumentError
       else if 3000 \<le> code \<and> code < 4000 then AuthError
       else if 4000 \<le> code \<and> code < 5000 then QuotaError
       else if 5000 \<le> code \<and> code < 6000 then InstanceStateError
       else if 9000 \<le> code \<and> code < 10000 then InternalError
       else ProtocolError))"
proof -
  have thousands: "code div 1000 = k \<longleftrightarrow> 1000 * k \<le> code \<and> code < 1000 * k + 1000" for k
    using div_mult_mod_eq [of code 1000] pos_mod_bound [of 1000 code] pos_mod_sign [of 1000 code]
    by linarith
  have "class_of (protocol_error code msg) =
     (if code = 3002 then AuthenticationFailedError
      else if code div 1000 = 1 then RequestError
      else if code div 1000 = 2 then ArgumentError
      else if code div 1000 = 3 then AuthError
      else if code div 1000 = 4 then QuotaError
      else if code div 1000 = 5 then InstanceStateError
      else if code div 1000 = 9 then InternalError
      else ProtocolError)"
    by (simp add: protocol_error_def RANGES_def)
  then show ?thesis
    by (simp only: thousands protocol_error_code) simp
qed

end
