(* ===== verification/PyText.thy ===== *)
theory PyText
  imports Errors "HOL-Library.Word"
begin

text \<open>
  The parts of Python's \<open>str\<close>, \<open>bytes\<close> and \<open>int\<close> that fq uses, as the language documents them.
  \<^item> \<open>bytes\<close> is a list of bytes; Isabelle's \<open>char\<close> is exactly an 8-bit value, so a literal such as
    \<open>''ok''\<close> is the Python literal \<open>b"ok"\<close>.
  \<^item> \<open>str\<close> is a list of Unicode code points (type \<open>pystr\<close>), so that a character outside ASCII is one
    element, as in Python; \<open>ustr ''HELLO''\<close> is the str with these ASCII characters.
  \<^item> \<open>encode\<close> and \<open>decode("utf-8", "replace")\<close> are CPython's UTF-8 codec; \<open>str(n)\<close> and \<open>int(s)\<close>
    write and read decimal digits, the latter with CPython's limit of 4300 digits.
\<close>

type_synonym bytes = string

definition ustr :: "string \<Rightarrow> pystr" where
  "ustr s = map of_char s"

text \<open>A str is well-formed when its code points are; every Python str is.\<close>

definition is_pystr :: "pystr \<Rightarrow> bool" where
  "is_pystr s \<longleftrightarrow> (\<forall>c \<in> set s. c < 0x110000)"

section \<open>Decimal numerals\<close>

fun dec_digits :: "nat \<Rightarrow> nat list" where
  "dec_digits n = (if n < 10 then [n] else dec_digits (n div 10) @ [n mod 10])"

declare dec_digits.simps [simp del]

definition dec_value :: "nat list \<Rightarrow> nat" where
  "dec_value ds = foldl (\<lambda>a d. 10 * a + d) 0 ds"

text \<open>\<open>str(n)\<close> for an int, as code points; \<open>0x30\<close> is the digit zero and \<open>0x2D\<close> the minus sign.\<close>

definition str_int :: "int \<Rightarrow> pystr" where
  "str_int n = (if n < 0 then 0x2D # map ((+) 0x30) (dec_digits (nat (- n)))
                else map ((+) 0x30) (dec_digits (nat n)))"

text \<open>CPython's \<open>sys.int_info.default_max_str_digits\<close>: a longer numeral makes \<open>int(...)\<close> raise ValueError.\<close>

definition INT_MAX_STR_DIGITS :: nat where
  "INT_MAX_STR_DIGITS = 4300"

definition int_of_digits :: "nat list \<Rightarrow> int result" where
  "int_of_digits ds =
     (if INT_MAX_STR_DIGITS < length ds then Inl (Exc PyValueError) else Inr (int (dec_value ds)))"

text \<open>\<open>bytes.isdigit\<close> and \<open>int(field)\<close> on bytes that passed it.\<close>

definition is_ascii_digit :: "char \<Rightarrow> bool" where
  "is_ascii_digit c \<longleftrightarrow> 0x30 \<le> (of_char c :: nat) \<and> (of_char c :: nat) \<le> 0x39"

definition bytes_isdigit :: "bytes \<Rightarrow> bool" where
  "bytes_isdigit s \<longleftrightarrow> s \<noteq> [] \<and> list_all is_ascii_digit s"

definition bytes_isascii :: "bytes \<Rightarrow> bool" where
  "bytes_isascii s \<longleftrightarrow> list_all (\<lambda>c. (of_char c :: nat) < 128) s"

definition digit_of_byte :: "char \<Rightarrow> nat" where
  "digit_of_byte c = of_char c - 0x30"

definition int_of_bytes :: "bytes \<Rightarrow> int result" where
  "int_of_bytes s = int_of_digits (map digit_of_byte s)"

text \<open>
  \<open>str.isdigit\<close> accepts every character with the Unicode property Numeric_Type Decimal or Digit;
  \<open>int(s)\<close> reads only the decimal ones. The first table lists the zeros of the decimal ranges (each
  is followed by its digits one to nine), the second the characters that are digits and not
  decimal (superscripts, circled digits and so on), both of Unicode 14 (Python 3.11).
\<close>

definition DECIMAL_ZEROS :: "nat list" where
  "DECIMAL_ZEROS =
    [48, 1632, 1776, 1984, 2406, 2534, 2662, 2790, 2918, 3046, 3174, 3302, 3430, 3558, 3664, 3792,
     3872, 4160, 4240, 6112, 6160, 6470, 6608, 6784, 6800, 6992, 7088, 7232, 7248, 42528, 43216,
     43264, 43472, 43504, 43600, 44016, 65296, 66720, 68912, 69734, 69872, 69942, 70096, 70384,
     70736, 70864, 71248, 71360, 71472, 71904, 72016, 72784, 73040, 73120, 92768, 92864, 93008,
     120782, 120792, 120802, 120812, 120822, 123200, 123632, 125264, 130032]"

definition OTHER_DIGITS :: "(nat \<times> nat) list" where
  "OTHER_DIGITS =
    [(178, 179), (185, 185), (4969, 4977), (6618, 6618), (8304, 8304), (8308, 8313), (8320, 8329),
     (9312, 9320), (9332, 9340), (9352, 9360), (9450, 9450), (9461, 9469), (9471, 9471),
     (10102, 10110), (10112, 10120), (10122, 10130), (68160, 68163), (69216, 69224),
     (69714, 69722), (127232, 127242)]"

definition decimal_digit :: "nat \<Rightarrow> nat option" where
  "decimal_digit c = map_option (\<lambda>z. c - z) (find (\<lambda>z. z \<le> c \<and> c < z + 10) DECIMAL_ZEROS)"

definition is_unicode_digit :: "nat \<Rightarrow> bool" where
  "is_unicode_digit c \<longleftrightarrow>
     decimal_digit c \<noteq> None \<or> list_ex (\<lambda>(lo, hi). lo \<le> c \<and> c \<le> hi) OTHER_DIGITS"

definition str_isdigit :: "pystr \<Rightarrow> bool" where
  "str_isdigit s \<longleftrightarrow> s \<noteq> [] \<and> list_all is_unicode_digit s"

text \<open>\<open>int(s)\<close> on a str for which \<open>isdigit\<close> holds: a digit that is not decimal is a ValueError.\<close>

definition int_of_str :: "pystr \<Rightarrow> int result" where
  "int_of_str s = (case those (map decimal_digit s) of
      None \<Rightarrow> Inl (Exc PyValueError)
    | Some ds \<Rightarrow> int_of_digits ds)"

section \<open>UTF-8\<close>

definition byte_of :: "nat \<Rightarrow> char" where
  "byte_of n = char_of n"

text \<open>\<open>s.encode("utf-8")\<close>: surrogates cannot be encoded.\<close>

definition utf8_char :: "nat \<Rightarrow> bytes result" where
  "utf8_char c =
    (if c < 0x80 then Inr [byte_of c]
     else if c < 0x800 then Inr [byte_of (0xC0 + c div 64), byte_of (0x80 + c mod 64)]
     else if 0xD800 \<le> c \<and> c \<le> 0xDFFF then Inl (Exc PyUnicodeEncodeError)
     else if c < 0x10000 then
       Inr [byte_of (0xE0 + c div 4096), byte_of (0x80 + c div 64 mod 64), byte_of (0x80 + c mod 64)]
     else
       Inr [byte_of (0xF0 + c div 262144), byte_of (0x80 + c div 4096 mod 64),
            byte_of (0x80 + c div 64 mod 64), byte_of (0x80 + c mod 64)])"

definition encode_utf8 :: "pystr \<Rightarrow> bytes result" where
  "encode_utf8 s = sbind (smap utf8_char s) (\<lambda>bs. Inr (concat bs))"

text \<open>
  \<open>bs.decode("utf-8", "replace")\<close>: every maximal prefix of a valid sequence that is not continued
  correctly becomes one U+FFFD, every byte that cannot start a sequence becomes one U+FFFD.
\<close>

definition is_cont :: "nat \<Rightarrow> bool" where
  "is_cont b \<longleftrightarrow> 0x80 \<le> b \<and> b \<le> 0xBF"

definition second3 :: "nat \<Rightarrow> nat \<Rightarrow> bool" where
  "second3 a b \<longleftrightarrow> is_cont b \<and> (a = 0xE0 \<longrightarrow> 0xA0 \<le> b) \<and> (a = 0xED \<longrightarrow> b \<le> 0x9F)"

definition second4 :: "nat \<Rightarrow> nat \<Rightarrow> bool" where
  "second4 a b \<longleftrightarrow> is_cont b \<and> (a = 0xF0 \<longrightarrow> 0x90 \<le> b) \<and> (a = 0xF4 \<longrightarrow> b \<le> 0x8F)"

definition utf8_step :: "nat list \<Rightarrow> nat \<times> nat" where
  \<comment> \<open>the code point at the front of the input and how many bytes it takes\<close>
  "utf8_step bs = (case bs of
      [] \<Rightarrow> (0xFFFD, 1)
    | a # rest \<Rightarrow>
       if a < 0x80 then (a, 1)
       else if 0xC2 \<le> a \<and> a \<le> 0xDF then
         (case rest of
            b # _ \<Rightarrow> if is_cont b then ((a - 0xC0) * 64 + (b - 0x80), 2) else (0xFFFD, 1)
          | [] \<Rightarrow> (0xFFFD, 1))
       else if 0xE0 \<le> a \<and> a \<le> 0xEF then
         (case rest of
            b # rest2 \<Rightarrow>
              if \<not> second3 a b then (0xFFFD, 1)
              else (case rest2 of
                  c # _ \<Rightarrow> if is_cont c
                     then ((a - 0xE0) * 4096 + (b - 0x80) * 64 + (c - 0x80), 3)
                     else (0xFFFD, 2)
                | [] \<Rightarrow> (0xFFFD, 2))
          | [] \<Rightarrow> (0xFFFD, 1))
       else if 0xF0 \<le> a \<and> a \<le> 0xF4 then
         (case rest of
            b # rest2 \<Rightarrow>
              if \<not> second4 a b then (0xFFFD, 1)
              else (case rest2 of
                  c # rest3 \<Rightarrow>
                    if \<not> is_cont c then (0xFFFD, 2)
                    else (case rest3 of
                        d # _ \<Rightarrow> if is_cont d
                          then ((a - 0xF0) * 262144 + (b - 0x80) * 4096 + (c - 0x80) * 64 + (d - 0x80), 4)
                          else (0xFFFD, 3)
                      | [] \<Rightarrow> (0xFFFD, 3))
                | [] \<Rightarrow> (0xFFFD, 2))
          | [] \<Rightarrow> (0xFFFD, 1))
       else (0xFFFD, 1))"

lemma utf8_step_progress: "0 < snd (utf8_step bs)"
  by (simp add: utf8_step_def split: list.split)

function utf8_points :: "nat list \<Rightarrow> pystr" where
  "utf8_points [] = []"
| "utf8_points (b # bs) =
     fst (utf8_step (b # bs)) # utf8_points (drop (snd (utf8_step (b # bs))) (b # bs))"
  by pat_completeness auto
termination
  by (relation "measure length") (simp_all add: diff_less utf8_step_progress)

declare utf8_points.simps(2) [simp del]

definition decode_replace :: "bytes \<Rightarrow> pystr" where
  "decode_replace bs = utf8_points (map of_char bs)"

section \<open>Facts about decimal numerals\<close>

lemma dec_digits_nonempty [simp]: "dec_digits n \<noteq> []"
  by (subst dec_digits.simps) simp

lemma dec_digits_lt: "d \<in> set (dec_digits n) \<Longrightarrow> d < 10"
proof (induction n rule: dec_digits.induct)
  case (1 n)
  then show ?case by (subst (asm) dec_digits.simps) (auto split: if_splits)
qed

lemma dec_value_Nil [simp]: "dec_value [] = 0"
  by (simp add: dec_value_def)

lemma dec_value_snoc [simp]: "dec_value (ds @ [d]) = 10 * dec_value ds + d"
  by (simp add: dec_value_def)

lemma dec_value_singleton [simp]: "dec_value [d] = d"
  by (simp add: dec_value_def)

lemma dec_value_digits [simp]: "dec_value (dec_digits n) = n"
proof (induction n rule: dec_digits.induct)
  case (1 n)
  then show ?case by (subst dec_digits.simps) auto
qed

lemma length_dec_digits: "0 < k \<Longrightarrow> n < 10 ^ k \<Longrightarrow> length (dec_digits n) \<le> k"
proof (induction k arbitrary: n rule: nat_induct_non_zero)
  case 1
  then show ?case by (subst dec_digits.simps) simp
next
  case (Suc k)
  then have "length (dec_digits (n div 10)) \<le> k" by (simp add: div_less_iff_less_mult mult.commute)
  then show ?case by (subst dec_digits.simps) simp
qed

lemma INT_MAX_pos: "0 < INT_MAX_STR_DIGITS"
  by (simp add: INT_MAX_STR_DIGITS_def)

lemma int_of_digits_dec:
  "n < 10 ^ INT_MAX_STR_DIGITS \<Longrightarrow> int_of_digits (dec_digits n) = Inr (int n)"
  using length_dec_digits [OF INT_MAX_pos] by (fastforce simp add: int_of_digits_def)

text \<open>The limit is far above every number the protocol carries: twenty digits are never too many.\<close>

lemma short_numeral: "n < (10 :: 'a :: linordered_semidom) ^ 20 \<Longrightarrow> n < 10 ^ INT_MAX_STR_DIGITS"
  by (rule less_le_trans, assumption, rule power_increasing) (simp_all add: INT_MAX_STR_DIGITS_def)

section \<open>Facts about characters\<close>

lemma of_char_byte_of [simp]: "n < 256 \<Longrightarrow> (of_char (byte_of n) :: nat) = n"
  by (simp add: byte_of_def)

lemma byte_of_of_char [simp]: "byte_of (of_char c) = c"
  by (simp add: byte_of_def)

lemma decimal_digit_ascii: "d < 10 \<Longrightarrow> decimal_digit (0x30 + d) = Some d"
  by (simp add: decimal_digit_def DECIMAL_ZEROS_def)

lemma is_unicode_digit_ascii: "d < 10 \<Longrightarrow> is_unicode_digit (0x30 + d)"
  by (simp add: is_unicode_digit_def decimal_digit_ascii)

lemma those_map_Some: "(\<And>x. x \<in> set xs \<Longrightarrow> f x = Some (g x)) \<Longrightarrow> those (map f xs) = Some (map g xs)"
  by (induction xs) simp_all

lemma str_int_nonneg: "0 \<le> n \<Longrightarrow> str_int n = map ((+) 0x30) (dec_digits (nat n))"
  by (simp add: str_int_def)

lemma str_int_digits: "0 \<le> n \<Longrightarrow> c \<in> set (str_int n) \<Longrightarrow> 0x30 \<le> c \<and> c \<le> 0x39"
  by (auto simp: str_int_nonneg dest!: dec_digits_lt)

lemma str_int_isdigit: "0 \<le> n \<Longrightarrow> str_isdigit (str_int n)"
  by (auto simp: str_isdigit_def str_int_nonneg list_all_iff dest: dec_digits_lt
      intro: is_unicode_digit_ascii)

lemma str_int_ascii: "c \<in> set (str_int n) \<Longrightarrow> c < 0x80"
  by (auto simp: str_int_def split: if_splits dest!: dec_digits_lt)

text \<open>Reading back what \<open>str\<close> wrote, from a str and from bytes.\<close>

lemma int_of_str_str_int:
  assumes "0 \<le> n" and "n < 10 ^ INT_MAX_STR_DIGITS"
  shows "int_of_str (str_int n) = Inr n"
proof -
  have "those (map decimal_digit (str_int n)) = Some (dec_digits (nat n))"
    using assms(1)
    by (simp add: str_int_nonneg)
       (subst those_map_Some [where g = "\<lambda>d. d"], auto intro: decimal_digit_ascii dec_digits_lt)
  moreover have "nat n < 10 ^ INT_MAX_STR_DIGITS"
    using assms by (simp add: nat_less_iff)
  ultimately show ?thesis
    using assms(1) by (simp add: int_of_str_def int_of_digits_dec)
qed

definition digit_bytes :: "nat \<Rightarrow> bytes" where
  \<comment> \<open>the decimal rendering of a natural number as bytes, what a server writes\<close>
  "digit_bytes n = map (\<lambda>d. byte_of (0x30 + d)) (dec_digits n)"

lemma digit_bytes_isdigit: "bytes_isdigit (digit_bytes n)" "bytes_isascii (digit_bytes n)"
  by (auto simp: bytes_isdigit_def bytes_isascii_def digit_bytes_def list_all_iff
      is_ascii_digit_def dest!: dec_digits_lt)

lemma digit_bytes_nonempty [simp]: "digit_bytes n \<noteq> []"
  by (simp add: digit_bytes_def)

lemma int_of_bytes_digit_bytes:
  "n < 10 ^ INT_MAX_STR_DIGITS \<Longrightarrow> int_of_bytes (digit_bytes n) = Inr (int n)"
proof -
  have "map digit_of_byte (digit_bytes n) = dec_digits n"
    by (auto simp add: digit_bytes_def digit_of_byte_def comp_def intro!: map_idI dest: dec_digits_lt)
  then show "n < 10 ^ INT_MAX_STR_DIGITS \<Longrightarrow> int_of_bytes (digit_bytes n) = Inr (int n)"
    by (simp add: int_of_bytes_def int_of_digits_dec)
qed

section \<open>Facts about UTF-8\<close>

lemma split64: "(c::nat) = 64 * (c div 64) + c mod 64" by simp

lemma split4096: "(c::nat) div 4096 * 4096 + c div 64 mod 64 * 64 + c mod 64 = c"
proof -
  have "c div 4096 = c div 64 div 64" by (simp add: div_mult2_eq [symmetric])
  then show ?thesis using split64 [of c] split64 [of "c div 64"] by linarith
qed

lemma split262144: "(c::nat) div 262144 * 262144 + c div 4096 mod 64 * 4096 + c div 64 mod 64 * 64 + c mod 64 = c"
proof -
  have "c div 262144 = c div 4096 div 64" by (simp add: div_mult2_eq [symmetric])
  then show ?thesis using split4096 [of c] split64 [of "c div 4096"] by linarith
qed

lemma utf8_step_2:
  assumes "0x80 \<le> c" and "c < 0x800"
  shows "utf8_step ((0xC0 + c div 64) # (0x80 + c mod 64) # rest) = (c, 2)"
proof -
  have "2 \<le> c div 64" and "c div 64 < 32" using assms by simp_all
  then show ?thesis
    using mod_less_divisor [of 64 c] by (simp add: utf8_step_def is_cont_def)
qed

lemma utf8_step_3:
  assumes "0x800 \<le> c" and "c < 0x10000" and "\<not> (0xD800 \<le> c \<and> c \<le> 0xDFFF)"
  shows "utf8_step ((0xE0 + c div 4096) # (0x80 + c div 64 mod 64) # (0x80 + c mod 64) # rest) = (c, 3)"
proof -
  define a b d where "a = c div 4096" and "b = c div 64 mod 64" and "d = c mod 64"
  have c: "a * 4096 + b * 64 + d = c" by (simp add: a_def b_def d_def split4096)
  have "b < 64" "d < 64" by (simp_all add: b_def d_def)
  moreover have "a < 16" using assms(2) by (simp add: a_def)
  moreover have "a = 0 \<longrightarrow> 32 \<le> b" using c assms(1) \<open>d < 64\<close> by linarith
  moreover have "a = 13 \<longrightarrow> b \<le> 31" using c assms(3) \<open>d < 64\<close> \<open>b < 64\<close> by linarith
  ultimately have "utf8_step ((0xE0 + a) # (0x80 + b) # (0x80 + d) # rest) = (c, 3)"
    by (simp add: utf8_step_def second3_def is_cont_def c)
  then show ?thesis by (simp add: a_def b_def d_def)
qed

lemma utf8_step_4:
  assumes "0x10000 \<le> c" and "c < 0x110000"
  shows "utf8_step ((0xF0 + c div 262144) # (0x80 + c div 4096 mod 64) # (0x80 + c div 64 mod 64)
    # (0x80 + c mod 64) # rest) = (c, 4)"
proof -
  define a b d e where "a = c div 262144" and "b = c div 4096 mod 64" and "d = c div 64 mod 64"
    and "e = c mod 64"
  have c: "a * 262144 + b * 4096 + d * 64 + e = c" by (simp add: a_def b_def d_def e_def split262144)
  have "b < 64" "d < 64" "e < 64" by (simp_all add: b_def d_def e_def)
  moreover have "a < 5" using c assms(2) by linarith
  moreover have "a = 0 \<longrightarrow> 16 \<le> b" using c assms(1) \<open>d < 64\<close> \<open>e < 64\<close> by linarith
  moreover have "a = 4 \<longrightarrow> b \<le> 15" using c assms(2) by linarith
  ultimately have "utf8_step ((0xF0 + a) # (0x80 + b) # (0x80 + d) # (0x80 + e) # rest) = (c, 4)"
    by (simp add: utf8_step_def second4_def is_cont_def c)
  then show ?thesis by (simp add: a_def b_def d_def e_def)
qed

lemma utf8_char_step:
  assumes "utf8_char c = Inr bs" and "c < 0x110000"
  shows "utf8_step (map of_char bs @ rest) = (c, length bs)"
proof -
  have low: "c mod 64 < 64" "c div 64 mod 64 < 64" "c div 4096 mod 64 < 64" by simp_all
  consider "c < 0x80" | "0x80 \<le> c" "c < 0x800" | "0x800 \<le> c" "c < 0x10000" | "0x10000 \<le> c"
    by linarith
  then show ?thesis
  proof cases
    case 1
    then show ?thesis using assms by (auto simp: utf8_char_def utf8_step_def)
  next
    case 2
    then have "c div 64 < 32" by simp
    with 2 low show ?thesis using assms by (auto simp: utf8_char_def utf8_step_2)
  next
    case 3
    then have "c div 4096 < 16" by simp
    moreover have "\<not> (0xD800 \<le> c \<and> c \<le> 0xDFFF)" using 3 assms by (auto simp: utf8_char_def)
    ultimately show ?thesis using 3 low assms by (auto simp: utf8_char_def utf8_step_3)
  next
    case 4
    then have "c div 262144 < 5" using assms(2) by simp
    with 4 low show ?thesis using assms by (auto simp: utf8_char_def utf8_step_4)
  qed
qed

lemma utf8_char_nonempty: "utf8_char c = Inr bs \<Longrightarrow> bs \<noteq> []"
  by (auto simp: utf8_char_def split: if_splits)

lemma utf8_points_encode:
  "smap utf8_char s = Inr bss \<Longrightarrow> is_pystr s \<Longrightarrow> utf8_points (map of_char (concat bss)) = s"
proof (induction s arbitrary: bss)
  case Nil
  then show ?case by simp
next
  case (Cons c s)
  then obtain b bs where b: "utf8_char c = Inr b" "smap utf8_char s = Inr bs" "bss = b # bs"
    by (auto simp: sbind_eq_Inr)
  have step: "utf8_step (map of_char b @ map of_char (concat bs)) = (c, length b)"
    using Cons.prems(2) b(1) by (intro utf8_char_step) (simp_all add: is_pystr_def)
  have "utf8_points (map of_char (concat bs)) = s"
    using Cons.IH [OF b(2)] Cons.prems(2) by (simp add: is_pystr_def)
  with step utf8_char_nonempty [OF b(1)] show ?case
    by (cases b) (simp_all add: b(3) utf8_points.simps(2))
qed

lemma decode_encode_str:
  "encode_utf8 s = Inr bs \<Longrightarrow> is_pystr s \<Longrightarrow> decode_replace bs = s"
  by (auto simp: encode_utf8_def decode_replace_def sbind_eq_Inr utf8_points_encode)

text \<open>
  The UTF-8 codec round trip: whatever str the client manages to encode, decoding those bytes
  (with errors="replace", as the response decoders do) gives the same str back. A token, key or
  client id therefore survives the trip to the server and back unchanged, whatever its characters.
\<close>

theorem decode_encode:
  "encode_utf8 s = Inr bs \<Longrightarrow> is_pystr s \<Longrightarrow> decode_replace bs = s"
  by (auto simp: encode_utf8_def decode_replace_def sbind_eq_Inr utf8_points_encode)

lemma encode_ascii:
  "(\<And>c. c \<in> set s \<Longrightarrow> c < 0x80) \<Longrightarrow> encode_utf8 s = Inr (map byte_of s)"
proof -
  assume "\<And>c. c \<in> set s \<Longrightarrow> c < 0x80"
  then have "smap utf8_char s = Inr (map (\<lambda>c. [byte_of c]) s)"
    by (intro smap_total) (simp add: utf8_char_def)
  then show ?thesis by (simp add: encode_utf8_def concat_map_singleton)
qed

lemma encode_append:
  "encode_utf8 (s @ t) = sbind (encode_utf8 s) (\<lambda>a. sbind (encode_utf8 t) (\<lambda>b. Inr (a @ b)))"
  by (cases "smap utf8_char s"; cases "smap utf8_char t")
     (simp_all add: encode_utf8_def smap_append)

text \<open>Only a surrogate stops the encoder.\<close>

lemma encode_total:
  "(\<And>c. c \<in> set s \<Longrightarrow> \<not> (0xD800 \<le> c \<and> c \<le> 0xDFFF)) \<Longrightarrow> \<exists>bs. encode_utf8 s = Inr bs"
proof (induction s)
  case (Cons c s)
  then obtain bs where "encode_utf8 s = Inr bs" by auto
  moreover have "\<exists>b. utf8_char c = Inr b"
    using Cons.prems [of c] by (simp add: utf8_char_def)
  ultimately show ?case by (auto simp: encode_utf8_def sbind_eq_Inr)
qed (simp add: encode_utf8_def)

text \<open>Bytes below 128 decode to themselves.\<close>

lemma decode_ascii: "(\<And>c. c \<in> set bs \<Longrightarrow> (of_char c :: nat) < 0x80) \<Longrightarrow> decode_replace bs = map of_char bs"
proof -
  assume "\<And>c. c \<in> set bs \<Longrightarrow> (of_char c :: nat) < 0x80"
  then have "utf8_points (map of_char bs) = map of_char bs"
    by (induction bs) (simp_all add: utf8_points.simps(2) utf8_step_def)
  then show ?thesis by (simp add: decode_replace_def)
qed

end
