(* ===== verification/Types.thy ===== *)
theory Types
  imports PyText
begin

text \<open>
  The domain types of \<open>fq/types.py\<close>: keys, results and events as records with the source's fields
  (each field prefixed by a tag of its class, since HOL field names are global), the INSPECT
  sections, and the client side of the TLS configuration.
\<close>

section \<open>Constants\<close>

definition PROTOCOL_VERSION :: int where
  "PROTOCOL_VERSION = 1"

definition SCAN_CURSOR_INITIAL :: pystr where
  "SCAN_CURSOR_INITIAL = ustr ''0''"

definition DEFAULT_MAX_MESSAGE_SIZE :: int where
  "DEFAULT_MAX_MESSAGE_SIZE = 4096"

definition MAX_VALUE :: int where
  "MAX_VALUE = 2 ^ 63 - 1"

section \<open>Keys, results and events\<close>

record CappingKey =
  ck_key :: pystr
  ck_capping :: int

record LimitKey =
  lk_key :: pystr
  lk_window :: int

record RateLimitResult =
  rl_allowed :: bool
  rl_current :: int
  rl_remaining :: int
  rl_reset_after :: int

record LimitEvent =
  le_key :: pystr
  le_window :: int
  le_current :: int
  le_reset_after :: int

record QuotaAcquireResult =
  qa_acquired :: bool
  qa_allocated :: int
  qa_used :: int
  qa_remaining :: int
  qa_expires_after :: int

record QuotaClientInfo =
  qc_client_id :: pystr
  qc_amount :: int
  qc_expires_at :: int

record QuotaInfo =
  qi_limit :: int
  qi_used :: int
  qi_remaining :: int
  qi_clients :: "QuotaClientInfo list"

record ScanKey =
  sk_key :: pystr
  sk_window :: int

record ScanResult =
  sr_cursor :: pystr
  sr_keys :: "ScanKey list"

record QuotaEvent =
  qe_event :: pystr
  qe_name :: pystr
  qe_client_id :: pystr
  qe_amount :: int
  qe_used :: int
  qe_remaining :: int
  qe_expires_at :: int

datatype InspectSection = SUMMARY | ALL_SECTIONS | WAL | DUMP | REPL | ENGINE | STREAMS

fun section_value :: "InspectSection \<Rightarrow> pystr" where
  "section_value SUMMARY = []"
| "section_value ALL_SECTIONS = ustr ''ALL''"
| "section_value WAL = ustr ''WAL''"
| "section_value DUMP = ustr ''DUMP''"
| "section_value REPL = ustr ''REPL''"
| "section_value ENGINE = ustr ''ENGINE''"
| "section_value STREAMS = ustr ''STREAMS''"

section \<open>TLS configuration\<close>

record TLSConfig =
  ca_file :: pystr
  cert_file :: pystr
  key_file :: pystr
  server_name :: pystr
  skip_verify :: bool
  min_version :: pystr

datatype TLSVersion = TLSv1_2 | TLSv1_3

text \<open>
  The attributes of an \<open>ssl.SSLContext\<close> the code sets; the two booleans are its
  \<open>check_hostname\<close> and \<open>verify_mode == CERT_REQUIRED\<close>, which \<open>create_default_context\<close> turns on.
\<close>

record SSLContext =
  sc_cafile :: "pystr option"
  sc_minimum_version :: TLSVersion
  sc_check_hostname :: bool
  sc_verify_required :: bool
  sc_cert_chain :: "(pystr \<times> pystr) option"

definition TLS_MIN_VERSIONS :: "(pystr \<times> TLSVersion) list" where
  "TLS_MIN_VERSIONS = [([], TLSv1_2), (ustr ''1.2'', TLSv1_2), (ustr ''1.3'', TLSv1_3)]"

text \<open>
  Reading the certificate files is I/O: \<open>load_ca\<close> and \<open>load_chain\<close> say which exception, if any, the
  ssl module raises for the given paths.
\<close>

definition build_context ::
  "(pystr option \<Rightarrow> exc option) \<Rightarrow> (pystr \<Rightarrow> pystr \<Rightarrow> exc option) \<Rightarrow> TLSConfig \<Rightarrow> SSLContext result" where
  "build_context load_ca load_chain cfg =
    (if (cert_file cfg \<noteq> []) \<noteq> (key_file cfg \<noteq> []) then Inl (Exc PyValueError)
     else case map_of TLS_MIN_VERSIONS (min_version cfg) of
       None \<Rightarrow> Inl (Exc PyValueError)
     | Some minimum \<Rightarrow>
         let cafile = (if ca_file cfg = [] then None else Some (ca_file cfg)) in
         (case load_ca cafile of
            Some e \<Rightarrow> Inl e
          | None \<Rightarrow>
              let context = \<lparr>sc_cafile = cafile, sc_minimum_version = minimum,
                             sc_check_hostname = True, sc_verify_required = True,
                             sc_cert_chain = None\<rparr>;
                  context = (if skip_verify cfg
                             then context\<lparr>sc_check_hostname := False, sc_verify_required := False\<rparr>
                             else context)
              in if cert_file cfg \<noteq> []
                 then (case load_chain (cert_file cfg) (key_file cfg) of
                         Some e \<Rightarrow> Inl e
                       | None \<Rightarrow> Inr (context\<lparr>sc_cert_chain := Some (cert_file cfg, key_file cfg)\<rparr>))
                 else Inr context))"

text \<open>
  A TLS context is built only from a consistent configuration, and it verifies the server
  unless the configuration says \<open>skip_verify\<close>: hostname check and certificate verification are
  both on exactly when \<open>skip_verify\<close> is off, the minimum version is never below TLS 1.2 and is 1.3
  exactly when asked for, and a client certificate is loaded exactly when both files are given.
\<close>

theorem build_context_secure:
  assumes "build_context load_ca load_chain cfg = Inr ctx"
  shows "(sc_check_hostname ctx \<longleftrightarrow> \<not> skip_verify cfg) \<and>
         (sc_verify_required ctx \<longleftrightarrow> \<not> skip_verify cfg) \<and>
         (sc_minimum_version ctx = TLSv1_3 \<longleftrightarrow> min_version cfg = ustr ''1.3'') \<and>
         (cert_file cfg = [] \<longleftrightarrow> key_file cfg = []) \<and>
         sc_cert_chain ctx = (if cert_file cfg = [] then None else Some (cert_file cfg, key_file cfg))"
  using assms
  by (auto simp: build_context_def TLS_MIN_VERSIONS_def Let_def ustr_def
      split: if_splits option.splits)

lemma build_context_secure_witness:
  "\<exists>ctx. build_context (\<lambda>_. None) (\<lambda>_ _. None)
      \<lparr>ca_file = ustr ''ca'', cert_file = ustr ''c'', key_file = ustr ''k'', server_name = [],
       skip_verify = False, min_version = ustr ''1.3''\<rparr> = Inr ctx \<and>
    sc_check_hostname ctx \<and> sc_minimum_version ctx = TLSv1_3 \<and>
    sc_cert_chain ctx = Some (ustr ''c'', ustr ''k'')"
proof -
  let ?cfg = "\<lparr>ca_file = ustr ''ca'', cert_file = ustr ''c'', key_file = ustr ''k'', server_name = [],
       skip_verify = False, min_version = ustr ''1.3''\<rparr>"
  have "\<exists>ctx. build_context (\<lambda>_. None) (\<lambda>_ _. None) ?cfg = Inr ctx"
    by (simp add: build_context_def TLS_MIN_VERSIONS_def Let_def ustr_def)
  then obtain ctx where "build_context (\<lambda>_. None) (\<lambda>_ _. None) ?cfg = Inr ctx" ..
  with build_context_secure [OF this] show ?thesis by (auto simp: ustr_def)
qed

end
