(* ===== verification/Framing.thy ===== *)
theory Framing
  imports Types
begin

text \<open>
  \<open>fq/_framing.py\<close>: a message on the wire is a four-byte big-endian length followed by that many
  bytes. Sizes are Python ints; \<open>to_bytes(4, "big")\<close> raises OverflowError from 2 ** 32 on.
\<close>

definition FRAME_HEADER_SIZE :: nat where
  "FRAME_HEADER_SIZE = 4"

text \<open>\<open>n.to_bytes(4, "big")\<close> and \<open>int.from_bytes(bs, "big")\<close>.\<close>

definition to_bytes4 :: "nat \<Rightarrow> bytes result" where
  "to_bytes4 n =
     (if n < 2 ^ 32
      then Inr [byte_of (n div 2 ^ 24 mod 256), byte_of (n div 2 ^ 16 mod 256),
                byte_of (n div 2 ^ 8 mod 256), byte_of (n mod 256)]
      else Inl (Exc PyOverflowError))"

definition from_bytes :: "bytes \<Rightarrow> nat" where
  "from_bytes bs = foldl (\<lambda>a b. 256 * a + of_char b) 0 bs"

definition encode_frame :: "bytes \<Rightarrow> bytes result" where
  "encode_frame payload = sbind (to_bytes4 (length payload)) (\<lambda>header. Inr (header @ payload))"

definition decode_frame_size :: "bytes \<Rightarrow> int \<Rightarrow> nat result" where
  "decode_frame_size header max_message_size =
     (if length header \<noteq> FRAME_HEADER_SIZE then Inl (Exc CorruptedResponseError)
      else let size = from_bytes header in
        if max_message_size < int size then Inl (Exc CorruptedResponseError)
        else Inr size)"

text \<open>The message of the local refusal, as the f-string builds it.\<close>

definition oversized_message :: "nat \<Rightarrow> int \<Rightarrow> pystr" where
  "oversized_message n max_message_size =
     ustr ''request of '' @ str_int (int n) @ ustr '' bytes exceeds max message size ''
       @ str_int max_message_size"

definition check_request_size :: "bytes \<Rightarrow> int \<Rightarrow> unit result" where
  "check_request_size payload max_message_size =
     (if max_message_size < int (length payload)
      then Inl (ProtocolExc RequestError (code_value MESSAGE_SIZE_EXCEEDS_MAXIMUM)
             (oversized_message (length payload) max_message_size))
      else Inr ())"

section \<open>Round trip and limits\<close>

lemma length_to_bytes4: "to_bytes4 n = Inr h \<Longrightarrow> length h = FRAME_HEADER_SIZE"
  by (auto simp: to_bytes4_def FRAME_HEADER_SIZE_def split: if_splits)

lemma from_to_bytes4: "to_bytes4 n = Inr h \<Longrightarrow> from_bytes h = n"
proof -
  assume h: "to_bytes4 n = Inr h"
  have "n div 2 ^ 24 < 256" using h by (auto simp: to_bytes4_def split: if_splits)
  moreover have "n div 2 ^ 24 = n div 2 ^ 16 div 256" "n div 2 ^ 16 = n div 2 ^ 8 div 256"
    by (simp_all add: div_mult2_eq [symmetric])
  ultimately show ?thesis
    using h by (auto simp: to_bytes4_def from_bytes_def split: if_splits)
qed

lemma to_bytes4_from_bytes:
  assumes "length h = FRAME_HEADER_SIZE"
  shows "to_bytes4 (from_bytes h) = Inr h"
proof -
  obtain a b c d where h: "h = [a, b, c, d]"
    using assms by (auto simp: FRAME_HEADER_SIZE_def length_Suc_conv numeral_eq_Suc)
  define A B C D where "A = (of_char a :: nat)" and "B = (of_char b :: nat)"
    and "C = (of_char c :: nat)" and "D = (of_char d :: nat)"
  have lt: "A < 256" "B < 256" "C < 256" "D < 256"
    by (simp_all add: A_def B_def C_def D_def)
  define m2 where "m2 = 256 * A + B"
  define m1 where "m1 = 256 * m2 + C"
  define n where "n = 256 * m1 + D"
  have n: "from_bytes h = n"
    by (simp add: h from_bytes_def A_def B_def C_def D_def n_def m1_def m2_def)
  have "n div 256 = m1" "n mod 256 = D" using lt by (simp_all add: n_def)
  moreover have "m1 div 256 = m2" "m1 mod 256 = C" using lt by (simp_all add: m1_def)
  moreover have "m2 div 256 = A" "m2 mod 256 = B" using lt by (simp_all add: m2_def)
  moreover have "n div 2 ^ 8 = n div 256" "n div 2 ^ 16 = n div 256 div 256"
    "n div 2 ^ 24 = n div 256 div 256 div 256"
    by (simp_all add: div_mult2_eq [symmetric])
  moreover have "n < 2 ^ 32" using lt by (simp add: n_def m1_def m2_def)
  ultimately have "to_bytes4 n = Inr [byte_of A, byte_of B, byte_of C, byte_of D]"
    using lt by (simp only: to_bytes4_def if_True mod_less)
  then have "to_bytes4 (from_bytes h) = Inr [byte_of A, byte_of B, byte_of C, byte_of D]"
    unfolding n .
  then show ?thesis by (simp add: h A_def B_def C_def D_def)
qed

lemma encode_frame_total: "length p < 2 ^ 32 \<Longrightarrow> \<exists>h. encode_frame p = Inr (h @ p) \<and> length h = FRAME_HEADER_SIZE"
  by (auto simp: encode_frame_def to_bytes4_def FRAME_HEADER_SIZE_def)

lemma encode_frame_length: "encode_frame p = Inr f \<Longrightarrow> length f = length p + 4"
  by (auto simp: encode_frame_def sbind_eq_Inr FRAME_HEADER_SIZE_def dest!: length_to_bytes4)

lemma own_header:
  assumes "encode_frame payload = Inr frame"
  shows "decode_frame_size (take FRAME_HEADER_SIZE (frame @ rest)) limit =
    (if int (length payload) \<le> limit then Inr (length payload) else Inl (Exc CorruptedResponseError))"
proof -
  obtain h where h: "to_bytes4 (length payload) = Inr h" "frame = h @ payload"
    using assms by (auto simp: encode_frame_def sbind_eq_Inr)
  then show ?thesis
    using from_to_bytes4 [OF h(1)] length_to_bytes4 [OF h(1)] by (simp add: decode_frame_size_def)
qed

lemma own_body:
  assumes "encode_frame payload = Inr frame"
  shows "take (length payload) (drop FRAME_HEADER_SIZE (frame @ rest)) = payload"
    and "drop (length payload) (drop FRAME_HEADER_SIZE (frame @ rest)) = rest"
  using assms by (auto simp: encode_frame_def sbind_eq_Inr length_to_bytes4)

text \<open>
  Framing round trip: a frame built by \<open>encode_frame\<close> starts with a header that
  \<open>decode_frame_size\<close> reads back as exactly the payload's length (within the negotiated limit), and
  what follows the header is the payload itself; so the receiver reads exactly the payload, no byte
  more or fewer, and a following frame starts where it should. Beyond the limit it is refused.
\<close>

theorem frame_roundtrip:
  assumes "encode_frame payload = Inr frame"
  shows "decode_frame_size (take FRAME_HEADER_SIZE (frame @ rest)) limit =
           (if int (length payload) \<le> limit then Inr (length payload)
            else Inl (Exc CorruptedResponseError)) \<and>
         take (length payload) (drop FRAME_HEADER_SIZE (frame @ rest)) = payload \<and>
         drop (FRAME_HEADER_SIZE + length payload) (frame @ rest) = rest"
  using own_header [OF assms] own_body [OF assms] by (simp add: add.commute del: take_append drop_append)

theorem frame_roundtrip_witness:
  "encode_frame ''GET'' = Inr (map byte_of [0, 0, 0, 3] @ ''GET'') \<and>
   decode_frame_size (take FRAME_HEADER_SIZE ((map byte_of [0, 0, 0, 3] @ ''GET'') @ ''x'')) 4096 = Inr 3"
proof -
  have e: "encode_frame ''GET'' = Inr (map byte_of [0, 0, 0, 3] @ ''GET'')"
    by (simp add: encode_frame_def to_bytes4_def)
  from frame_roundtrip [OF e, of "''x''" 4096] e show ?thesis
    by (simp add: numeral_eq_Suc)
qed

text \<open>
  Every four-byte header within the limit is the header of exactly one payload length: the
  decoder accepts nothing the encoder could not have written, and never yields a size above the
  negotiated limit or at or above 2 ** 32.
\<close>

theorem decode_frame_size_exact:
  assumes "decode_frame_size header limit = Inr n"
  shows "int n \<le> limit \<and> n < 2 ^ 32 \<and> to_bytes4 n = Inr header"
proof -
  have len: "length header = FRAME_HEADER_SIZE" and n: "n = from_bytes header"
    and lim: "int n \<le> limit"
    using assms by (auto simp: decode_frame_size_def Let_def split: if_splits)
  have t: "to_bytes4 n = Inr header"
    using to_bytes4_from_bytes [OF len] n by simp
  then have "n < 2 ^ 32" by (auto simp: to_bytes4_def split: if_splits)
  with t lim show ?thesis by simp
qed

theorem decode_frame_size_exact_witness:
  "decode_frame_size (map byte_of [0, 0, 1, 2]) 4096 = Inr 258 \<and>
   to_bytes4 258 = Inr (map byte_of [0, 0, 1, 2])"
proof -
  have "decode_frame_size (map byte_of [0, 0, 1, 2]) 4096 = Inr 258"
    by (simp add: decode_frame_size_def FRAME_HEADER_SIZE_def from_bytes_def)
  with decode_frame_size_exact [OF this] show ?thesis by simp
qed

end
