(* ===== verification/Commands.thy ===== *)
theory Commands
  imports Types
begin

text \<open>
  \<open>fq/_commands.py\<close>: one encoder per command of the wire protocol. A command is its payload and the
  flag that says whether repeating it is safe. The parts of a payload are Python objects that
  \<open>str()\<close> turns into text; here they are strings or ints. An encoder raises UnicodeEncodeError when
  a string holds a surrogate, and ValueOutOfRangeError before anything is encoded when a value lies
  outside the 64-bit range.
\<close>

section \<open>Payloads\<close>

record Command =
  payload :: bytes
  read_only :: bool

datatype part = PStr pystr | PInt int

fun part_str :: "part \<Rightarrow> pystr" where
  "part_str (PStr s) = s"
| "part_str (PInt n) = str_int n"

definition SPACE :: nat where
  "SPACE = 0x20"

definition cmd_join :: "part list \<Rightarrow> bytes result" where
  "cmd_join parts = encode_utf8 (join_with [SPACE] (map part_str parts))"

definition cmd_read_only :: "part list \<Rightarrow> Command result" where
  "cmd_read_only parts = sbind (cmd_join parts) (\<lambda>p. Inr \<lparr>payload = p, read_only = True\<rparr>)"

definition cmd_mutating :: "part list \<Rightarrow> Command result" where
  "cmd_mutating parts = sbind (cmd_join parts) (\<lambda>p. Inr \<lparr>payload = p, read_only = False\<rparr>)"

fun check_values :: "int list \<Rightarrow> unit result" where
  "check_values [] = Inr ()"
| "check_values (value # values) =
     (if value < 0 \<or> value > MAX_VALUE then Inl (Exc ValueOutOfRangeError) else check_values values)"

text \<open>A keyword of the protocol as a part.\<close>

definition kw :: "string \<Rightarrow> part" where
  "kw s = PStr (ustr s)"

text \<open>The optional trailing \<open>ttl\<close> argument of the quota commands.\<close>

fun ttl_part :: "int option \<Rightarrow> part list" where
  "ttl_part None = []"
| "ttl_part (Some ttl) = [PInt ttl]"

section \<open>The encoders\<close>

definition hello :: "pystr option \<Rightarrow> Command result" where
  "hello token = (case token of
      Some t \<Rightarrow> if t \<noteq> [] then cmd_read_only [kw ''HELLO'', PInt PROTOCOL_VERSION, kw ''AUTH'', PStr t]
                else cmd_read_only [kw ''HELLO'', PInt PROTOCOL_VERSION]
    | None \<Rightarrow> cmd_read_only [kw ''HELLO'', PInt PROTOCOL_VERSION])"

definition incr :: "CappingKey \<Rightarrow> Command result" where
  "incr k = cmd_mutating [kw ''INCR'', PStr (ck_key k), PInt (ck_capping k)]"

definition incrby :: "CappingKey \<Rightarrow> int \<Rightarrow> Command result" where
  "incrby k v = sbind (check_values [v]) (\<lambda>_.
     cmd_mutating [kw ''INCRBY'', PStr (ck_key k), PInt (ck_capping k), PInt v])"

definition get :: "CappingKey \<Rightarrow> Command result" where
  "get k = cmd_read_only [kw ''GET'', PStr (ck_key k), PInt (ck_capping k)]"

definition watch :: "CappingKey \<Rightarrow> Command result" where
  "watch k = cmd_read_only [kw ''WATCH'', PStr (ck_key k), PInt (ck_capping k)]"

definition delete :: "CappingKey \<Rightarrow> Command result" where
  "delete k = cmd_mutating [kw ''DEL'', PStr (ck_key k), PInt (ck_capping k)]"

definition mdelete :: "CappingKey list \<Rightarrow> Command result" where
  "mdelete ks = cmd_mutating (kw ''MDEL'' # concat (map (\<lambda>k. [PStr (ck_key k), PInt (ck_capping k)]) ks))"

definition rlimit_fixed_window :: "LimitKey \<Rightarrow> int \<Rightarrow> Command result" where
  "rlimit_fixed_window k limit = sbind (check_values [limit]) (\<lambda>_.
     cmd_mutating [kw ''RLIMIT'', kw ''FW'', PStr (lk_key k), PInt limit, PInt (lk_window k)])"

definition rlimit_sliding_window :: "LimitKey \<Rightarrow> int \<Rightarrow> Command result" where
  "rlimit_sliding_window k limit = sbind (check_values [limit]) (\<lambda>_.
     cmd_mutating [kw ''RLIMIT'', kw ''SW'', PStr (lk_key k), PInt limit, PInt (lk_window k)])"

definition rlimit_token_bucket :: "LimitKey \<Rightarrow> int \<Rightarrow> int \<Rightarrow> Command result" where
  "rlimit_token_bucket k capacity refill_amount = sbind (check_values [capacity, refill_amount]) (\<lambda>_.
     cmd_mutating [kw ''RLIMIT'', kw ''TB'', PStr (lk_key k), PInt capacity, PInt refill_amount,
       PInt (lk_window k)])"

definition quota_set :: "pystr \<Rightarrow> int \<Rightarrow> Command result" where
  "quota_set name limit = sbind (check_values [limit]) (\<lambda>_.
     cmd_mutating [kw ''QUOTA'', kw ''SET'', PStr name, PInt limit])"

definition quota_set_n :: "pystr \<Rightarrow> int \<Rightarrow> int \<Rightarrow> Command result" where
  "quota_set_n name limit clients = sbind (check_values [limit]) (\<lambda>_.
     cmd_mutating [kw ''QUOTA'', kw ''SETN'', PStr name, PInt limit, PInt clients])"

definition quota_acquire :: "pystr \<Rightarrow> int \<Rightarrow> pystr \<Rightarrow> int option \<Rightarrow> Command result" where
  "quota_acquire name amount client_id ttl = sbind (check_values [amount]) (\<lambda>_.
     cmd_mutating ([kw ''QUOTA'', kw ''ACQ'', PStr name, PInt amount, PStr client_id] @ ttl_part ttl))"

definition quota_acquire_n :: "pystr \<Rightarrow> pystr \<Rightarrow> int option \<Rightarrow> Command result" where
  "quota_acquire_n name client_id ttl =
     cmd_mutating ([kw ''QUOTA'', kw ''ACQN'', PStr name, PStr client_id] @ ttl_part ttl)"

definition quota_acquire_lease ::
  "pystr \<Rightarrow> int \<Rightarrow> int \<Rightarrow> pystr \<Rightarrow> int option \<Rightarrow> Command result" where
  "quota_acquire_lease name limit amount client_id ttl = sbind (check_values [limit, amount]) (\<lambda>_.
     cmd_mutating ([kw ''QUOTA'', kw ''ACQL'', PStr name, PInt limit, PInt amount, PStr client_id]
       @ ttl_part ttl))"

definition quota_release :: "pystr \<Rightarrow> pystr \<Rightarrow> Command result" where
  "quota_release name client_id = cmd_mutating [kw ''QUOTA'', kw ''REL'', PStr name, PStr client_id]"

definition quota_delete :: "pystr \<Rightarrow> Command result" where
  "quota_delete name = cmd_mutating [kw ''QUOTA'', kw ''DEL'', PStr name]"

definition quota_info :: "pystr \<Rightarrow> Command result" where
  "quota_info name = cmd_read_only [kw ''QUOTA'', kw ''INF'', PStr name]"

text \<open>\<open>cursor or SCAN_CURSOR_INITIAL\<close>: an empty cursor means the initial one.\<close>

definition cursor_or_initial :: "pystr \<Rightarrow> pystr" where
  "cursor_or_initial cursor = (if cursor = [] then SCAN_CURSOR_INITIAL else cursor)"

definition scan :: "int \<Rightarrow> pystr \<Rightarrow> Command result" where
  "scan count cursor = cmd_read_only [kw ''SCAN'', PStr (cursor_or_initial cursor), PInt count]"

definition pscan :: "pystr \<Rightarrow> int \<Rightarrow> pystr \<Rightarrow> Command result" where
  "pscan prefix count cursor =
     cmd_read_only [kw ''PSCAN'', PStr prefix, PStr (cursor_or_initial cursor), PInt count]"

definition flushdb :: "Command result" where
  "flushdb = cmd_mutating [kw ''FLUSHDB'']"

definition truncate_cmd :: "Command result" where
  "truncate_cmd = cmd_mutating [kw ''TRUNCATE'']"

definition inspect :: "InspectSection \<Rightarrow> Command result" where
  "inspect section =
     (if section = SUMMARY then cmd_read_only [kw ''INSPECT'']
      else cmd_read_only [kw ''INSPECT'', PStr (section_value section)])"

definition stream :: "Command result" where
  "stream = cmd_read_only [kw ''STREAM'']"

definition pstream :: "pystr \<Rightarrow> Command result" where
  "pstream prefix = cmd_read_only [kw ''PSTREAM'', PStr prefix]"

definition qstream :: "Command result" where
  "qstream = cmd_read_only [kw ''QSTREAM'']"

definition qpstream :: "pystr \<Rightarrow> Command result" where
  "qpstream prefix = cmd_read_only [kw ''QPSTREAM'', PStr prefix]"

section \<open>Requests\<close>

text \<open>
  Every call of the API as a value, so that a property of all encoders is one statement.
  \<open>request_values\<close> are the arguments the protocol bounds, \<open>request_parts\<close> the words of the command
  in the order of the protocol, \<open>request_read_only\<close> the commands that change nothing on the server.
\<close>

datatype request =
    Hello "pystr option" | Incr CappingKey | Incrby CappingKey int | Get CappingKey
  | Watch CappingKey | Delete CappingKey | Mdelete "CappingKey list"
  | RlimitFW LimitKey int | RlimitSW LimitKey int | RlimitTB LimitKey int int
  | QuotaSet pystr int | QuotaSetN pystr int int | QuotaAcquire pystr int pystr "int option"
  | QuotaAcquireN pystr pystr "int option" | QuotaAcquireLease pystr int int pystr "int option"
  | QuotaRelease pystr pystr | QuotaDelete pystr | QuotaInfoReq pystr
  | Scan int pystr | Pscan pystr int pystr | Flushdb | Truncate | Inspect InspectSection
  | Stream | Pstream pystr | Qstream | Qpstream pystr

fun encode_request :: "request \<Rightarrow> Command result" where
  "encode_request (Hello token) = hello token"
| "encode_request (Incr k) = incr k"
| "encode_request (Incrby k v) = incrby k v"
| "encode_request (Get k) = get k"
| "encode_request (Watch k) = watch k"
| "encode_request (Delete k) = delete k"
| "encode_request (Mdelete ks) = mdelete ks"
| "encode_request (RlimitFW k n) = rlimit_fixed_window k n"
| "encode_request (RlimitSW k n) = rlimit_sliding_window k n"
| "encode_request (RlimitTB k c r) = rlimit_token_bucket k c r"
| "encode_request (QuotaSet n l) = quota_set n l"
| "encode_request (QuotaSetN n l c) = quota_set_n n l c"
| "encode_request (QuotaAcquire n a c t) = quota_acquire n a c t"
| "encode_request (QuotaAcquireN n c t) = quota_acquire_n n c t"
| "encode_request (QuotaAcquireLease n l a c t) = quota_acquire_lease n l a c t"
| "encode_request (QuotaRelease n c) = quota_release n c"
| "encode_request (QuotaDelete n) = quota_delete n"
| "encode_request (QuotaInfoReq n) = quota_info n"
| "encode_request (Scan n c) = scan n c"
| "encode_request (Pscan p n c) = pscan p n c"
| "encode_request Flushdb = flushdb"
| "encode_request Truncate = truncate_cmd"
| "encode_request (Inspect s) = inspect s"
| "encode_request Stream = stream"
| "encode_request (Pstream p) = pstream p"
| "encode_request Qstream = qstream"
| "encode_request (Qpstream p) = qpstream p"

fun request_values :: "request \<Rightarrow> int list" where
  "request_values (Incrby k v) = [v]"
| "request_values (RlimitFW k n) = [n]"
| "request_values (RlimitSW k n) = [n]"
| "request_values (RlimitTB k c r) = [c, r]"
| "request_values (QuotaSet n l) = [l]"
| "request_values (QuotaSetN n l c) = [l]"
| "request_values (QuotaAcquire n a c t) = [a]"
| "request_values (QuotaAcquireLease n l a c t) = [l, a]"
| "request_values _ = []"

fun request_read_only :: "request \<Rightarrow> bool" where
  "request_read_only (Hello token) = True"
| "request_read_only (Get k) = True"
| "request_read_only (Watch k) = True"
| "request_read_only (QuotaInfoReq n) = True"
| "request_read_only (Scan n c) = True"
| "request_read_only (Pscan p n c) = True"
| "request_read_only (Inspect s) = True"
| "request_read_only Stream = True"
| "request_read_only (Pstream p) = True"
| "request_read_only Qstream = True"
| "request_read_only (Qpstream p) = True"
| "request_read_only _ = False"

fun request_parts :: "request \<Rightarrow> part list" where
  "request_parts (Hello token) = [kw ''HELLO'', PInt 1]
     @ (case token of Some t \<Rightarrow> if t = [] then [] else [kw ''AUTH'', PStr t] | None \<Rightarrow> [])"
| "request_parts (Incr k) = [kw ''INCR'', PStr (ck_key k), PInt (ck_capping k)]"
| "request_parts (Incrby k v) = [kw ''INCRBY'', PStr (ck_key k), PInt (ck_capping k), PInt v]"
| "request_parts (Get k) = [kw ''GET'', PStr (ck_key k), PInt (ck_capping k)]"
| "request_parts (Watch k) = [kw ''WATCH'', PStr (ck_key k), PInt (ck_capping k)]"
| "request_parts (Delete k) = [kw ''DEL'', PStr (ck_key k), PInt (ck_capping k)]"
| "request_parts (Mdelete ks) =
     kw ''MDEL'' # concat (map (\<lambda>k. [PStr (ck_key k), PInt (ck_capping k)]) ks)"
| "request_parts (RlimitFW k n) = [kw ''RLIMIT'', kw ''FW'', PStr (lk_key k), PInt n, PInt (lk_window k)]"
| "request_parts (RlimitSW k n) = [kw ''RLIMIT'', kw ''SW'', PStr (lk_key k), PInt n, PInt (lk_window k)]"
| "request_parts (RlimitTB k c r) =
     [kw ''RLIMIT'', kw ''TB'', PStr (lk_key k), PInt c, PInt r, PInt (lk_window k)]"
| "request_parts (QuotaSet n l) = [kw ''QUOTA'', kw ''SET'', PStr n, PInt l]"
| "request_parts (QuotaSetN n l c) = [kw ''QUOTA'', kw ''SETN'', PStr n, PInt l, PInt c]"
| "request_parts (QuotaAcquire n a c t) =
     [kw ''QUOTA'', kw ''ACQ'', PStr n, PInt a, PStr c] @ ttl_part t"
| "request_parts (QuotaAcquireN n c t) = [kw ''QUOTA'', kw ''ACQN'', PStr n, PStr c] @ ttl_part t"
| "request_parts (QuotaAcquireLease n l a c t) =
     [kw ''QUOTA'', kw ''ACQL'', PStr n, PInt l, PInt a, PStr c] @ ttl_part t"
| "request_parts (QuotaRelease n c) = [kw ''QUOTA'', kw ''REL'', PStr n, PStr c]"
| "request_parts (QuotaDelete n) = [kw ''QUOTA'', kw ''DEL'', PStr n]"
| "request_parts (QuotaInfoReq n) = [kw ''QUOTA'', kw ''INF'', PStr n]"
| "request_parts (Scan n c) = [kw ''SCAN'', PStr (if c = [] then ustr ''0'' else c), PInt n]"
| "request_parts (Pscan p n c) =
     [kw ''PSCAN'', PStr p, PStr (if c = [] then ustr ''0'' else c), PInt n]"
| "request_parts Flushdb = [kw ''FLUSHDB'']"
| "request_parts Truncate = [kw ''TRUNCATE'']"
| "request_parts (Inspect s) =
     kw ''INSPECT'' # (if s = SUMMARY then [] else [PStr (section_value s)])"
| "request_parts Stream = [kw ''STREAM'']"
| "request_parts (Pstream p) = [kw ''PSTREAM'', PStr p]"
| "request_parts Qstream = [kw ''QSTREAM'']"
| "request_parts (Qpstream p) = [kw ''QPSTREAM'', PStr p]"

lemmas command_defs = hello_def incr_def incrby_def get_def watch_def delete_def mdelete_def
  rlimit_fixed_window_def rlimit_sliding_window_def rlimit_token_bucket_def quota_set_def
  quota_set_n_def quota_acquire_def quota_acquire_n_def quota_acquire_lease_def quota_release_def
  quota_delete_def quota_info_def scan_def pscan_def flushdb_def truncate_cmd_def inspect_def
  stream_def pstream_def qstream_def qpstream_def

lemma check_values_iff:
  "check_values vs = (if \<forall>v \<in> set vs. 0 \<le> v \<and> v \<le> MAX_VALUE then Inr ()
                      else Inl (Exc ValueOutOfRangeError))"
  by (induction vs) auto

text \<open>All encoders at once: the range check, then the joined words, then the flag.\<close>

lemma encode_request_eq:
  "encode_request r =
     sbind (check_values (request_values r)) (\<lambda>_.
       sbind (cmd_join (request_parts r)) (\<lambda>p.
         Inr \<lparr>payload = p, read_only = request_read_only r\<rparr>))"
  by (cases r)
     (simp_all add: command_defs cmd_read_only_def cmd_mutating_def PROTOCOL_VERSION_def
       cursor_or_initial_def SCAN_CURSOR_INITIAL_def sbind_def split: option.split sum.split)

lemma values_out_of_range:
  "(\<exists>v \<in> set vs. v < 0 \<or> 2 ^ 63 \<le> v) \<longleftrightarrow> \<not> (\<forall>v \<in> set vs. 0 \<le> v \<and> v \<le> MAX_VALUE)"
proof -
  have "\<not> (0 \<le> v \<and> v \<le> MAX_VALUE) \<longleftrightarrow> v < 0 \<or> 2 ^ 63 \<le> v" for v
    by (auto simp: MAX_VALUE_def)
  then show ?thesis by blast
qed

lemma request_parts_nonempty [simp]: "request_parts r \<noteq> []"
  by (cases r) auto

text \<open>The first byte of a payload is the first letter of its keyword: only a HELLO starts with H.\<close>

lemma cmd_join_head:
  assumes "cmd_join (kw (c # cs) # ps) = Inr p" and "(of_char c :: nat) < 0x80"
  shows "\<exists>rest. p = c # rest"
proof -
  obtain ts where "join_with [SPACE] (map part_str (kw (c # cs) # ps)) = of_char c # ts"
    by (cases ps) (simp_all add: kw_def ustr_def)
  then have "encode_utf8 (of_char c # ts) = Inr p" using assms(1) by (simp add: cmd_join_def)
  then show ?thesis
    using assms(2) by (auto simp: encode_utf8_def sbind_eq_Inr utf8_char_def)
qed

definition client_command :: "Command \<Rightarrow> bool" where
  "client_command c \<longleftrightarrow> payload c \<noteq> [] \<and> hd (payload c) \<noteq> CHR ''H''"

lemma hello_head: "hello token = Inr c \<Longrightarrow> \<exists>rest. payload c = CHR ''H'' # rest"
  by (auto simp: hello_def cmd_read_only_def sbind_eq_Inr dest!: cmd_join_head
      split: option.splits if_splits)

lemma encode_request_client:
  assumes "encode_request r = Inr c" and "\<And>token. r \<noteq> Hello token"
  shows "client_command c"
proof -
  have "cmd_join (request_parts r) = Inr (payload c)"
    using assms(1) by (auto simp: encode_request_eq sbind_eq_Inr)
  then show ?thesis
    using assms(2) by (cases r) (auto simp: client_command_def dest!: cmd_join_head)
qed

text \<open>
  C35. The range check: a request whose values are all within 0 .. 2 ** 63 - 1 is never refused for
  its values, and any other request raises ValueOutOfRangeError (which is also a ValueError) instead
  of producing a command, so nothing can be sent for it.
\<close>

theorem values_checked_before_encoding:
  "(encode_request r = Inl (Exc ValueOutOfRangeError)
      \<longleftrightarrow> (\<exists>v \<in> set (request_values r). v < 0 \<or> 2 ^ 63 \<le> v)) \<and>
   catches PyValueError (Exc ValueOutOfRangeError) \<and> catches FQError (Exc ValueOutOfRangeError)"
proof -
  have "cmd_join ps \<noteq> Inl (Exc ValueOutOfRangeError)" for ps
    by (auto simp: cmd_join_def encode_utf8_def sbind_eq_Inl utf8_char_def
        dest!: smap_Inl split: if_splits)
  then show ?thesis
    unfolding values_out_of_range
    by (simp add: encode_request_eq sbind_eq_Inl check_values_iff catches_def issubclass_eval)
qed

text \<open>
  C34. Wire format of requests: when no word contains a space, decoding the payload as UTF-8 and
  splitting it at spaces gives back exactly the words of the command, in the protocol's order and
  with every number in decimal. The server therefore reads the arguments the caller passed.
\<close>

theorem command_words_roundtrip:
  assumes "encode_request r = Inr c"
    and "\<forall>w \<in> set (request_parts r). is_pystr (part_str w) \<and> SPACE \<notin> set (part_str w)"
  shows "split_on SPACE (decode_replace (payload c)) = map part_str (request_parts r) \<and>
         read_only c = request_read_only r"
proof -
  let ?s = "join_with [SPACE] (map part_str (request_parts r))"
  have enc: "encode_utf8 ?s = Inr (payload c)" and ro: "read_only c = request_read_only r"
    using assms(1) by (auto simp: encode_request_eq sbind_eq_Inr cmd_join_def)
  have "is_pystr ?s"
    using assms(2) set_join_with [of "[SPACE]" "map part_str (request_parts r)"]
    by (fastforce simp: is_pystr_def SPACE_def)
  then have "decode_replace (payload c) = ?s" by (rule decode_encode_str [OF enc])
  moreover have "split_on SPACE ?s = map part_str (request_parts r)"
    using assms(2) by (intro split_join) auto
  ultimately show ?thesis using ro by simp
qed

theorem command_words_roundtrip_witness:
  "split_on SPACE (decode_replace ''INCR k 1'') = [ustr ''INCR'', ustr ''k'', ustr ''1'']"
proof -
  let ?r = "Incr \<lparr>ck_key = ustr ''k'', ck_capping = 1\<rparr>"
  have one: "str_int 1 = ustr ''1''" by (simp add: str_int_def dec_digits.simps ustr_def)
  have "encode_request ?r = Inr \<lparr>payload = ''INCR k 1'', read_only = False\<rparr>"
    by (simp add: incr_def cmd_mutating_def cmd_join_def kw_def SPACE_def ustr_def encode_utf8_def
        utf8_char_def byte_of_def char_of_def bit_Suc_0_iff str_int_def dec_digits.simps)
  from command_words_roundtrip [OF this] show ?thesis
    by (simp add: kw_def one) (simp add: is_pystr_def SPACE_def ustr_def)
qed

end
