(* ===== verification/Responses.thy ===== *)
theory Responses
  imports Types
begin

text \<open>
  \<open>fq/_responses.py\<close>: decoders that take a whole frame payload and return the parsed value, or raise.
  An \<open>err|\<close> answer becomes the exception of its code, everything outside the format becomes
  CorruptedResponseError. The formats are written down a second time, as the docstrings give them
  (\<open>render_\<close> functions), and the decoders are proved to invert them.
\<close>

section \<open>Delimiters and tags\<close>

definition RESP_DELIMITER :: char where
  "RESP_DELIMITER = CHR ''|''"

definition FIELD_DELIMITER :: char where
  "FIELD_DELIMITER = CHR '';''"

definition TAG_OK :: bytes where
  "TAG_OK = ''ok''"

definition TAG_ERR :: bytes where
  "TAG_ERR = ''err''"

definition TAG_NXT :: bytes where
  "TAG_NXT = ''nxt''"

section \<open>Basic decoders\<close>

definition split_response :: "bytes \<Rightarrow> (bytes \<times> bytes) result" where
  "split_response payload = (case partition_at RESP_DELIMITER payload of (tag, delimiter, data) \<Rightarrow>
     if \<not> delimiter then Inl (Exc CorruptedResponseError) else Inr (tag, data))"

definition parse_uint :: "bytes \<Rightarrow> int result" where
  "parse_uint field =
     (if field = [] \<or> \<not> bytes_isdigit field \<or> \<not> bytes_isascii field
      then Inl (Exc CorruptedResponseError)
      else int_of_bytes field)"

text \<open>The exception an \<open>err|\<close> body stands for is the value returned; \<open>Inl\<close> is what parsing it raises.\<close>

definition parse_error :: "bytes \<Rightarrow> exc result" where
  "parse_error data = (case partition_at RESP_DELIMITER data of (code_field, delimiter, message) \<Rightarrow>
     if \<not> delimiter then Inl (Exc CorruptedResponseError)
     else sbind (parse_uint code_field) (\<lambda>code.
       if code > 9999 then Inl (Exc CorruptedResponseError)
       else Inr (protocol_error code (decode_replace message))))"

text \<open>\<open>raise parse_error(data)\<close>: either way an exception.\<close>

definition raise_error :: "bytes \<Rightarrow> exc" where
  "raise_error data = (case parse_error data of Inl e \<Rightarrow> e | Inr e \<Rightarrow> e)"

definition ok_data :: "bytes \<Rightarrow> bytes result" where
  "ok_data payload = sbind (split_response payload) (\<lambda>(tag, data).
     if tag = TAG_OK then Inr data
     else if tag = TAG_ERR then Inl (raise_error data)
     else Inl (Exc CorruptedResponseError))"

definition parse_bool_field :: "bytes \<Rightarrow> bool result" where
  "parse_bool_field field =
     (if field = ''1'' then Inr True
      else if field = ''0'' then Inr False
      else Inl (Exc CorruptedResponseError))"

definition resp_fields :: "bytes \<Rightarrow> nat \<Rightarrow> bytes list result" where
  "resp_fields data expected = (let parts = split_on FIELD_DELIMITER data in
     if length parts \<noteq> expected then Inl (Exc CorruptedResponseError) else Inr parts)"

section \<open>Scalar answers\<close>

definition parse_value :: "bytes \<Rightarrow> int result" where
  "parse_value payload = sbind (ok_data payload) parse_uint"

definition parse_bool :: "bytes \<Rightarrow> bool result" where
  "parse_bool payload = sbind (ok_data payload) parse_bool_field"

definition parse_values :: "bytes \<Rightarrow> int list result" where
  "parse_values payload =
     sbind (ok_data payload) (\<lambda>data. smap parse_uint (split_on FIELD_DELIMITER data))"

definition parse_bools :: "bytes \<Rightarrow> bool list result" where
  "parse_bools payload = sbind (parse_values payload) (\<lambda>vs. Inr (map (\<lambda>v. v = 1) vs))"

section \<open>Structured answers\<close>

record HelloInfo =
  hi_version :: int
  hi_max_message_size :: int
  hi_auth_required :: bool
  hi_role :: pystr

text \<open>
  \<open>a, b, c, d = fields(data, 4)\<close>: after the length check the parts are addressed by position.
  Keyword arguments are evaluated in the order they are written.
\<close>

definition parse_hello :: "bytes \<Rightarrow> HelloInfo result" where
  "parse_hello payload = sbind (ok_data payload) (\<lambda>data. sbind (resp_fields data 4) (\<lambda>fs.
     sbind (parse_uint (fs ! 1)) (\<lambda>size.
       if size = 0 then Inl (Exc CorruptedResponseError)
       else sbind (parse_uint (fs ! 0)) (\<lambda>version.
         sbind (parse_bool_field (fs ! 2)) (\<lambda>auth_required.
           Inr \<lparr>hi_version = version, hi_max_message_size = size,
                hi_auth_required = auth_required, hi_role = decode_replace (fs ! 3)\<rparr>)))))"

definition field_text :: "bytes \<Rightarrow> pystr" where
  "field_text field = decode_replace field"

definition parse_rate_limit :: "bytes \<Rightarrow> RateLimitResult result" where
  "parse_rate_limit payload = sbind (ok_data payload) (\<lambda>data. sbind (resp_fields data 4) (\<lambda>fs.
     sbind (parse_bool_field (fs ! 0)) (\<lambda>allowed.
     sbind (parse_uint (fs ! 1)) (\<lambda>current.
     sbind (parse_uint (fs ! 2)) (\<lambda>remaining.
     sbind (parse_uint (fs ! 3)) (\<lambda>reset_after.
       Inr \<lparr>rl_allowed = allowed, rl_current = current, rl_remaining = remaining,
            rl_reset_after = reset_after\<rparr>))))))"

definition parse_quota_acquire :: "bytes \<Rightarrow> QuotaAcquireResult result" where
  "parse_quota_acquire payload = sbind (ok_data payload) (\<lambda>data. sbind (resp_fields data 5) (\<lambda>fs.
     sbind (parse_bool_field (fs ! 0)) (\<lambda>acquired.
     sbind (parse_uint (fs ! 1)) (\<lambda>allocated.
     sbind (parse_uint (fs ! 2)) (\<lambda>used.
     sbind (parse_uint (fs ! 3)) (\<lambda>remaining.
     sbind (parse_uint (fs ! 4)) (\<lambda>expires_after.
       Inr \<lparr>qa_acquired = acquired, qa_allocated = allocated, qa_used = used,
            qa_remaining = remaining, qa_expires_after = expires_after\<rparr>)))))))"

text \<open>The generator over \<open>range(3, len(parts), 3)\<close>: consecutive triples.\<close>

fun quota_clients :: "bytes list \<Rightarrow> QuotaClientInfo list result" where
  "quota_clients (c # a # e # rest) =
     sbind (parse_uint a) (\<lambda>amount. sbind (parse_uint e) (\<lambda>expires_at.
       sbind (quota_clients rest) (\<lambda>cs.
         Inr (\<lparr>qc_client_id = field_text c, qc_amount = amount, qc_expires_at = expires_at\<rparr> # cs))))"
| "quota_clients _ = Inr []"

definition parse_quota_info :: "bytes \<Rightarrow> QuotaInfo result" where
  "parse_quota_info payload = sbind (ok_data payload) (\<lambda>data.
     let parts = split_on FIELD_DELIMITER data in
     if length parts < 3 \<or> (length parts - 3) mod 3 \<noteq> 0 then Inl (Exc CorruptedResponseError)
     else sbind (quota_clients (drop 3 parts)) (\<lambda>clients.
       sbind (parse_uint (parts ! 0)) (\<lambda>limit.
       sbind (parse_uint (parts ! 1)) (\<lambda>used.
       sbind (parse_uint (parts ! 2)) (\<lambda>remaining.
         Inr \<lparr>qi_limit = limit, qi_used = used, qi_remaining = remaining, qi_clients = clients\<rparr>)))))"

text \<open>The generator over \<open>range(1, len(parts), 2)\<close>: consecutive pairs.\<close>

fun scan_pairs :: "bytes list \<Rightarrow> ScanKey list result" where
  "scan_pairs (k # w # rest) =
     sbind (parse_uint w) (\<lambda>window. sbind (scan_pairs rest) (\<lambda>ks.
       Inr (\<lparr>sk_key = field_text k, sk_window = window\<rparr> # ks)))"
| "scan_pairs _ = Inr []"

definition parse_scan :: "bytes \<Rightarrow> ScanResult result" where
  "parse_scan payload = sbind (ok_data payload) (\<lambda>data.
     let parts = split_on FIELD_DELIMITER data in
     if (length parts - 1) mod 2 \<noteq> 0 then Inl (Exc CorruptedResponseError)
     else sbind (scan_pairs (drop 1 parts)) (\<lambda>ks.
       Inr \<lparr>sr_cursor = field_text (parts ! 0), sr_keys = ks\<rparr>))"

definition parse_limit_event :: "bytes \<Rightarrow> LimitEvent result" where
  "parse_limit_event payload = sbind (ok_data payload) (\<lambda>data. sbind (resp_fields data 4) (\<lambda>fs.
     sbind (parse_uint (fs ! 1)) (\<lambda>window.
     sbind (parse_uint (fs ! 2)) (\<lambda>current.
     sbind (parse_uint (fs ! 3)) (\<lambda>reset_after.
       Inr \<lparr>le_key = field_text (fs ! 0), le_window = window, le_current = current,
            le_reset_after = reset_after\<rparr>)))))"

definition parse_quota_event :: "bytes \<Rightarrow> QuotaEvent result" where
  "parse_quota_event payload = sbind (ok_data payload) (\<lambda>data. sbind (resp_fields data 7) (\<lambda>fs.
     sbind (parse_uint (fs ! 3)) (\<lambda>amount.
     sbind (parse_uint (fs ! 4)) (\<lambda>used.
     sbind (parse_uint (fs ! 5)) (\<lambda>remaining.
     sbind (parse_uint (fs ! 6)) (\<lambda>expires_at.
       Inr \<lparr>qe_event = field_text (fs ! 0), qe_name = field_text (fs ! 1),
            qe_client_id = field_text (fs ! 2), qe_amount = amount, qe_used = used,
            qe_remaining = remaining, qe_expires_at = expires_at\<rparr>))))))"

section \<open>What the decoders may raise\<close>

text \<open>
  \<open>raises P r\<close>: if \<open>r\<close> is an exception, it satisfies \<open>P\<close>. The rules follow the shape of the
  decoders; \<open>decode_error\<close> is what the module's docstring promises.
\<close>

definition raises :: "('e \<Rightarrow> bool) \<Rightarrow> 'e + 'a \<Rightarrow> bool" where
  "raises P r \<longleftrightarrow> (\<forall>e. r = Inl e \<longrightarrow> P e)"

definition decode_error :: "exc \<Rightarrow> bool" where
  "decode_error e \<longleftrightarrow> e = Exc CorruptedResponseError \<or>
     (\<exists>code msg. e = protocol_error code msg \<and> 0 \<le> code \<and> code \<le> 9999)"

lemma raises_Inr [simp]: "raises P (Inr x)"
  and raises_Inl [simp]: "raises P (Inl e) = P e"
  by (simp_all add: raises_def)

lemma raises_sbind: "raises P r \<Longrightarrow> (\<And>x. r = Inr x \<Longrightarrow> raises P (f x)) \<Longrightarrow> raises P (sbind r f)"
  by (cases r) (simp_all add: raises_def)

lemma raises_if: "(b \<Longrightarrow> raises P r) \<Longrightarrow> (\<not> b \<Longrightarrow> raises P r') \<Longrightarrow> raises P (if b then r else r')"
  by simp

lemma raises_smap: "(\<And>x. x \<in> set xs \<Longrightarrow> raises P (f x)) \<Longrightarrow> raises P (smap f xs)"
  by (induction xs) (auto intro!: raises_sbind)

lemma decode_error_corrupted [simp]: "decode_error (Exc CorruptedResponseError)"
  by (simp add: decode_error_def)

lemma decode_error_FQError: "decode_error e \<Longrightarrow> catches FQError e"
proof -
  have "issubclass ProtocolError FQError" by (simp add: issubclass_eval)
  then have "catches FQError (protocol_error code msg)" for code msg
    using issubclass_trans [OF protocol_error_is_protocol] by (simp add: catches_def)
  moreover have "catches FQError (Exc CorruptedResponseError)"
    by (simp add: catches_def issubclass_eval)
  ultimately show "decode_error e \<Longrightarrow> catches FQError e"
    by (auto simp: decode_error_def)
qed

text \<open>A number of at most 4300 bytes never makes \<open>int\<close> fail.\<close>

lemma raises_parse_uint: "length f \<le> INT_MAX_STR_DIGITS \<Longrightarrow> raises decode_error (parse_uint f)"
  by (simp add: parse_uint_def int_of_bytes_def int_of_digits_def)

lemma parse_uint_nonneg: "parse_uint f = Inr n \<Longrightarrow> 0 \<le> n"
  by (auto simp: parse_uint_def int_of_bytes_def int_of_digits_def split: if_splits)

lemma length_partition_at: "partition_at d xs = (a, found, b) \<Longrightarrow> length a \<le> length xs \<and> length b \<le> length xs"
  using partition_at_sound [of d xs] by (cases found) auto

lemma length_split_part: "p \<in> set (split_on d xs) \<Longrightarrow> length p \<le> length xs"
proof (induction xs arbitrary: p)
  case (Cons x xs)
  have "length q \<le> length xs" if "q \<in> set (split_on d xs)" for q using Cons.IH that .
  then show ?case
    using Cons.prems by (cases "split_on d xs") (fastforce split: if_splits)+
qed simp

lemma raises_parse_error:
  "length data \<le> INT_MAX_STR_DIGITS \<Longrightarrow> decode_error (raise_error data)"
proof -
  assume len: "length data \<le> INT_MAX_STR_DIGITS"
  obtain a found b where p: "partition_at RESP_DELIMITER data = (a, found, b)"
    by (metis prod_cases3)
  have "length a \<le> INT_MAX_STR_DIGITS" using length_partition_at [OF p] len by simp
  then show ?thesis
    using raises_parse_uint [of a] parse_uint_nonneg [of a]
    by (cases "parse_uint a") (auto simp: raise_error_def parse_error_def p decode_error_def)
qed

lemma raises_ok_data:
  assumes "length p \<le> INT_MAX_STR_DIGITS"
  shows "raises decode_error (ok_data p)"
proof -
  have "length d \<le> INT_MAX_STR_DIGITS" if "split_response p = Inr (t, d)" for t d
    using that assms length_partition_at [of RESP_DELIMITER p]
    by (fastforce simp: split_response_def split: prod.splits if_splits)
  then show ?thesis
    unfolding ok_data_def
    by (intro raises_sbind)
       (auto simp: split_response_def raises_parse_error split: prod.splits)
qed

lemma ok_data_length: "ok_data p = Inr d \<Longrightarrow> length d \<le> length p"
  using length_partition_at [of RESP_DELIMITER p]
  by (fastforce simp: ok_data_def split_response_def sbind_eq_Inr split: prod.splits if_splits)

lemma raises_bool_field [simp]: "raises decode_error (parse_bool_field f)"
  by (simp add: parse_bool_field_def)

lemma resp_fields_raises [simp]: "raises decode_error (resp_fields d n)"
  by (simp add: resp_fields_def Let_def)

lemma resp_fields_nth:
  "resp_fields d n = Inr fs \<Longrightarrow> i < n \<Longrightarrow> length (fs ! i) \<le> length d"
  by (auto simp: resp_fields_def Let_def split: if_splits intro: length_split_part [OF nth_mem])

lemma raises_quota_clients:
  "\<forall>f \<in> set fs. length f \<le> INT_MAX_STR_DIGITS \<Longrightarrow> raises decode_error (quota_clients fs)"
  by (induction fs rule: quota_clients.induct) (auto intro!: raises_sbind raises_parse_uint)

lemma raises_scan_pairs:
  "\<forall>f \<in> set fs. length f \<le> INT_MAX_STR_DIGITS \<Longrightarrow> raises decode_error (scan_pairs fs)"
  by (induction fs rule: scan_pairs.induct) (auto intro!: raises_sbind raises_parse_uint)

lemmas decoder_defs = parse_value_def parse_bool_def parse_values_def parse_bools_def
  parse_hello_def parse_rate_limit_def parse_quota_acquire_def parse_quota_info_def parse_scan_def
  parse_limit_event_def parse_quota_event_def

text \<open>One field of a split body, or one field after \<open>resp_fields\<close>, is short when the payload is.\<close>

lemma short_field:
  assumes "length p \<le> INT_MAX_STR_DIGITS" and "ok_data p = Inr d"
  shows "resp_fields d n = Inr fs \<Longrightarrow> i < n \<Longrightarrow> length (fs ! i) \<le> INT_MAX_STR_DIGITS"
    and "f \<in> set (split_on c d) \<Longrightarrow> length f \<le> INT_MAX_STR_DIGITS"
    and "i < length (split_on c d) \<Longrightarrow> length (split_on c d ! i) \<le> INT_MAX_STR_DIGITS"
    and "length d \<le> INT_MAX_STR_DIGITS"
  using assms resp_fields_nth [of d n fs i] ok_data_length [of p d] length_split_part [of f c d]
    length_split_part [OF nth_mem, of i c d]
  by auto

text \<open>
  C36. Robustness of the decoders: for every payload of at most 4300 bytes (the protocol's default
  frame limit is 4096), whatever bytes it holds, each decoder either returns a value or raises
  CorruptedResponseError or the exception of an \<open>err|\<close> answer with a code of 0 to 9999. No other
  exception, and in particular none outside FQError, can escape.
\<close>

theorem decoders_raise_only_decode_errors:
  assumes "length p \<le> INT_MAX_STR_DIGITS"
  shows "raises decode_error (parse_value p) \<and> raises decode_error (parse_bool p) \<and>
         raises decode_error (parse_values p) \<and> raises decode_error (parse_bools p) \<and>
         raises decode_error (parse_hello p) \<and> raises decode_error (parse_rate_limit p) \<and>
         raises decode_error (parse_quota_acquire p) \<and> raises decode_error (parse_quota_info p) \<and>
         raises decode_error (parse_scan p) \<and> raises decode_error (parse_limit_event p) \<and>
         raises decode_error (parse_quota_event p)"
  unfolding decoder_defs Let_def
  by (intro conjI raises_sbind raises_if raises_ok_data [OF assms] raises_smap resp_fields_raises
      raises_bool_field raises_parse_uint raises_quota_clients raises_scan_pairs ballI)
     (use short_field [OF assms] in \<open>auto dest: in_set_dropD\<close>)

theorem decoders_raise_only_decode_errors_witness:
  "raises decode_error (parse_hello ''ok|1;x'')"
  using decoders_raise_only_decode_errors [of "''ok|1;x''"] by (simp add: INT_MAX_STR_DIGITS_def)

text \<open>The hypothesis is needed: one digit more and \<open>int\<close> raises ValueError, which is no FQError.\<close>

lemma parse_uint_long:
  assumes "INT_MAX_STR_DIGITS < n" and "is_ascii_digit c"
  shows "parse_uint (replicate n c) = Inl (Exc PyValueError)"
proof -
  have "(of_char c :: nat) < 128" and "n \<noteq> 0" using assms by (auto simp: is_ascii_digit_def)
  then show ?thesis
    using assms by (simp add: parse_uint_def bytes_isdigit_def bytes_isascii_def list_all_iff
        int_of_bytes_def int_of_digits_def)
qed

section \<open>The formats of the docstrings\<close>

text \<open>\<open>ok|<field>;<field>;...\<close>, and the two kinds of fields that are not text.\<close>

definition ok_frame :: "bytes list \<Rightarrow> bytes" where
  "ok_frame fs = ''ok|'' @ join_with [FIELD_DELIMITER] fs"

definition bool_bytes :: "bool \<Rightarrow> bytes" where
  "bool_bytes b = (if b then ''1'' else ''0'')"

definition err_frame :: "nat \<Rightarrow> bytes \<Rightarrow> bytes" where
  "err_frame code message = ''err|'' @ digit_bytes code @ RESP_DELIMITER # message"

abbreviation sep_free :: "bytes \<Rightarrow> bool" where
  "sep_free f \<equiv> FIELD_DELIMITER \<notin> set f"

lemma ok_data_ok_frame [simp]: "ok_data (ok_frame fs) = Inr (join_with [FIELD_DELIMITER] fs)"
  by (simp add: ok_data_def ok_frame_def split_response_def TAG_OK_def RESP_DELIMITER_def)

lemma digit_bytes_range: "c \<in> set (digit_bytes n) \<Longrightarrow> 0x30 \<le> (of_char c :: nat) \<and> (of_char c :: nat) \<le> 0x39"
  by (auto simp: digit_bytes_def dest!: dec_digits_lt)

lemma digit_bytes_clean [simp]:
  "FIELD_DELIMITER \<notin> set (digit_bytes n)" "RESP_DELIMITER \<notin> set (digit_bytes n)"
  by (auto simp: FIELD_DELIMITER_def RESP_DELIMITER_def dest: digit_bytes_range)

lemma bool_bytes_clean [simp]: "sep_free (bool_bytes b)"
  by (simp add: bool_bytes_def FIELD_DELIMITER_def)

lemma byte_of_zero_one: "byte_of 48 = CHR ''0''" "byte_of 49 = CHR ''1''"
  by (simp_all add: byte_of_def char_of_eq_iff)

lemma parse_bool_bytes [simp]: "parse_bool_field (bool_bytes b) = Inr b"
  by (simp add: bool_bytes_def parse_bool_field_def)

lemma parse_uint_digits [simp]: "n < 10 ^ 20 \<Longrightarrow> parse_uint (digit_bytes n) = Inr (int n)"
  by (simp add: parse_uint_def digit_bytes_isdigit int_of_bytes_digit_bytes short_numeral)

lemma resp_fields_join:
  "fs \<noteq> [] \<Longrightarrow> list_all sep_free fs \<Longrightarrow> length fs = n \<Longrightarrow>
   resp_fields (join_with [FIELD_DELIMITER] fs) n = Inr fs"
  using split_join [of fs FIELD_DELIMITER] by (auto simp: resp_fields_def list_all_iff)

lemma raise_error_err:
  "code \<le> 9999 \<Longrightarrow> raise_error (digit_bytes code @ RESP_DELIMITER # m) =
     protocol_error (int code) (decode_replace m)"
  by (simp add: raise_error_def parse_error_def partition_at_append)

lemma ok_data_err_frame:
  "code \<le> 9999 \<Longrightarrow> ok_data (err_frame code m) = Inl (protocol_error (int code) (decode_replace m))"
  by (simp add: ok_data_def err_frame_def split_response_def TAG_OK_def TAG_ERR_def
      RESP_DELIMITER_def raise_error_err [unfolded RESP_DELIMITER_def])

text \<open>
  Error answers: whatever command an answer belongs to, \<open>err|<code>|<message>\<close> with a code up to
  9999 makes its decoder raise the exception class of that code, with the code and the decoded
  message (which may itself contain delimiters).
\<close>

theorem error_answers:
  assumes "code \<le> 9999"
  shows "let e = protocol_error (int code) (decode_replace message) in
    parse_value (err_frame code message) = Inl e \<and> parse_bool (err_frame code message) = Inl e \<and>
    parse_bools (err_frame code message) = Inl e \<and> parse_hello (err_frame code message) = Inl e \<and>
    parse_rate_limit (err_frame code message) = Inl e \<and>
    parse_quota_acquire (err_frame code message) = Inl e \<and>
    parse_quota_info (err_frame code message) = Inl e \<and> parse_scan (err_frame code message) = Inl e \<and>
    parse_limit_event (err_frame code message) = Inl e \<and>
    parse_quota_event (err_frame code message) = Inl e"
  by (simp add: decoder_defs ok_data_err_frame [OF assms(1)])

theorem error_answers_witness:
  "parse_value (err_frame 2009 ''a|b'') = Inl (ProtocolExc ArgumentError 2009 (ustr ''a|b''))"
proof -
  have "decode_replace ''a|b'' = ustr ''a|b''"
    by (simp add: decode_replace_def ustr_def utf8_points.simps utf8_step_def)
  moreover have "(2009::nat) \<le> 9999" by simp
  ultimately show ?thesis
    using error_answers [of 2009 "''a|b''"] by (simp add: protocol_error_def RANGES_def Let_def)
qed

lemma answers_roundtrip_hello:
  "a < 10 ^ 20 \<Longrightarrow> 0 < m \<Longrightarrow> m < 10 ^ 20 \<Longrightarrow> sep_free t \<Longrightarrow>
   parse_hello (ok_frame [digit_bytes a, digit_bytes m, bool_bytes q, t]) =
     Inr \<lparr>hi_version = int a, hi_max_message_size = int m, hi_auth_required = q,
          hi_role = decode_replace t\<rparr>"
  by (simp add: parse_hello_def resp_fields_join del: join_with.simps(3))

text \<open>
  C37. Round trip of the fixed-shape answers: a well-formed answer, written as the docstrings give the
  format, decodes to exactly the values it carries, field by field and in order.
\<close>

theorem answers_roundtrip:
  assumes "a < 10 ^ 20" "b < 10 ^ 20" "c < 10 ^ 20" "d < 10 ^ 20"
    and "sep_free t1" "sep_free t2" "sep_free t3" "0 < m" "m < 10 ^ 20"
  shows "parse_value (ok_frame [digit_bytes a]) = Inr (int a) \<and>
    parse_bool (ok_frame [bool_bytes q]) = Inr q \<and>
    parse_hello (ok_frame [digit_bytes a, digit_bytes m, bool_bytes q, t1]) =
      Inr \<lparr>hi_version = int a, hi_max_message_size = int m, hi_auth_required = q,
           hi_role = decode_replace t1\<rparr> \<and>
    parse_rate_limit (ok_frame [bool_bytes q, digit_bytes a, digit_bytes b, digit_bytes c]) =
      Inr \<lparr>rl_allowed = q, rl_current = int a, rl_remaining = int b, rl_reset_after = int c\<rparr> \<and>
    parse_quota_acquire (ok_frame [bool_bytes q, digit_bytes a, digit_bytes b, digit_bytes c, digit_bytes d]) =
      Inr \<lparr>qa_acquired = q, qa_allocated = int a, qa_used = int b, qa_remaining = int c,
           qa_expires_after = int d\<rparr> \<and>
    parse_limit_event (ok_frame [t1, digit_bytes a, digit_bytes b, digit_bytes c]) =
      Inr \<lparr>le_key = decode_replace t1, le_window = int a, le_current = int b, le_reset_after = int c\<rparr> \<and>
    parse_quota_event (ok_frame [t1, t2, t3, digit_bytes a, digit_bytes b, digit_bytes c, digit_bytes d]) =
      Inr \<lparr>qe_event = decode_replace t1, qe_name = decode_replace t2, qe_client_id = decode_replace t3,
           qe_amount = int a, qe_used = int b, qe_remaining = int c, qe_expires_at = int d\<rparr>"
  using assms
  by (simp add: parse_value_def parse_bool_def parse_hello_def parse_rate_limit_def
      parse_quota_acquire_def parse_limit_event_def parse_quota_event_def
      resp_fields_join field_text_def del: join_with.simps(3))

theorem answers_roundtrip_witness:
  "parse_rate_limit (ok_frame [bool_bytes True, digit_bytes 7, digit_bytes 93, digit_bytes 60]) =
     Inr \<lparr>rl_allowed = True, rl_current = 7, rl_remaining = 93, rl_reset_after = 60\<rparr>"
  using answers_roundtrip [of 7 93 60 0 "[]" "[]" "[]" 1 True] by simp

section \<open>Answers of variable length\<close>

definition client_fields :: "(bytes \<times> nat \<times> nat) list \<Rightarrow> bytes list" where
  "client_fields cs = concat (map (\<lambda>(c, a, e). [c, digit_bytes a, digit_bytes e]) cs)"

definition key_fields :: "(bytes \<times> nat) list \<Rightarrow> bytes list" where
  "key_fields ks = concat (map (\<lambda>(k, w). [k, digit_bytes w]) ks)"

lemma quota_clients_fields:
  "\<forall>(c, a, e) \<in> set cs. a < 10 ^ 20 \<and> e < 10 ^ 20 \<Longrightarrow>
   quota_clients (client_fields cs) = Inr (map (\<lambda>(c, a, e).
     \<lparr>qc_client_id = decode_replace c, qc_amount = int a, qc_expires_at = int e\<rparr>) cs)"
  by (induction cs) (auto simp: client_fields_def field_text_def)

lemma scan_pairs_fields:
  "\<forall>(k, w) \<in> set ks. w < 10 ^ 20 \<Longrightarrow>
   scan_pairs (key_fields ks) = Inr (map (\<lambda>(k, w). \<lparr>sk_key = decode_replace k, sk_window = int w\<rparr>) ks)"
  by (induction ks) (auto simp: key_fields_def field_text_def)

lemma length_client_fields: "length (client_fields cs) = 3 * length cs"
  by (induction cs) (auto simp: client_fields_def)

lemma length_key_fields: "length (key_fields ks) = 2 * length ks"
  by (induction ks) (auto simp: key_fields_def)

lemma client_fields_clean:
  "\<forall>(c, a, e) \<in> set cs. sep_free c \<Longrightarrow> f \<in> set (client_fields cs) \<Longrightarrow> sep_free f"
  by (auto simp: client_fields_def)

lemma key_fields_clean:
  "\<forall>(k, w) \<in> set ks. sep_free k \<Longrightarrow> f \<in> set (key_fields ks) \<Longrightarrow> sep_free f"
  by (auto simp: key_fields_def)

text \<open>
  C38. Round trip of the answers of variable length: the quota report with any number of clients, a
  scan page with any number of keys and the MDEL answer decode to exactly the entries they list, in
  the order they are listed, and none is lost, merged or invented.
\<close>

theorem listings_roundtrip:
  assumes "l < 10 ^ 20" "u < 10 ^ 20" "r < 10 ^ 20"
    and cs: "\<forall>(c, a, e) \<in> set cs. sep_free c" "\<forall>(c, a, e) \<in> set cs. a < 10 ^ 20 \<and> e < 10 ^ 20"
    and ks: "sep_free cursor" "\<forall>(k, w) \<in> set ks. sep_free k" "\<forall>(k, w) \<in> set ks. w < 10 ^ 20"
    and bs: "bs \<noteq> []"
  shows "parse_quota_info (ok_frame (digit_bytes l # digit_bytes u # digit_bytes r # client_fields cs)) =
      Inr \<lparr>qi_limit = int l, qi_used = int u, qi_remaining = int r, qi_clients = map (\<lambda>(c, a, e).
        \<lparr>qc_client_id = decode_replace c, qc_amount = int a, qc_expires_at = int e\<rparr>) cs\<rparr> \<and>
    parse_scan (ok_frame (cursor # key_fields ks)) =
      Inr \<lparr>sr_cursor = decode_replace cursor,
           sr_keys = map (\<lambda>(k, w). \<lparr>sk_key = decode_replace k, sk_window = int w\<rparr>) ks\<rparr> \<and>
    parse_bools (ok_frame (map bool_bytes bs)) = Inr bs"
proof (intro conjI)
  have "split_on FIELD_DELIMITER (join_with [FIELD_DELIMITER]
      (digit_bytes l # digit_bytes u # digit_bytes r # client_fields cs)) =
      digit_bytes l # digit_bytes u # digit_bytes r # client_fields cs"
    using client_fields_clean [OF cs(1)] by (intro split_join) auto
  then show "parse_quota_info (ok_frame (digit_bytes l # digit_bytes u # digit_bytes r # client_fields cs)) =
      Inr \<lparr>qi_limit = int l, qi_used = int u, qi_remaining = int r, qi_clients = map (\<lambda>(c, a, e).
        \<lparr>qc_client_id = decode_replace c, qc_amount = int a, qc_expires_at = int e\<rparr>) cs\<rparr>"
    using assms(1-3) quota_clients_fields [OF cs(2)]
    by (simp add: parse_quota_info_def length_client_fields del: join_with.simps(3))
  have "split_on FIELD_DELIMITER (join_with [FIELD_DELIMITER] (cursor # key_fields ks)) =
      cursor # key_fields ks"
    using key_fields_clean [OF ks(2)] ks(1) by (intro split_join) auto
  then show "parse_scan (ok_frame (cursor # key_fields ks)) =
      Inr \<lparr>sr_cursor = decode_replace cursor,
           sr_keys = map (\<lambda>(k, w). \<lparr>sk_key = decode_replace k, sk_window = int w\<rparr>) ks\<rparr>"
    using scan_pairs_fields [OF ks(3)]
    by (simp add: parse_scan_def length_key_fields field_text_def)
  have "split_on FIELD_DELIMITER (join_with [FIELD_DELIMITER] (map bool_bytes bs)) = map bool_bytes bs"
    using bs by (intro split_join) auto
  moreover have bit: "parse_uint (bool_bytes b) = Inr (if b then 1 else 0)" for b
    using parse_uint_digits [of 0] parse_uint_digits [of 1]
    by (simp add: bool_bytes_def digit_bytes_def dec_digits.simps byte_of_zero_one)
  moreover have "smap parse_uint (map bool_bytes bs) = Inr (map (\<lambda>b. if b then 1 else 0) bs)"
    by (rule smap_map_total) (rule bit)
  ultimately show "parse_bools (ok_frame (map bool_bytes bs)) = Inr bs"
    by (simp add: parse_bools_def parse_values_def map_idI)
qed

theorem listings_roundtrip_witness:
  "parse_scan (ok_frame (''17'' # key_fields [(''a'', 60), (''b'', 5)])) =
     Inr \<lparr>sr_cursor = decode_replace ''17'',
          sr_keys = [\<lparr>sk_key = decode_replace ''a'', sk_window = 60\<rparr>,
                     \<lparr>sk_key = decode_replace ''b'', sk_window = 5\<rparr>]\<rparr>"
  using listings_roundtrip [of 0 0 0 "[]" "''17''" "[(''a'', 60), (''b'', 5)]" "[True]"]
  by (simp add: FIELD_DELIMITER_def)

text \<open>
  C39. Only well-formed handshakes are accepted: if the HELLO answer decodes at all, it consists of
  exactly four fields, the first two are decimal numbers, the third is 0 or 1, and the negotiated
  message size is positive, so the limit later used for every frame is at least 1.
\<close>

theorem hello_accepts_only_wellformed:
  assumes "parse_hello p = Inr info"
  shows "\<exists>v m a r. p = ok_frame [v, m, a, r] \<and> bytes_isdigit v \<and> bytes_isdigit m \<and>
           a \<in> {''0'', ''1''} \<and> sep_free r \<and>
           int_of_bytes v = Inr (hi_version info) \<and> int_of_bytes m = Inr (hi_max_message_size info) \<and>
           0 < hi_max_message_size info \<and> hi_auth_required info = (a = ''1'') \<and>
           hi_role info = decode_replace r"
proof -
  obtain d fs n v q where ok: "ok_data p = Inr d" and fs: "resp_fields d 4 = Inr fs"
    and n: "parse_uint (fs ! 1) = Inr n" "n \<noteq> 0" and v: "parse_uint (fs ! 0) = Inr v"
    and q: "parse_bool_field (fs ! 2) = Inr q"
    and info: "info = \<lparr>hi_version = v, hi_max_message_size = n, hi_auth_required = q,
                       hi_role = decode_replace (fs ! 3)\<rparr>"
    using assms by (auto simp: parse_hello_def sbind_eq_Inr split: if_splits)
  have p: "p = ''ok|'' @ d"
    using ok by (auto simp: ok_data_def split_response_def sbind_eq_Inr partition_at_found
        TAG_OK_def RESP_DELIMITER_def split: prod.splits if_splits)
  have len: "length fs = 4" and split: "split_on FIELD_DELIMITER d = fs"
    using fs by (auto simp: resp_fields_def Let_def split: if_splits)
  have fs4: "fs = [fs ! 0, fs ! 1, fs ! 2, fs ! 3]"
    using len by (intro nth_equalityI) (auto simp: less_Suc_eq numeral_eq_Suc)
  have join: "d = join_with [FIELD_DELIMITER] fs" using join_split split by metis
  have clean: "sep_free (fs ! 3)"
    using split_on_parts [of "fs ! 3" FIELD_DELIMITER d] split len by simp
  have "0 < n" using n parse_uint_nonneg [OF n(1)] by simp
  then show ?thesis
    using p n v q info clean join fs4
    by (intro exI [of _ "fs ! 0"] exI [of _ "fs ! 1"] exI [of _ "fs ! 2"] exI [of _ "fs ! 3"])
       (auto simp: ok_frame_def parse_uint_def parse_bool_field_def split: if_splits)
qed

theorem hello_accepts_only_wellformed_witness:
  "parse_hello (ok_frame [digit_bytes 1, digit_bytes 4096, bool_bytes True, ''ro'']) =
     Inr \<lparr>hi_version = 1, hi_max_message_size = 4096, hi_auth_required = True,
          hi_role = decode_replace ''ro''\<rparr> \<and>
   0 < hi_max_message_size \<lparr>hi_version = 1, hi_max_message_size = 4096, hi_auth_required = True,
          hi_role = decode_replace ''ro''\<rparr>"
proof -
  have e: "parse_hello (ok_frame [digit_bytes 1, digit_bytes 4096, bool_bytes True, ''ro'']) =
     Inr \<lparr>hi_version = 1, hi_max_message_size = 4096, hi_auth_required = True,
          hi_role = decode_replace ''ro''\<rparr>"
    using answers_roundtrip_hello [of 1 4096 "''ro''" True] by (simp add: FIELD_DELIMITER_def)
  with hello_accepts_only_wellformed [OF e] show ?thesis by blast
qed

end
