(* ===== verification/Chunked.thy ===== *)
theory Chunked
  imports Responses
begin

text \<open>
  \<open>fq/_chunked.py\<close>: the assembler that puts a response split over several frames together. Its state
  is the body collected so far; \<open>ChunkAssembler_feed\<close> takes one frame and gives what the call returns
  or raises, and the new state.
\<close>

type_synonym assembler = bytes

definition ChunkAssembler_new :: assembler where
  "ChunkAssembler_new = []"

definition ChunkAssembler_feed :: "assembler \<Rightarrow> bytes \<Rightarrow> bytes option result \<times> assembler" where
  "ChunkAssembler_feed body frame = (case split_response frame of
      Inl e \<Rightarrow> (Inl e, body)
    | Inr (tag, data) \<Rightarrow>
        if tag = TAG_NXT then (Inr None, body @ data)
        else if tag = TAG_OK then (Inr (Some (TAG_OK @ [RESP_DELIMITER] @ body @ data)), [])
        else if tag = TAG_ERR then (Inl (raise_error data), [])
        else (Inl (Exc CorruptedResponseError), body))"

text \<open>
  Feeding frames until one completes the response or raises, the loop of \<open>send_chunked\<close> without
  its I/O: \<open>None\<close> when the frames run out first, and the frames that were not consumed.
\<close>

fun feed_all :: "assembler \<Rightarrow> bytes list \<Rightarrow> bytes result option \<times> assembler \<times> bytes list" where
  "feed_all body [] = (None, body, [])"
| "feed_all body (f # fs) = (case ChunkAssembler_feed body f of
      (Inl e, body') \<Rightarrow> (Some (Inl e), body', fs)
    | (Inr (Some r), body') \<Rightarrow> (Some (Inr r), body', fs)
    | (Inr None, body') \<Rightarrow> feed_all body' fs)"

definition nxt_frame :: "bytes \<Rightarrow> bytes" where
  "nxt_frame part = ''nxt|'' @ part"

lemma split_response_tagged:
  "RESP_DELIMITER \<notin> set tag \<Longrightarrow> split_response (tag @ RESP_DELIMITER # data) = Inr (tag, data)"
  by (simp add: split_response_def partition_at_append)

lemma split_response_Inr:
  "split_response frame = Inr (tag, data) \<Longrightarrow> frame = tag @ RESP_DELIMITER # data"
  by (auto simp: split_response_def partition_at_found split: prod.splits if_splits)

lemma tags_clean [simp]:
  "RESP_DELIMITER \<notin> set TAG_OK" "RESP_DELIMITER \<notin> set TAG_ERR" "RESP_DELIMITER \<notin> set TAG_NXT"
  by (simp_all add: RESP_DELIMITER_def TAG_OK_def TAG_ERR_def TAG_NXT_def)

lemma feed_nxt [simp]: "ChunkAssembler_feed body (nxt_frame part) = (Inr None, body @ part)"
  using split_response_tagged [of TAG_NXT part]
  by (simp add: ChunkAssembler_feed_def nxt_frame_def TAG_NXT_def RESP_DELIMITER_def)

lemma feed_ok [simp]:
  "ChunkAssembler_feed body (''ok|'' @ part) = (Inr (Some (''ok|'' @ body @ part)), [])"
  using split_response_tagged [of TAG_OK part]
  by (simp add: ChunkAssembler_feed_def TAG_OK_def TAG_NXT_def RESP_DELIMITER_def)

lemma feed_err [simp]:
  "ChunkAssembler_feed body (''err|'' @ data) = (Inl (raise_error data), [])"
  using split_response_tagged [of TAG_ERR data]
  by (simp add: ChunkAssembler_feed_def TAG_OK_def TAG_NXT_def TAG_ERR_def RESP_DELIMITER_def)

lemmas feed_tagged [simp] = feed_ok [simplified] feed_err [simplified]

lemma feed_all_nxt:
  "feed_all body (map nxt_frame parts @ fs) = feed_all (body @ concat parts) fs"
  by (induction parts arbitrary: body) simp_all

text \<open>
  Reassembly: however the server cuts a body into \<open>nxt|\<close> parts before the final \<open>ok|\<close> part, the
  assembler yields \<open>ok|\<close> followed by the concatenation of the parts, exactly the response an unsplit
  answer would have been, with no frame after the final one consumed and the state ready for the
  next response. The parts may contain any bytes, delimiters and tags included.
\<close>

theorem assembler_reassembles:
  "feed_all ChunkAssembler_new (map nxt_frame parts @ (''ok|'' @ last_part) # rest) =
     (Some (Inr (''ok|'' @ concat parts @ last_part)), ChunkAssembler_new, rest)"
  by (simp add: feed_all_nxt ChunkAssembler_new_def)

text \<open>
  An error in the middle of a split response is raised as the exception of its code and discards
  what was collected, so no part of the aborted body can leak into a later response.
\<close>

theorem assembler_error_discards:
  "feed_all ChunkAssembler_new (map nxt_frame parts @ (''err|'' @ data) # rest) =
     (Some (Inl (raise_error data)), ChunkAssembler_new, rest)"
  by (simp add: feed_all_nxt ChunkAssembler_new_def)

lemma feed_Some:
  "ChunkAssembler_feed body f = (Inr (Some r), body') \<Longrightarrow>
   \<exists>part. f = ''ok|'' @ part \<and> r = ''ok|'' @ body @ part \<and> body' = []"
  by (auto simp: ChunkAssembler_feed_def TAG_OK_def TAG_NXT_def TAG_ERR_def RESP_DELIMITER_def
      dest!: split_response_Inr split: sum.splits prod.splits if_splits)

lemma feed_None:
  "ChunkAssembler_feed body f = (Inr None, body') \<Longrightarrow> \<exists>part. f = nxt_frame part \<and> body' = body @ part"
  by (auto simp: ChunkAssembler_feed_def nxt_frame_def TAG_OK_def TAG_NXT_def TAG_ERR_def RESP_DELIMITER_def
      dest!: split_response_Inr split: sum.splits prod.splits if_splits)

text \<open>
  Conversely, a response is only ever completed by such a sequence: the frames consumed are
  \<open>nxt|\<close> parts followed by one \<open>ok|\<close> part, and the response is their concatenation; a frame with an
  unknown tag or without a delimiter can never contribute to it.
\<close>

theorem assembler_sound:
  assumes "feed_all body frames = (Some (Inr r), body', rest)"
  shows "\<exists>parts last_part. frames = map nxt_frame parts @ (''ok|'' @ last_part) # rest \<and>
           r = ''ok|'' @ body @ concat parts @ last_part \<and> body' = []"
  using assms
proof (induction frames arbitrary: body)
  case (Cons f fs)
  obtain res b where f: "ChunkAssembler_feed body f = (res, b)" by fastforce
  show ?case
  proof (cases res)
    case (Inl e)
    with f Cons.prems show ?thesis by simp
  next
    case (Inr o')
    show ?thesis
    proof (cases o')
      case None
      then obtain part where part: "f = nxt_frame part" "b = body @ part"
        using feed_None f Inr by blast
      have "feed_all b fs = (Some (Inr r), body', rest)" using Cons.prems f Inr None by simp
      from Cons.IH [OF this] obtain parts lp where
        "fs = map nxt_frame parts @ (''ok|'' @ lp) # rest"
        "r = ''ok|'' @ b @ concat parts @ lp" "body' = []" by blast
      then show ?thesis
        using part by (intro exI [of _ "part # parts"] exI [of _ lp]) simp
    next
      case (Some r')
      then show ?thesis
        using Cons.prems f Inr feed_Some [of body f r' b]
        by (auto intro!: exI [of _ "[]"])
    qed
  qed
qed simp

theorem assembler_sound_witness:
  "\<exists>parts last_part. [''nxt|a'', ''ok|b''] = map nxt_frame parts @ (''ok|'' @ last_part) # [] \<and>
     ''ok|ab'' = ''ok|'' @ [] @ concat parts @ last_part"
proof -
  have "feed_all [] [''nxt|a'', ''ok|b''] = (Some (Inr ''ok|ab''), [], [])"
    using feed_all_nxt [of "[]" "[''a'']" "[''ok|b'']"] by (simp add: nxt_frame_def)
  from assembler_sound [OF this] show ?thesis by blast
qed

end
