(* ===== verification/Reconnect.thy ===== *)
theory Reconnect
  imports Errors
begin

text \<open>
  \<open>fq/_reconnect.py\<close>: the backoff policy and the deadline of a call. Times are seconds. A Python
  float is a real number here, with one exception: a power that exceeds the range of doubles raises
  OverflowError, as \<open>float ** int\<close> does; rounding is not modelled. The clock is an argument: the
  caller passes the reading that \<open>time.monotonic()\<close> gives at that moment.
\<close>

section \<open>Backoff\<close>

record ReconnectPolicy =
  rp_initial :: real
  rp_max_delay :: real
  rp_multiplier :: real
  rp_max_attempts :: "int option"

definition default_policy :: ReconnectPolicy where
  "default_policy = \<lparr>rp_initial = 5 / 100, rp_max_delay = 2, rp_multiplier = 2, rp_max_attempts = None\<rparr>"

text \<open>Everything from this magnitude on rounds to infinity in double precision.\<close>

definition FLOAT_LIMIT :: real where
  "FLOAT_LIMIT = 2 ^ 1024 - 2 ^ 970"

definition float_pow :: "real \<Rightarrow> nat \<Rightarrow> real result" where
  "float_pow x n = (if FLOAT_LIMIT \<le> \<bar>x ^ n\<bar> then Inl (Exc PyOverflowError) else Inr (x ^ n))"

text \<open>\<open>delay(attempt)\<close>, with \<open>u\<close> the value \<open>rand()\<close> returns; attempts count from one.\<close>

definition ReconnectPolicy_delay :: "ReconnectPolicy \<Rightarrow> nat \<Rightarrow> real \<Rightarrow> real result" where
  "ReconnectPolicy_delay p attempt u =
     sbind (float_pow (rp_multiplier p) (attempt - 1)) (\<lambda>m.
       Inr (u * min (rp_max_delay p) (rp_initial p * m)))"

definition ReconnectPolicy_exhausted :: "ReconnectPolicy \<Rightarrow> nat \<Rightarrow> bool" where
  "ReconnectPolicy_exhausted p attempt = (case rp_max_attempts p of
      None \<Rightarrow> False
    | Some n \<Rightarrow> n < int attempt)"

section \<open>Deadlines\<close>

record Deadline =
  dl_at :: "real option"

definition Deadline_new :: "real option \<Rightarrow> real \<Rightarrow> Deadline" where
  "Deadline_new timeout now = \<lparr>dl_at = map_option (\<lambda>t. now + t) timeout\<rparr>"

definition Deadline_remaining :: "Deadline \<Rightarrow> real \<Rightarrow> real option" where
  "Deadline_remaining d now = map_option (\<lambda>t. t - now) (dl_at d)"

definition Deadline_expired :: "Deadline \<Rightarrow> real \<Rightarrow> bool" where
  "Deadline_expired d now = (case Deadline_remaining d now of None \<Rightarrow> False | Some r \<Rightarrow> r \<le> 0)"

definition Deadline_check :: "Deadline \<Rightarrow> real \<Rightarrow> unit result" where
  "Deadline_check d now = (if Deadline_expired d now then Inl (Exc FQTimeoutError) else Inr ())"

definition Deadline_clamp :: "Deadline \<Rightarrow> real \<Rightarrow> real \<Rightarrow> real" where
  "Deadline_clamp d now delay = (case Deadline_remaining d now of
      None \<Rightarrow> delay
    | Some r \<Rightarrow> min delay (max r 0))"

lemmas deadline_defs = Deadline_new_def Deadline_remaining_def Deadline_expired_def
  Deadline_check_def Deadline_clamp_def

section \<open>Properties\<close>

lemma float_pow_cases: "float_pow x n = Inr (x ^ n) \<or> float_pow x n = Inl (Exc PyOverflowError)"
  by (simp add: float_pow_def)

lemma delay_cases:
  "ReconnectPolicy_delay p n u = Inl (Exc PyOverflowError) \<or>
   ReconnectPolicy_delay p n u =
     Inr (u * min (rp_max_delay p) (rp_initial p * rp_multiplier p ^ (n - 1)))"
  using float_pow_cases [of "rp_multiplier p" "n - 1"] by (auto simp: ReconnectPolicy_delay_def)

text \<open>
  Full jitter: when a delay is computed at all, it lies between zero and the exponential ceiling,
  never above \<open>max_delay\<close>; and trimmed by the call's deadline it never sleeps past it, so after the
  sleep the clock is at most at the deadline (or where it was, when the deadline had passed).
\<close>

theorem delay_bounded:
  assumes "ReconnectPolicy_delay p n u = Inr d" and "0 \<le> u" "u < 1"
    and "0 \<le> rp_initial p" "0 \<le> rp_multiplier p" "0 \<le> rp_max_delay p"
  shows "0 \<le> d \<and> d \<le> rp_initial p * rp_multiplier p ^ (n - 1) \<and> d \<le> rp_max_delay p \<and>
         0 \<le> Deadline_clamp dl now d \<and> Deadline_clamp dl now d \<le> d \<and>
         (\<forall>t. dl_at dl = Some t \<longrightarrow> now + Deadline_clamp dl now d \<le> max now t)"
proof -
  let ?c = "min (rp_max_delay p) (rp_initial p * rp_multiplier p ^ (n - 1))"
  have d: "d = u * ?c" using assms(1) delay_cases [of p n u] by auto
  have c: "0 \<le> ?c" using assms by simp
  have "0 \<le> d" using c assms(2) unfolding d by (rule mult_nonneg_nonneg [rotated])
  moreover have "d \<le> ?c"
    using mult_left_le_one_le [OF c assms(2)] assms(3) unfolding d by linarith
  ultimately have "0 \<le> d" "d \<le> rp_max_delay p" "d \<le> rp_initial p * rp_multiplier p ^ (n - 1)"
    by (simp_all only: min.bounded_iff)
  then show ?thesis
    by (auto simp: deadline_defs split: option.split)
qed

theorem delay_bounded_witness:
  "ReconnectPolicy_delay default_policy 3 (1 / 2) = Inr (1 / 10) \<and>
   Deadline_clamp \<lparr>dl_at = Some (5 / 100)\<rparr> 0 (1 / 10) \<le> 1 / 10"
proof -
  have e: "ReconnectPolicy_delay default_policy 3 (1 / 2) = Inr (1 / 10)"
    by (simp add: ReconnectPolicy_delay_def default_policy_def float_pow_def FLOAT_LIMIT_def)
  have "0 \<le> rp_initial default_policy" "0 \<le> rp_multiplier default_policy" "0 \<le> rp_max_delay default_policy"
    by (simp_all add: default_policy_def)
  with delay_bounded [OF e, of "\<lparr>dl_at = Some (5 / 100)\<rparr>" 0] e show ?thesis by simp
qed

text \<open>
  The backoff does not survive a long outage: with the default policy, whose number of attempts
  is unlimited, computing the delay raises OverflowError (no FQError) from attempt 1025 on, because
  the power is computed before it is capped by \<open>max_delay\<close>; every earlier attempt has a delay.
\<close>

theorem default_delay_overflows:
  "(ReconnectPolicy_delay default_policy attempt u = Inl (Exc PyOverflowError) \<longleftrightarrow> 1025 \<le> attempt) \<and>
   \<not> ReconnectPolicy_exhausted default_policy attempt \<and> \<not> catches FQError (Exc PyOverflowError)"
proof -
  have limit: "(2::real) ^ 1023 < FLOAT_LIMIT" "FLOAT_LIMIT \<le> 2 ^ 1024"
    by (simp_all add: FLOAT_LIMIT_def)
  have "FLOAT_LIMIT \<le> 2 ^ n \<longleftrightarrow> 1024 \<le> n" for n
  proof
    assume "FLOAT_LIMIT \<le> 2 ^ n"
    with limit(1) have less: "(2::real) ^ 1023 < 2 ^ n" by (rule less_le_trans)
    show "1024 \<le> n"
    proof (rule ccontr)
      assume "\<not> 1024 \<le> n"
      then have "(2::real) ^ n \<le> 2 ^ 1023" by (intro power_increasing) simp_all
      from leD [OF this] less show False by (rule notE)
    qed
  next
    assume "1024 \<le> n"
    then have "(2::real) ^ 1024 \<le> 2 ^ n" by (intro power_increasing) simp_all
    with limit(2) show "FLOAT_LIMIT \<le> 2 ^ n" by linarith
  qed
  then have "ReconnectPolicy_delay default_policy attempt u = Inl (Exc PyOverflowError)
      \<longleftrightarrow> 1024 \<le> attempt - 1"
    by (simp add: ReconnectPolicy_delay_def float_pow_def default_policy_def)
  moreover have "1024 \<le> attempt - 1 \<longleftrightarrow> 1025 \<le> attempt" by linarith
  moreover have "\<not> ReconnectPolicy_exhausted default_policy attempt"
    by (simp add: ReconnectPolicy_exhausted_def default_policy_def)
  moreover have "\<not> catches FQError (Exc PyOverflowError)"
    by (simp add: catches_def issubclass_eval)
  ultimately show ?thesis by blast
qed

end
