(* ===== verification/Sharding.thy ===== *)
theory Sharding
  imports Types
begin

unbundle bit_operations_syntax

text \<open>
  \<open>fq/_sharding.py\<close>: the default sharding function, the range check of a caller's own one, the
  grouping of a batch of keys by shard, and the composite cursors of a sharded scan. A sharding
  function may raise, so it returns a result.
\<close>

section \<open>Routing\<close>

type_synonym sharding_func = "pystr \<Rightarrow> int \<Rightarrow> int result"

definition FNV_OFFSET_BASIS :: int where
  "FNV_OFFSET_BASIS = 0x811C9DC5"

definition FNV_PRIME :: int where
  "FNV_PRIME = 0x01000193"

definition UINT32_MASK :: int where
  "UINT32_MASK = 0xFFFFFFFF"

definition fnv_step :: "int \<Rightarrow> char \<Rightarrow> int" where
  "fnv_step digest b = ((digest XOR of_char b) * FNV_PRIME) AND UINT32_MASK"

definition fnv1a_shard :: sharding_func where
  "fnv1a_shard key shard_count = sbind (encode_utf8 key) (\<lambda>bs.
     if shard_count = 0 then Inl (Exc PyZeroDivisionError)
     else Inr (foldl fnv_step FNV_OFFSET_BASIS bs mod shard_count))"

definition resolve_shard :: "pystr \<Rightarrow> int \<Rightarrow> sharding_func \<Rightarrow> nat result" where
  "resolve_shard key shard_count sharding_func = sbind (sharding_func key shard_count) (\<lambda>index.
     if index < 0 \<or> index \<ge> shard_count then Inl (Exc ShardIndexError) else Inr (nat index))"

section \<open>Grouping a batch\<close>

text \<open>
  A dict keeps its keys in insertion order, so the groups are an association list;
  \<open>grouped.setdefault(i, []).append(x)\<close> appends to the group of \<open>i\<close>, or adds one at the end.
\<close>

type_synonym groups = "(nat \<times> (nat \<times> CappingKey) list) list"

fun setdefault_append :: "nat \<Rightarrow> nat \<times> CappingKey \<Rightarrow> groups \<Rightarrow> groups" where
  "setdefault_append i x [] = [(i, [x])]"
| "setdefault_append i x ((j, xs) # gs) =
     (if j = i then (j, xs @ [x]) # gs else (j, xs) # setdefault_append i x gs)"

fun group_from :: "nat \<Rightarrow> CappingKey list \<Rightarrow> (pystr \<Rightarrow> nat result) \<Rightarrow> groups \<Rightarrow> groups result" where
  "group_from position [] resolve grouped = Inr grouped"
| "group_from position (k # ks) resolve grouped = sbind (resolve (ck_key k)) (\<lambda>i.
     group_from (Suc position) ks resolve (setdefault_append i (position, k) grouped))"

definition group_by_shard :: "CappingKey list \<Rightarrow> (pystr \<Rightarrow> nat result) \<Rightarrow> groups result" where
  "group_by_shard keys resolve = group_from 0 keys resolve []"

section \<open>Composite cursors\<close>

definition SHARD_CURSOR_SEPARATOR :: nat where
  "SHARD_CURSOR_SEPARATOR = 0x3A"

definition parse_shard_cursor :: "pystr \<Rightarrow> nat \<Rightarrow> (nat \<times> pystr) result" where
  "parse_shard_cursor cursor shard_count =
     (if cursor = [] \<or> cursor = SCAN_CURSOR_INITIAL then Inr (0, SCAN_CURSOR_INITIAL)
      else case partition_at SHARD_CURSOR_SEPARATOR cursor of (shard, separator, shard_cursor) \<Rightarrow>
        if \<not> separator \<or> shard_cursor = [] \<or> \<not> str_isdigit shard
        then Inl (Exc CorruptedResponseError)
        else sbind (int_of_str shard) (\<lambda>index.
          if index \<ge> int shard_count then Inl (Exc CorruptedResponseError)
          else Inr (nat index, shard_cursor)))"

definition make_shard_cursor :: "nat \<Rightarrow> pystr \<Rightarrow> nat \<Rightarrow> pystr" where
  "make_shard_cursor shard_index shard_cursor shard_count =
     (if shard_index \<ge> shard_count then SCAN_CURSOR_INITIAL
      else str_int (int shard_index) @ SHARD_CURSOR_SEPARATOR # shard_cursor)"

section \<open>The hash\<close>

text \<open>The same hash on 32-bit machine words, as FNV-1a is specified.\<close>

definition fnv1a_word :: "bytes \<Rightarrow> 32 word" where
  "fnv1a_word bs = foldl (\<lambda>h b. (h XOR of_char b) * 0x01000193) 0x811C9DC5 bs"

lemma fnv_step_word: "fnv_step (uint h) b = uint ((h XOR of_char b) * (0x01000193 :: 32 word))"
proof -
  have c: "uint (of_char b :: 32 word) = (of_char b :: int)"
  proof -
    have "(of_char b :: 32 word) = word_of_nat (of_char b)" by (simp only: of_nat_of_char)
    then have "uint (of_char b :: 32 word) = int (take_bit 32 (of_char b))"
      by (simp only: unsigned_of_nat) simp
    moreover have "take_bit 32 (of_char b :: nat) = of_char b"
      by (rule take_bit_nat_eq_self) (rule less_trans [of _ 256], simp_all)
    ultimately show ?thesis by (simp only: of_nat_of_char)
  qed
  have "UINT32_MASK = mask 32" by (simp add: UINT32_MASK_def mask_eq_exp_minus_1)
  then have "fnv_step (uint h) b = take_bit 32 ((uint h XOR of_char b) * 0x01000193)"
    by (simp add: fnv_step_def FNV_PRIME_def take_bit_eq_mask)
  also have "\<dots> = uint ((h XOR of_char b) * (0x01000193 :: 32 word))"
    by (simp add: uint_word_ariths unsigned_xor_eq c take_bit_eq_mod)
  finally show ?thesis .
qed

lemma fnv_fold_word: "foldl fnv_step (uint h) bs = uint (foldl (\<lambda>h b. (h XOR of_char b) * 0x01000193) (h :: 32 word) bs)"
  by (induction bs arbitrary: h) (simp_all add: fnv_step_word)

text \<open>
  C40. The default sharding function is FNV-1a on 32-bit words over the UTF-8 bytes of the key: the
  masked Python integers never differ from wrap-around arithmetic, the result is always a valid
  index for any positive number of shards (so \<open>resolve_shard\<close> accepts it), and the only way it can
  fail is a key that UTF-8 cannot encode.
\<close>

theorem fnv1a_is_fnv1a:
  assumes "0 < shard_count"
  shows "fnv1a_shard key shard_count =
           (case encode_utf8 key of Inl e \<Rightarrow> Inl e
            | Inr bs \<Rightarrow> Inr (uint (fnv1a_word bs) mod shard_count)) \<and>
         resolve_shard key shard_count fnv1a_shard =
           (case encode_utf8 key of Inl e \<Rightarrow> Inl e
            | Inr bs \<Rightarrow> Inr (nat (uint (fnv1a_word bs) mod shard_count)))"
proof -
  have basis: "FNV_OFFSET_BASIS = uint (0x811C9DC5 :: 32 word)"
    by (simp add: FNV_OFFSET_BASIS_def)
  have hash: "foldl fnv_step FNV_OFFSET_BASIS bs = uint (fnv1a_word bs)" for bs
    unfolding basis fnv_fold_word fnv1a_word_def ..
  show ?thesis
    using assms pos_mod_sign [OF assms] pos_mod_bound [OF assms]
    by (cases "encode_utf8 key") (simp_all add: fnv1a_shard_def resolve_shard_def hash not_le not_less)
qed

theorem fnv1a_is_fnv1a_witness:
  "fnv1a_shard (ustr ''a'') 4 = Inr (uint (fnv1a_word ''a'') mod 4) \<and>
   uint (fnv1a_word ''a'') = 0xE40C292C"
proof -
  have "encode_utf8 (ustr ''a'') = Inr ''a''"
    by (simp add: encode_utf8_def utf8_char_def ustr_def byte_of_def char_of_eq_iff)
  moreover have "uint (fnv1a_word ''a'') = 0xE40C292C"
    by (simp add: fnv1a_word_def)
  ultimately show ?thesis using fnv1a_is_fnv1a [of 4 "ustr ''a''"] by simp
qed

section \<open>Cursors round trip\<close>

lemma cursor_roundtrip:
  assumes "i < n" and "n < 10 ^ 20" and "c \<noteq> []"
  shows "parse_shard_cursor (make_shard_cursor i c n) n = Inr (i, c) \<and>
         make_shard_cursor n c n = SCAN_CURSOR_INITIAL"
proof -
  let ?d = "str_int (int i)"
  have sep: "SHARD_CURSOR_SEPARATOR \<notin> set ?d"
    using str_int_digits [of "int i"] by (force simp: SHARD_CURSOR_SEPARATOR_def)
  have "?d @ SHARD_CURSOR_SEPARATOR # c \<noteq> SCAN_CURSOR_INITIAL"
  proof
    assume "?d @ SHARD_CURSOR_SEPARATOR # c = SCAN_CURSOR_INITIAL"
    then have "SHARD_CURSOR_SEPARATOR \<in> set SCAN_CURSOR_INITIAL" by (metis in_set_conv_decomp)
    then show False by (simp add: SHARD_CURSOR_SEPARATOR_def SCAN_CURSOR_INITIAL_def ustr_def)
  qed
  moreover have "int_of_str ?d = Inr (int i)"
    using assms(1,2) by (intro int_of_str_str_int short_numeral) auto
  ultimately show ?thesis
    using assms by (simp add: parse_shard_cursor_def make_shard_cursor_def
        partition_at_append [OF sep] str_int_isdigit)
qed

text \<open>
  Composite cursors round trip: the cursor made for a position in shard \<open>i\<close> parses back to that
  shard and that shard cursor, whatever characters the shard cursor holds (the separator included),
  for up to 10 ** 20 shards; past the last shard the cursor is the initial one, which means finished.
\<close>

theorem shard_cursor_roundtrip:
  assumes "i < n" and "n < 10 ^ 20" and "c \<noteq> []"
  shows "parse_shard_cursor (make_shard_cursor i c n) n = Inr (i, c) \<and>
         make_shard_cursor n c n = SCAN_CURSOR_INITIAL"
  using assms by (rule cursor_roundtrip)

theorem shard_cursor_roundtrip_witness:
  "parse_shard_cursor (make_shard_cursor 1 (ustr ''a:b'') 3) 3 = Inr (1, ustr ''a:b'')"
  using shard_cursor_roundtrip [of 1 3 "ustr ''a:b''"] by (simp add: ustr_def)

text \<open>
  A cursor that is accepted always points at an existing shard; what is rejected is rejected with
  CorruptedResponseError, except when the shard part contains a character that \<open>str.isdigit\<close> accepts
  and \<open>int\<close> does not (a superscript digit, say) or has more than 4300 digits: then ValueError, which is
  no FQError, escapes.
\<close>

theorem shard_cursor_errors:
  shows "(parse_shard_cursor cursor n = Inr (i, c) \<longrightarrow> 0 < n \<longrightarrow> i < n \<and> c \<noteq> []) \<and>
    (parse_shard_cursor cursor n = Inl e \<longrightarrow> e = Exc CorruptedResponseError \<or> e = Exc PyValueError) \<and>
    parse_shard_cursor [0xB2, 0x3A, 0x61] 2 = Inl (Exc PyValueError) \<and>
    \<not> catches FQError (Exc PyValueError)"
proof -
  have int_errors: "int_of_str s = Inl e \<Longrightarrow> e = Exc PyValueError" for s e
    by (auto simp: int_of_str_def int_of_digits_def split: option.splits if_splits)
  have "decimal_digit 0xB2 = None" by (simp add: decimal_digit_def DECIMAL_ZEROS_def)
  then have "int_of_str [0xB2] = Inl (Exc PyValueError)" by (simp add: int_of_str_def)
  moreover have "str_isdigit [0xB2]"
    by (simp add: str_isdigit_def is_unicode_digit_def OTHER_DIGITS_def)
  ultimately have "parse_shard_cursor [0xB2, 0x3A, 0x61] 2 = Inl (Exc PyValueError)"
    by (simp add: parse_shard_cursor_def SCAN_CURSOR_INITIAL_def ustr_def SHARD_CURSOR_SEPARATOR_def)
  then show ?thesis
    by (auto simp: parse_shard_cursor_def sbind_eq_Inr sbind_eq_Inl catches_def issubclass_eval
        SCAN_CURSOR_INITIAL_def ustr_def nat_less_iff dest: int_errors
        split: if_splits prod.splits)
qed

theorem shard_cursor_errors_witness:
  "parse_shard_cursor (ustr ''1:x'') 3 = Inr (1, ustr ''x'') \<and> (1::nat) < 3 \<and> ustr ''x'' \<noteq> []"
proof -
  have e: "parse_shard_cursor (ustr ''1:x'') 3 = Inr (1, ustr ''x'')"
    by (simp add: parse_shard_cursor_def SCAN_CURSOR_INITIAL_def ustr_def SHARD_CURSOR_SEPARATOR_def
        str_isdigit_def is_unicode_digit_def int_of_str_def decimal_digit_def DECIMAL_ZEROS_def
        int_of_digits_def INT_MAX_STR_DIGITS_def dec_value_def)
  have "0 < (3::nat)" by simp
  with shard_cursor_errors [of "ustr ''1:x''" 3 1 "ustr ''x''"] e show ?thesis by blast
qed

section \<open>Grouping keeps every key at its position\<close>

lemma fst_setdefault_append:
  "map fst (setdefault_append i x gs) = (if i \<in> fst ` set gs then map fst gs else map fst gs @ [i])"
  by (induction i x gs rule: setdefault_append.induct) auto

lemma set_setdefault_append:
  "distinct (map fst gs) \<Longrightarrow> (j, ys) \<in> set (setdefault_append i x gs) \<Longrightarrow>
     (j \<noteq> i \<and> (j, ys) \<in> set gs) \<or>
     (j = i \<and> (\<exists>xs. (i, xs) \<in> set gs \<and> ys = xs @ [x])) \<or> (j = i \<and> i \<notin> fst ` set gs \<and> ys = [x])"
  by (induction i x gs rule: setdefault_append.induct) (force split: if_splits)+

text \<open>
  What holds of the groups when the positions in \<open>seen\<close> have been filed: one group per shard, each
  holding exactly the keys of its shard with their positions, in input order.
\<close>

definition grouped_ok :: "(pystr \<Rightarrow> nat) \<Rightarrow> (nat \<times> CappingKey) list \<Rightarrow> groups \<Rightarrow> bool" where
  "grouped_ok g seen gs \<longleftrightarrow> distinct (map fst gs) \<and>
     fst ` set gs = (\<lambda>(p, k). g (ck_key k)) ` set seen \<and>
     (\<forall>(i, xs) \<in> set gs. xs = filter (\<lambda>(p, k). g (ck_key k) = i) seen)"

lemma grouped_ok_step:
  assumes "grouped_ok g seen gs"
  shows "grouped_ok g (seen @ [(p, k)]) (setdefault_append (g (ck_key k)) (p, k) gs)"
proof -
  let ?i = "g (ck_key k)"
  have dist: "distinct (map fst gs)" and doms: "fst ` set gs = (\<lambda>(p, k). g (ck_key k)) ` set seen"
    and lists: "\<And>i xs. (i, xs) \<in> set gs \<Longrightarrow> xs = filter (\<lambda>(p, k). g (ck_key k) = i) seen"
    using assms by (auto simp: grouped_ok_def)
  have fresh: "filter (\<lambda>(p, k). g (ck_key k) = ?i) seen = []" if "?i \<notin> fst ` set gs"
    using that unfolding doms by (force simp: filter_empty_conv)
  have "xs = filter (\<lambda>(p, k). g (ck_key k) = i) (seen @ [(p, k)])"
    if "(i, xs) \<in> set (setdefault_append ?i (p, k) gs)" for i xs
    using set_setdefault_append [OF dist that] fresh by (auto dest: lists)
  moreover have "distinct (map fst (setdefault_append ?i (p, k) gs))"
    using dist by (simp add: fst_setdefault_append)
  moreover have "fst ` set (setdefault_append ?i (p, k) gs) = insert ?i (fst ` set gs)"
    using arg_cong [OF fst_setdefault_append [of ?i "(p, k)" gs], of set] by auto
  ultimately show ?thesis by (auto simp: grouped_ok_def doms)
qed

lemma group_from_ok:
  assumes "\<And>k. k \<in> set keys \<Longrightarrow> resolve (ck_key k) = Inr (g (ck_key k))"
    and "grouped_ok g seen gs"
  shows "\<exists>gs'. group_from p keys resolve gs = Inr gs' \<and> grouped_ok g (seen @ enumerate p keys) gs'"
  using assms
proof (induction keys arbitrary: p seen gs)
  case (Cons k keys)
  have "grouped_ok g (seen @ [(p, k)]) (setdefault_append (g (ck_key k)) (p, k) gs)"
    using Cons.prems(2) by (rule grouped_ok_step)
  from Cons.IH [OF Cons.prems(1) this, of "Suc p"] Cons.prems(1) show ?case by simp
qed simp

text \<open>
  Grouping loses nothing and reorders nothing: when every key has a shard, the groups have
  distinct shards, exactly the shards that own some key, and the group of a shard is the list of its
  keys with their positions in the batch, in input order. Every key is therefore in exactly one group.
\<close>

theorem group_by_shard_exact:
  assumes "\<forall>k \<in> set keys. resolve (ck_key k) = Inr (g (ck_key k))"
  shows "\<exists>gs. group_by_shard keys resolve = Inr gs \<and> distinct (map fst gs) \<and>
    fst ` set gs = (\<lambda>k. g (ck_key k)) ` set keys \<and>
    (\<forall>(i, xs) \<in> set gs. xs = filter (\<lambda>(p, k). g (ck_key k) = i) (enumerate 0 keys))"
proof -
  have "grouped_ok g [] []" by (simp add: grouped_ok_def)
  from group_from_ok [OF _ this, of keys resolve 0] assms obtain gs where
    gs: "group_from 0 keys resolve [] = Inr gs" "grouped_ok g (enumerate 0 keys) gs" by auto
  moreover have "(\<lambda>(p, k). g (ck_key k)) ` set (enumerate 0 keys) = (\<lambda>k. g (ck_key k)) ` set keys"
    using arg_cong [OF map_snd_enumerate [of 0 keys], of "\<lambda>ks. (\<lambda>k. g (ck_key k)) ` set ks"]
    by (simp add: image_image case_prod_unfold del: map_snd_enumerate)
  ultimately show ?thesis by (simp add: group_by_shard_def grouped_ok_def)
qed

theorem group_by_shard_exact_witness:
  "group_by_shard [\<lparr>ck_key = [97], ck_capping = 1\<rparr>, \<lparr>ck_key = [98], ck_capping = 1\<rparr>,
      \<lparr>ck_key = [97], ck_capping = 2\<rparr>] (\<lambda>k. Inr (if k = [97] then 1 else 0)) =
    Inr [(1, [(0, \<lparr>ck_key = [97], ck_capping = 1\<rparr>), (2, \<lparr>ck_key = [97], ck_capping = 2\<rparr>)]),
         (0, [(1, \<lparr>ck_key = [98], ck_capping = 1\<rparr>)])] \<and>
   (\<exists>gs. group_by_shard [\<lparr>ck_key = [97], ck_capping = 1\<rparr>] (\<lambda>k. Inr (if k = [97] then 1 else 0)) = Inr gs
      \<and> distinct (map fst gs))"
  using group_by_shard_exact [of "[\<lparr>ck_key = [97], ck_capping = 1\<rparr>]" "\<lambda>k. Inr (if k = [97] then 1 else 0)"
      "\<lambda>k. if k = [97] then 1 else 0"]
  by (auto simp: group_by_shard_def)

text \<open>Grouping succeeds only when every key has a shard, so the groups that it returns are the exact ones.\<close>

lemma group_from_resolves: "group_from p keys resolve gs = Inr gs' \<Longrightarrow> k \<in> set keys \<Longrightarrow> \<exists>i. resolve (ck_key k) = Inr i"
  by (induction keys arbitrary: p gs) (auto simp: sbind_eq_Inr)

lemma grouped_exactly:
  assumes "group_by_shard keys resolve = Inr gs"
  shows "distinct (map fst gs) \<and> fst ` set gs = {i. \<exists>k \<in> set keys. resolve (ck_key k) = Inr i} \<and>
    (\<forall>(i, xs) \<in> set gs. xs = filter (\<lambda>(p, k). resolve (ck_key k) = Inr i) (enumerate 0 keys))"
proof -
  let ?g = "\<lambda>key. projr (resolve key)"
  have r: "resolve (ck_key k) = Inr (?g (ck_key k))" if "k \<in> set keys" for k
    using group_from_resolves [OF assms [unfolded group_by_shard_def] that] by auto
  have same: "filter (\<lambda>(p, k). ?g (ck_key k) = i) (enumerate 0 keys) =
      filter (\<lambda>(p, k). resolve (ck_key k) = Inr i) (enumerate 0 keys)" for i
    using r by (intro filter_cong) (auto simp: in_set_enumerate_eq)
  have "\<forall>k \<in> set keys. resolve (ck_key k) = Inr (?g (ck_key k))" using r by blast
  from group_by_shard_exact [OF this] assms have
    "distinct (map fst gs)" "fst ` set gs = (\<lambda>k. ?g (ck_key k)) ` set keys"
    "\<forall>(i, xs) \<in> set gs. xs = filter (\<lambda>(p, k). ?g (ck_key k) = i) (enumerate 0 keys)" by auto
  moreover have "(\<lambda>k. ?g (ck_key k)) ` set keys = {i. \<exists>k \<in> set keys. resolve (ck_key k) = Inr i}"
    using r by force
  ultimately show ?thesis unfolding same by simp
qed

end
