(* ===== verification/Effects.thy ===== *)
theory Effects
  imports Errors
begin

text \<open>
  Stateful code. A program over a state returns an outcome and the new state: a value, a raised
  exception, or \<open>Blocked\<close> when it waits for something that never comes (no deadline, and the
  environment has nothing more to say). The combinators are Python's sequencing and \<open>try\<close>.

  The locale \<open>step_order\<close> is the interface between a relation "what may change" and the programs
  that keep to it: a reflexive and transitive relation between the state before and after is kept
  by every combinator, so it has to be checked for the primitive steps only.
\<close>

datatype 'a outcome = Return 'a | Raise exc | Blocked

type_synonym ('s, 'a) prog = "'s \<Rightarrow> 'a outcome \<times> 's"

definition pret :: "'a \<Rightarrow> ('s, 'a) prog" where
  "pret x s = (Return x, s)"

definition praise :: "exc \<Rightarrow> ('s, 'a) prog" where
  "praise e s = (Raise e, s)"

definition plift :: "'a result \<Rightarrow> ('s, 'a) prog" where
  "plift r s = (case r of Inl e \<Rightarrow> (Raise e, s) | Inr x \<Rightarrow> (Return x, s))"

definition pget :: "('s \<Rightarrow> 'a) \<Rightarrow> ('s, 'a) prog" where
  "pget f s = (Return (f s), s)"

definition pmodify :: "('s \<Rightarrow> 's) \<Rightarrow> ('s, unit) prog" where
  "pmodify f s = (Return (), f s)"

definition pbind :: "('s, 'a) prog \<Rightarrow> ('a \<Rightarrow> ('s, 'b) prog) \<Rightarrow> ('s, 'b) prog" where
  "pbind m k s = (case m s of
      (Return x, s') \<Rightarrow> k x s'
    | (Raise e, s') \<Rightarrow> (Raise e, s')
    | (Blocked, s') \<Rightarrow> (Blocked, s'))"

text \<open>\<open>try: m except ...: h\<close>; the handler decides, and re-raises what it does not catch.\<close>

definition pcatch :: "('s, 'a) prog \<Rightarrow> (exc \<Rightarrow> ('s, 'a) prog) \<Rightarrow> ('s, 'a) prog" where
  "pcatch m h s = (case m s of
      (Return x, s') \<Rightarrow> (Return x, s')
    | (Raise e, s') \<Rightarrow> h e s'
    | (Blocked, s') \<Rightarrow> (Blocked, s'))"

text \<open>\<open>except c as error: raise d from error\<close>.\<close>

definition pwrap :: "exc_class \<Rightarrow> exc_class \<Rightarrow> ('s, 'a) prog \<Rightarrow> ('s, 'a) prog" where
  "pwrap c d m = pcatch m (\<lambda>e. praise (if catches c e then Exc d else e))"

lemmas prog_defs = pret_def praise_def plift_def pget_def pmodify_def pbind_def pcatch_def pwrap_def

lemma plift_Inr [simp]: "plift (Inr x) s = (Return x, s)"
  and plift_Inl [simp]: "plift (Inl e) s = (Raise e, s)"
  by (simp_all add: plift_def)

lemma plift_eq_Return [simp]: "plift r s = (Return x, t) \<longleftrightarrow> r = Inr x \<and> t = s"
  and plift_eq_Raise [simp]: "plift r s = (Raise e, t) \<longleftrightarrow> r = Inl e \<and> t = s"
  and plift_eq_Blocked [simp]: "plift r s \<noteq> (Blocked, t)"
  by (auto simp: plift_def split: sum.split)

text \<open>A bind whose first part has a known outcome.\<close>

lemma pbind_Return: "m s = (Return x, t) \<Longrightarrow> pbind m k s = k x t"
  and pbind_Raise: "m s = (Raise e, t) \<Longrightarrow> pbind m k s = (Raise e, t)"
  and pbind_Blocked: "m s = (Blocked, t) \<Longrightarrow> pbind m k s = (Blocked, t)"
  by (simp_all add: pbind_def)

lemma pbind_pget: "pbind (pget f) k s = k (f s) s"
  and pbind_plift: "pbind (plift r) k s = (case r of Inl e \<Rightarrow> (Raise e, s) | Inr x \<Rightarrow> k x s)"
  by (simp_all add: pbind_def pget_def plift_def split: sum.split)

lemma pbind_assoc: "pbind (pbind m k) l = pbind m (\<lambda>x. pbind (k x) l)"
  and pbind_pret: "pbind (pret x) k = k x"
  by (auto simp: pbind_def pret_def split: prod.splits outcome.splits)

lemma pcatch_Return: "m s = (Return x, t) \<Longrightarrow> pcatch m h s = (Return x, t)"
  and pcatch_Raise: "m s = (Raise e, t) \<Longrightarrow> pcatch m h s = h e t"
  and pcatch_Blocked: "m s = (Blocked, t) \<Longrightarrow> pcatch m h s = (Blocked, t)"
  by (simp_all add: pcatch_def)

lemma pbind_eq_Return:
  "pbind m k s = (Return y, u) \<longleftrightarrow> (\<exists>x t. m s = (Return x, t) \<and> k x t = (Return y, u))"
  by (auto simp: pbind_def split: prod.splits outcome.splits)

lemma pbind_eq_Raise:
  "pbind m k s = (Raise e, u) \<longleftrightarrow>
     m s = (Raise e, u) \<or> (\<exists>x t. m s = (Return x, t) \<and> k x t = (Raise e, u))"
  by (auto simp: pbind_def split: prod.splits outcome.splits)

section \<open>What programs may change\<close>

definition keeps :: "('s \<Rightarrow> 's \<Rightarrow> bool) \<Rightarrow> ('s, 'a) prog \<Rightarrow> bool" where
  "keeps R m \<longleftrightarrow> (\<forall>s. R s (snd (m s)))"

lemma keepsI: "(\<And>s r t. m s = (r, t) \<Longrightarrow> R s t) \<Longrightarrow> keeps R m"
  by (simp add: keeps_def) (metis prod.collapse)

lemma keepsD: "keeps R m \<Longrightarrow> m s = (r, t) \<Longrightarrow> R s t"
  by (metis keeps_def snd_conv)

locale step_order =
  fixes R :: "'s \<Rightarrow> 's \<Rightarrow> bool"
  assumes R_refl: "R s s"
    and R_trans: "R s t \<Longrightarrow> R t u \<Longrightarrow> R s u"
begin

lemma keeps_pure [wp]:
  "keeps R (pret x)" "keeps R (praise e)" "keeps R (plift r)" "keeps R (pget f)"
  by (simp_all add: keeps_def pret_def praise_def plift_def pget_def R_refl split: sum.split)

lemma keeps_pbind [wp]:
  assumes "keeps R m" and "\<And>x. keeps R (k x)"
  shows "keeps R (pbind m k)"
proof (rule keepsI)
  fix s r u assume b: "pbind m k s = (r, u)"
  obtain q t where m: "m s = (q, t)" by fastforce
  have "R s t" using keepsD [OF assms(1) m] .
  moreover have "R t u"
    using b m keepsD [OF assms(2), of _ t r u]
    by (cases q) (auto simp: pbind_def R_refl)
  ultimately show "R s u" by (rule R_trans)
qed

lemma keeps_pcatch [wp]:
  assumes "keeps R m" and "\<And>e. keeps R (h e)"
  shows "keeps R (pcatch m h)"
proof (rule keepsI)
  fix s r u assume b: "pcatch m h s = (r, u)"
  obtain q t where m: "m s = (q, t)" by fastforce
  have "R s t" using keepsD [OF assms(1) m] .
  moreover have "R t u"
    using b m keepsD [OF assms(2), of _ t r u]
    by (cases q) (auto simp: pcatch_def R_refl)
  ultimately show "R s u" by (rule R_trans)
qed

lemma keeps_pwrap [wp]: "keeps R m \<Longrightarrow> keeps R (pwrap c d m)"
  by (simp add: pwrap_def keeps_pcatch keeps_pure)

lemma keeps_if [wp]: "keeps R m \<Longrightarrow> keeps R n \<Longrightarrow> keeps R (if b then m else n)"
  by simp

lemma keeps_pmodify: "(\<And>s. R s (f s)) \<Longrightarrow> keeps R (pmodify f)"
  by (simp add: keeps_def pmodify_def)

end

end
