(* ===== verification/Network.thy ===== *)
theory Network
  imports Effects Reconnect PyText "HOL-Library.Sublist"
begin

text \<open>
  The environment of the client: the clock, the servers it dials, the sockets it gets, the random
  numbers it draws, all as scripts. The properties quantify over the scripts, so they cover every
  behaviour of a network and a server.
  \<^item> A socket's incoming side is a list of arrivals, each with the time from which it can be read;
    bytes that were not read stay for the next \<open>recv\<close>, an end of stream or a reset stays for good.
    When the list is used up nothing ever arrives again.
  \<^item> A socket's outgoing side is a list with the fate of each \<open>sendall\<close>: all bytes handed to the
    kernel, or only some before an error or a stall. \<open>sendall\<close> raises OSError only while bytes are
    left, so a broken send has handed over fewer bytes than it was given.
  \<^item> \<open>trace\<close> records what the client did: dials, TLS handshakes, bytes handed over, closes, sleeps.
  Time passes while the client waits, connects or sleeps; computing takes none.
\<close>

datatype arrival = Chunk real bytes | Eof real | Reset real

datatype sending = Sent real | Broken real nat | Stalled nat

record sock =
  rx :: "arrival list"
  tx :: "sending list"
  so_timeout :: "real option"
  usable :: bool

datatype tls_result = TlsOk real | TlsFail real

datatype dial = Refused real | Accepted real tls_result sock

datatype net_event =
    NetDial pystr int | NetTLS pystr | NetSend bytes | NetClose | NetSleep real

record world =
  now :: real
  dials :: "dial list"
  jitter :: "nat \<Rightarrow> real"
  draws :: nat
  trace :: "net_event list"

definition elapse :: "real \<Rightarrow> world \<Rightarrow> world" where
  "elapse dt w = w\<lparr>now := now w + max 0 dt\<rparr>"

definition record_event :: "net_event \<Rightarrow> world \<Rightarrow> world" where
  "record_event e w = w\<lparr>trace := trace w @ [e]\<rparr>"

section \<open>Sockets\<close>

text \<open>Whether something that becomes readable at \<open>t0\<close> is readable within the socket's timeout.\<close>

definition in_time :: "sock \<Rightarrow> real \<Rightarrow> real \<Rightarrow> bool" where
  "in_time sk t t0 \<longleftrightarrow> (case so_timeout sk of None \<Rightarrow> True | Some d \<Rightarrow> t0 \<le> t + d)"

text \<open>Waiting in vain: TimeoutError after the timeout, or for ever without one.\<close>

definition wait_out :: "sock \<Rightarrow> real \<Rightarrow> 'a outcome \<times> real" where
  "wait_out sk t = (case so_timeout sk of
      None \<Rightarrow> (Blocked, t)
    | Some d \<Rightarrow> (Raise (Exc PyTimeoutError), t + max 0 d))"

definition sock_recv :: "nat \<Rightarrow> sock \<Rightarrow> real \<Rightarrow> bytes outcome \<times> sock \<times> real" where
  "sock_recv n sk t =
     (let timed_out = (case wait_out sk t of (r, t') \<Rightarrow> (r, sk, t')) in
      case rx sk of
        [] \<Rightarrow> timed_out
      | Chunk t0 bs # rest \<Rightarrow>
          if in_time sk t t0
          then (Return (take n bs),
                sk\<lparr>rx := (if length bs \<le> n then rest else Chunk t0 (drop n bs) # rest)\<rparr>, max t t0)
          else timed_out
      | Eof t0 # rest \<Rightarrow> if in_time sk t t0 then (Return [], sk, max t t0) else timed_out
      | Reset t0 # rest \<Rightarrow>
          if in_time sk t t0 then (Raise (Exc PyOSError), sk, max t t0) else timed_out)"

text \<open>The outcome, the bytes handed to the kernel, the socket and the time after \<open>sendall\<close>.\<close>

definition sock_sendall :: "bytes \<Rightarrow> sock \<Rightarrow> real \<Rightarrow> unit outcome \<times> bytes \<times> sock \<times> real" where
  "sock_sendall bs sk t = (case tx sk of
      [] \<Rightarrow> (Return (), bs, sk, t)
    | Sent dt # rest \<Rightarrow> (Return (), bs, sk\<lparr>tx := rest\<rparr>, t + max 0 dt)
    | Broken dt k # rest \<Rightarrow>
        (Raise (Exc PyOSError), take (min k (length bs - 1)) bs, sk\<lparr>tx := rest\<rparr>, t + max 0 dt)
    | Stalled k # rest \<Rightarrow>
        (case wait_out sk t of (r, t') \<Rightarrow> (r, take k bs, sk\<lparr>tx := rest\<rparr>, t')))"

definition sock_settimeout :: "real option \<Rightarrow> sock \<Rightarrow> unit outcome \<times> sock" where
  "sock_settimeout d sk =
     (if usable sk then (Return (), sk\<lparr>so_timeout := d\<rparr>) else (Raise (Exc PyOSError), sk))"

section \<open>Dialing, drawing, sleeping\<close>

text \<open>
  \<open>socket.create_connection((host, port), timeout)\<close>: the next entry of the script, or a refusal
  when it is used up. The new socket keeps the timeout.
\<close>

definition create_connection :: "pystr \<Rightarrow> int \<Rightarrow> real \<Rightarrow> (world, tls_result \<times> sock) prog" where
  "create_connection host port timeout w =
     (let w = record_event (NetDial host port) w in
      case dials w of
        [] \<Rightarrow> (Raise (Exc PyOSError), w)
      | Refused dt # rest \<Rightarrow> (Raise (Exc PyOSError), elapse dt (w\<lparr>dials := rest\<rparr>))
      | Accepted dt tls sk # rest \<Rightarrow>
          (Return (tls, sk\<lparr>so_timeout := Some timeout\<rparr>), elapse dt (w\<lparr>dials := rest\<rparr>)))"

text \<open>\<open>wrap_socket(sock, server_hostname=...)\<close>, with the fate of the handshake the dial brought.\<close>

definition wrap_socket :: "pystr \<Rightarrow> tls_result \<Rightarrow> (world, unit) prog" where
  "wrap_socket hostname tls w = (case tls of
      TlsOk dt \<Rightarrow> (Return (), elapse dt (record_event (NetTLS hostname) w))
    | TlsFail dt \<Rightarrow> (Raise (Exc PyOSError), elapse dt (record_event (NetTLS hostname) w)))"

definition draw_jitter :: "(world, real) prog" where
  "draw_jitter w = (Return (jitter w (draws w)), w\<lparr>draws := Suc (draws w)\<rparr>)"

definition sleep :: "real \<Rightarrow> (world, unit) prog" where
  "sleep d w = (Return (), elapse d (record_event (NetSleep d) w))"

section \<open>Facts about sockets\<close>

text \<open>How many bytes a socket can still deliver: what bounds every read loop.\<close>

fun arrival_size :: "arrival \<Rightarrow> nat" where
  "arrival_size (Chunk t bs) = length bs"
| "arrival_size (Eof t) = 0"
| "arrival_size (Reset t) = 0"

definition rx_size :: "sock \<Rightarrow> nat" where
  "rx_size sk = sum_list (map arrival_size (rx sk))"

lemma wait_out_not_Return: "wait_out sk t \<noteq> (Return x, t')"
  by (simp add: wait_out_def split: option.split)

lemma wait_out_time: "wait_out sk t = (r, t') \<Longrightarrow> t \<le> t'"
  by (auto simp: wait_out_def split: option.splits)

lemma sock_recv_size:
  "sock_recv n sk t = (r, sk', t') \<Longrightarrow> rx_size sk' \<le> rx_size sk"
  by (auto simp: sock_recv_def rx_size_def Let_def split: list.splits arrival.splits prod.splits if_splits)

lemma sock_recv_Return:
  assumes "sock_recv n sk t = (Return bs, sk', t')"
  shows "length bs \<le> n \<and> rx_size sk = length bs + rx_size sk'"
  using assms
  by (auto simp: sock_recv_def rx_size_def Let_def wait_out_not_Return
      split: list.splits arrival.splits prod.splits if_splits)

lemma sock_recv_time: "sock_recv n sk t = (r, sk', t') \<Longrightarrow> t \<le> t'"
  by (auto simp: sock_recv_def Let_def dest: wait_out_time
      split: list.splits arrival.splits prod.splits if_splits)

lemma sock_sendall_time: "sock_sendall bs sk t = (r, h, sk', t') \<Longrightarrow> t \<le> t'"
  by (auto simp: sock_sendall_def dest: wait_out_time split: list.splits sending.splits prod.splits)

lemma sock_sendall_handed:
  "sock_sendall bs sk t = (r, h, sk', t') \<Longrightarrow>
     (r = Return () \<longrightarrow> h = bs) \<and> (r = Raise (Exc PyOSError) \<longrightarrow> bs \<noteq> [] \<longrightarrow> length h < length bs) \<and>
     prefix h bs"
  by (auto simp: sock_sendall_def wait_out_def split: list.splits sending.splits prod.splits option.splits
      simp: min_less_iff_disj take_is_prefix)

end
