(* ===== verification/Connection.thy ===== *)
theory Connection
  imports Network Framing Commands Chunked
begin

text \<open>
  \<open>fq/sync/connection.py\<close>: one connection to a server. The record holds the attributes of the class;
  \<open>cn_sock\<close> is \<open>_sock\<close> (None when closed). Every method is a program over the connection and the
  world; \<open>conn_recv\<close>, \<open>conn_sendall\<close> and \<open>conn_settimeout\<close> are the socket calls.
\<close>

record connection =
  cn_address :: pystr
  cn_token :: "pystr option"
  cn_ssl_context :: "SSLContext option"
  cn_server_hostname :: "pystr option"
  cn_connect_timeout :: real
  cn_sock :: "sock option"
  cn_max_message_size :: int
  cn_role :: pystr
  cn_auth_required :: bool
  cn_request_in_flight :: bool

type_synonym cstate = "connection \<times> world"

definition COLON :: nat where
  "COLON = 0x3A"

definition split_address :: "pystr \<Rightarrow> (pystr \<times> int) result" where
  "split_address address = (case rpartition_at COLON address of (host, separator, port) \<Rightarrow>
     if \<not> separator \<or> \<not> str_isdigit port then Inl (Exc PyValueError)
     else sbind (int_of_str port) (\<lambda>n. Inr (host, n)))"

definition Connection_new ::
  "pystr \<Rightarrow> pystr option \<Rightarrow> SSLContext option \<Rightarrow> pystr option \<Rightarrow> real \<Rightarrow> connection" where
  "Connection_new address token ssl_context server_hostname connect_timeout =
     \<lparr>cn_address = address, cn_token = token, cn_ssl_context = ssl_context,
      cn_server_hostname = server_hostname, cn_connect_timeout = connect_timeout, cn_sock = None,
      cn_max_message_size = DEFAULT_MAX_MESSAGE_SIZE, cn_role = [], cn_auth_required = False,
      cn_request_in_flight = False\<rparr>"

definition Connection_closed :: "connection \<Rightarrow> bool" where
  "Connection_closed c \<longleftrightarrow> cn_sock c = None"

section \<open>Primitives\<close>

definition on_world :: "(world, 'a) prog \<Rightarrow> (cstate, 'a) prog" where
  "on_world m s = (case s of (c, w) \<Rightarrow> (case m w of (r, w') \<Rightarrow> (r, (c, w'))))"

definition clock :: "(cstate, real) prog" where
  "clock = pget (\<lambda>(c, w). now w)"

definition set_in_flight :: "bool \<Rightarrow> (cstate, unit) prog" where
  "set_in_flight b = pmodify (\<lambda>(c, w). (c\<lparr>cn_request_in_flight := b\<rparr>, w))"

definition conn_recv :: "nat \<Rightarrow> (cstate, bytes) prog" where
  "conn_recv n s = (case s of (c, w) \<Rightarrow> (case cn_sock c of
      None \<Rightarrow> (Raise (Exc PyOSError), (c, w))
    | Some sk \<Rightarrow> (case sock_recv n sk (now w) of
        (r, sk', t) \<Rightarrow> (r, (c\<lparr>cn_sock := Some sk'\<rparr>, w\<lparr>now := t\<rparr>)))))"

definition conn_sendall :: "bytes \<Rightarrow> (cstate, unit) prog" where
  "conn_sendall bs s = (case s of (c, w) \<Rightarrow> (case cn_sock c of
      None \<Rightarrow> (Raise (Exc PyOSError), (c, w))
    | Some sk \<Rightarrow> (case sock_sendall bs sk (now w) of
        (r, handed, sk', t) \<Rightarrow>
          (r, (c\<lparr>cn_sock := Some sk'\<rparr>, record_event (NetSend handed) (w\<lparr>now := t\<rparr>))))))"

definition conn_settimeout :: "real option \<Rightarrow> (cstate, unit) prog" where
  "conn_settimeout d s = (case s of (c, w) \<Rightarrow> (case cn_sock c of
      None \<Rightarrow> (Raise (Exc PyOSError), (c, w))
    | Some sk \<Rightarrow> (case sock_settimeout d sk of (r, sk') \<Rightarrow> (r, (c\<lparr>cn_sock := Some sk'\<rparr>, w)))))"

section \<open>Frames\<close>

definition Connection_require_socket :: "(cstate, unit) prog" where
  "Connection_require_socket s =
     (if cn_sock (fst s) = None then (Raise (Exc FQConnectionError), s) else (Return (), s))"

definition Connection_apply_timeout :: "Deadline \<Rightarrow> (cstate, unit) prog" where
  "Connection_apply_timeout dl = pbind clock (\<lambda>t. pbind (plift (Deadline_check dl t)) (\<lambda>_.
     pwrap PyOSError FQConnectionError (conn_settimeout (Deadline_remaining dl t))))"

function read_exactly_loop :: "nat \<Rightarrow> bytes \<Rightarrow> cstate \<Rightarrow> bytes outcome \<times> cstate" where
  "read_exactly_loop n buffer s =
     (if n \<le> length buffer then (Return buffer, s)
      else case conn_recv (n - length buffer) s of
        (Raise e, s') \<Rightarrow>
          (Raise (if catches PyTimeoutError e then Exc FQTimeoutError
                  else if catches PyOSError e then Exc FQConnectionError else e), s')
      | (Blocked, s') \<Rightarrow> (Blocked, s')
      | (Return chunk, s') \<Rightarrow>
          (if chunk = [] then (Raise (Exc FQConnectionError), s')
           else read_exactly_loop n (buffer @ chunk) s'))"
  by pat_completeness auto
termination
  by (relation "measure (\<lambda>(n, buffer, s). n - length buffer)") (auto intro!: diff_less_mono2)

declare read_exactly_loop.simps [simp del]

definition Connection_read_exactly :: "nat \<Rightarrow> (cstate, bytes) prog" where
  "Connection_read_exactly n = read_exactly_loop n []"

definition Connection_read_frame :: "Deadline \<Rightarrow> (cstate, bytes) prog" where
  "Connection_read_frame dl = pbind Connection_require_socket (\<lambda>_.
     pbind (Connection_apply_timeout dl) (\<lambda>_.
     pbind (Connection_read_exactly FRAME_HEADER_SIZE) (\<lambda>header.
     pbind (pget (\<lambda>(c, w). cn_max_message_size c)) (\<lambda>limit.
     pbind (plift (decode_frame_size header limit)) (\<lambda>size.
       if size = 0 then pret [] else Connection_read_exactly size)))))"

definition Connection_write_request :: "Command \<Rightarrow> Deadline \<Rightarrow> (cstate, unit) prog" where
  "Connection_write_request command dl =
     pbind (pget (\<lambda>(c, w). cn_max_message_size c)) (\<lambda>limit.
     pbind (plift (check_request_size (payload command) limit)) (\<lambda>_.
     pbind Connection_require_socket (\<lambda>_.
     pbind (Connection_apply_timeout dl) (\<lambda>_.
     pbind (pcatch (pbind (plift (encode_frame (payload command))) conn_sendall)
       (\<lambda>e. if catches PyTimeoutError e
            then pbind (set_in_flight True) (\<lambda>_. praise (Exc FQTimeoutError))
            else if catches PyOSError e then praise (Exc FQConnectionError)
            else praise e)) (\<lambda>_.
     set_in_flight True)))))"

definition Connection_send :: "Command \<Rightarrow> Deadline \<Rightarrow> (cstate, bytes) prog" where
  "Connection_send command dl = pbind (Connection_write_request command dl) (\<lambda>_.
     pbind (Connection_read_frame dl) (\<lambda>response.
     pbind (set_in_flight False) (\<lambda>_. pret response)))"

section \<open>Opening and closing\<close>

definition Connection_close :: "(cstate, unit) prog" where
  "Connection_close s = (case s of (c, w) \<Rightarrow> (case cn_sock c of
      None \<Rightarrow> (Return (), (c, w))
    | Some sk \<Rightarrow> (Return (), (c\<lparr>cn_sock := None\<rparr>, record_event NetClose w))))"

definition apply_hello :: "HelloInfo \<Rightarrow> connection \<Rightarrow> connection" where
  "apply_hello info c = c\<lparr>cn_max_message_size := hi_max_message_size info,
     cn_auth_required := hi_auth_required info, cn_role := hi_role info\<rparr>"

definition Connection_handshake :: "(cstate, unit) prog" where
  "Connection_handshake = pbind (pget fst) (\<lambda>c.
     pbind (plift (hello (cn_token c))) (\<lambda>command.
     pbind clock (\<lambda>t.
     pbind (Connection_send command (Deadline_new (Some (cn_connect_timeout c)) t)) (\<lambda>response.
     pbind (plift (parse_hello response)) (\<lambda>info.
       if hi_version info \<noteq> PROTOCOL_VERSION then praise (Exc CorruptedResponseError)
       else pmodify (\<lambda>(c, w). (apply_hello info c, w)))))))"

text \<open>\<open>self._server_hostname or host\<close>\<close>

definition tls_hostname :: "connection \<Rightarrow> pystr \<Rightarrow> pystr" where
  "tls_hostname c host = (case cn_server_hostname c of
      None \<Rightarrow> host | Some h \<Rightarrow> if h = [] then host else h)"

definition Connection_tls :: "connection \<Rightarrow> pystr \<Rightarrow> tls_result \<Rightarrow> (cstate, unit) prog" where
  "Connection_tls c host tls = (if cn_ssl_context c = None then pret ()
     else pcatch (on_world (wrap_socket (tls_hostname c host) tls)) (\<lambda>e.
       if catches PyOSError e
       then pbind (pmodify (\<lambda>(c, w). (c, record_event NetClose w))) (\<lambda>_. praise (Exc FQConnectionError))
       else praise e))"

definition install_socket :: "sock \<Rightarrow> connection \<Rightarrow> connection" where
  "install_socket sk c = c\<lparr>cn_sock := Some sk, cn_max_message_size := DEFAULT_MAX_MESSAGE_SIZE,
     cn_request_in_flight := False\<rparr>"

definition Connection_connect :: "(cstate, unit) prog" where
  "Connection_connect = pbind (pget fst) (\<lambda>c.
     pbind (plift (split_address (cn_address c))) (\<lambda>(host, port).
     pbind (pwrap PyOSError FQConnectionError
              (on_world (create_connection host port (cn_connect_timeout c)))) (\<lambda>(tls, sk).
     pbind (Connection_tls c host tls) (\<lambda>_.
     pbind (pmodify (\<lambda>(c, w). (install_socket sk c, w))) (\<lambda>_.
       pcatch Connection_handshake (\<lambda>e. pbind Connection_close (\<lambda>_. praise e)))))))"

definition Connection_reconnect :: "(cstate, unit) prog" where
  "Connection_reconnect = pbind Connection_close (\<lambda>_. Connection_connect)"

section \<open>Reading makes progress\<close>

definition conn_rx_size :: "cstate \<Rightarrow> nat" where
  "conn_rx_size s = (case cn_sock (fst s) of None \<Rightarrow> 0 | Some sk \<Rightarrow> rx_size sk)"

lemma conn_recv_Return:
  "conn_recv n s = (Return bs, s') \<Longrightarrow> length bs \<le> n \<and> conn_rx_size s = length bs + conn_rx_size s'"
  by (auto simp: conn_recv_def conn_rx_size_def dest: sock_recv_Return
      split: prod.splits option.splits)

lemma read_exactly_loop_Return:
  "read_exactly_loop n buffer s = (Return bs, s') \<Longrightarrow> length buffer \<le> n \<Longrightarrow>
     length bs = n \<and> conn_rx_size s + length buffer = n + conn_rx_size s'"
proof (induction n buffer s arbitrary: bs s' rule: read_exactly_loop.induct)
  case (1 n buffer s)
  show ?case
  proof (cases "n \<le> length buffer")
    case True
    with 1(2,3) show ?thesis by (simp add: read_exactly_loop.simps)
  next
    case False
    with 1(2) obtain chunk t where r: "conn_recv (n - length buffer) s = (Return chunk, t)"
      "chunk \<noteq> []" "read_exactly_loop n (buffer @ chunk) t = (Return bs, s')"
      by (subst (asm) read_exactly_loop.simps) (auto split: prod.splits outcome.splits if_splits)
    from conn_recv_Return [OF r(1)]
    have size: "length chunk \<le> n - length buffer" "conn_rx_size s = length chunk + conn_rx_size t"
      by auto
    with False have "length (buffer @ chunk) \<le> n" by simp
    from 1(1) [OF False r(1) [symmetric] refl r(2,3) this] show ?thesis
      using size by simp
  qed
qed

lemma Connection_read_exactly_Return:
  "Connection_read_exactly n s = (Return bs, s') \<Longrightarrow> length bs = n \<and> conn_rx_size s = n + conn_rx_size s'"
  using read_exactly_loop_Return [of n "[]" s bs s'] by (simp add: Connection_read_exactly_def)

lemma require_socket_Return:
  "Connection_require_socket s = (Return x, t) \<Longrightarrow> t = s \<and> cn_sock (fst s) \<noteq> None"
  by (auto simp: Connection_require_socket_def split: if_splits)

lemma conn_settimeout_rx: "conn_settimeout d s = (r, t) \<Longrightarrow> conn_rx_size t = conn_rx_size s"
  by (auto simp: conn_settimeout_def sock_settimeout_def conn_rx_size_def rx_size_def
      split: prod.splits option.splits if_splits)

lemma apply_timeout_rx: "Connection_apply_timeout dl s = (r, t) \<Longrightarrow> conn_rx_size t = conn_rx_size s"
  by (auto simp: Connection_apply_timeout_def clock_def prog_defs dest!: conn_settimeout_rx
      split: prod.splits outcome.splits sum.splits)

lemma read_frame_Return:
  assumes "Connection_read_frame dl s = (Return f, t)"
  shows "conn_rx_size s = length f + 4 + conn_rx_size t"
proof -
  obtain s1 header s2 where a: "Connection_apply_timeout dl s = (Return (), s1)"
    and h: "Connection_read_exactly FRAME_HEADER_SIZE s1 = (Return header, s2)"
    and rest: "pbind (plift (decode_frame_size header (cn_max_message_size (fst s2)))) (\<lambda>size.
       if size = 0 then pret [] else Connection_read_exactly size) s2 = (Return f, t)"
    using assms
    by (auto simp: Connection_read_frame_def pbind_eq_Return pget_def case_prod_unfold
        dest!: require_socket_Return)
  have "conn_rx_size s2 = length f + conn_rx_size t"
    using rest by (auto simp: pbind_eq_Return pret_def split: if_splits
        dest: Connection_read_exactly_Return)
  then show ?thesis
    using apply_timeout_rx [OF a] Connection_read_exactly_Return [OF h]
    by (simp add: FRAME_HEADER_SIZE_def)
qed

section \<open>Split responses and streams\<close>

text \<open>
  The \<open>while True\<close> loop of \<open>send_chunked\<close>. Every frame takes at least its four header bytes from
  what the socket still delivers, so the loop ends: with a response, an exception, or blocked.
\<close>

function send_chunked_loop :: "Deadline \<Rightarrow> assembler \<Rightarrow> cstate \<Rightarrow> bytes outcome \<times> cstate" where
  "send_chunked_loop dl assembler s = (case Connection_read_frame dl s of
      (Raise e, s') \<Rightarrow> (Raise e, s')
    | (Blocked, s') \<Rightarrow> (Blocked, s')
    | (Return frame, s') \<Rightarrow> (case ChunkAssembler_feed assembler frame of
        (Inl e, assembler') \<Rightarrow> (Raise e, s')
      | (Inr (Some response), assembler') \<Rightarrow> pbind (set_in_flight False) (\<lambda>_. pret response) s'
      | (Inr None, assembler') \<Rightarrow> send_chunked_loop dl assembler' s'))"
  by pat_completeness auto
termination
  by (relation "measure (\<lambda>(dl, assembler, s). conn_rx_size s)")
     (auto dest!: sym [of _ "Connection_read_frame _ _"] read_frame_Return)

declare send_chunked_loop.simps [simp del]

definition Connection_send_chunked :: "Command \<Rightarrow> Deadline \<Rightarrow> (cstate, bytes) prog" where
  "Connection_send_chunked command dl = pbind (Connection_write_request command dl) (\<lambda>_.
     send_chunked_loop dl ChunkAssembler_new)"

text \<open>
  \<open>open_stream\<close> is a generator: its first step writes the request, every later step reads one frame,
  or gives None when a poll interval is set and nothing arrived within it.
\<close>

definition Connection_open_stream :: "Command \<Rightarrow> (cstate, unit) prog" where
  "Connection_open_stream command =
     pbind clock (\<lambda>t. Connection_write_request command (Deadline_new None t))"

definition Connection_stream_next :: "real option \<Rightarrow> (cstate, bytes option) prog" where
  "Connection_stream_next poll_interval = pbind clock (\<lambda>t. (case poll_interval of
      None \<Rightarrow> pbind (Connection_read_frame (Deadline_new None t)) (\<lambda>f. pret (Some f))
    | Some interval \<Rightarrow>
        pcatch (pbind (Connection_read_frame (Deadline_new (Some interval) t)) (\<lambda>f. pret (Some f)))
          (\<lambda>e. if catches FQTimeoutError e then pret None else praise e)))"

end
