(* ===== verification/ConnectionFacts.thy ===== *)
theory ConnectionFacts
  imports Connection
begin

text \<open>
  What holds of a connection: time and the trace only move forward, reading sends nothing, which
  bytes a request puts on the wire and what the in-flight flag says about them, and that a frame is
  read correctly however the network fragments it.
\<close>

section \<open>Only forward\<close>

text \<open>
  \<open>later s t\<close>: the clock has not gone back and the trace was only appended to. \<open>quiet s t\<close>: nothing
  was sent between \<open>s\<close> and \<open>t\<close>. Both are interpretations of \<open>step_order\<close>.
\<close>

definition sends :: "world \<Rightarrow> bytes list" where
  "sends w = concat (map (\<lambda>e. case e of NetSend bs \<Rightarrow> [bs] | _ \<Rightarrow> []) (trace w))"

definition later :: "cstate \<Rightarrow> cstate \<Rightarrow> bool" where
  "later s t \<longleftrightarrow> now (snd s) \<le> now (snd t) \<and> (\<exists>k. trace (snd t) = trace (snd s) @ k)"

definition quiet :: "cstate \<Rightarrow> cstate \<Rightarrow> bool" where
  "quiet s t \<longleftrightarrow> sends (snd t) = sends (snd s) \<and> (cn_sock (fst s) \<noteq> None \<longrightarrow> cn_sock (fst t) \<noteq> None) \<and>
     cn_request_in_flight (fst t) = cn_request_in_flight (fst s)"

interpretation forward: step_order later
proof
  fix s t u :: cstate
  show "later s s" by (simp add: later_def)
  show "later s t \<Longrightarrow> later t u \<Longrightarrow> later s u" by (auto simp: later_def)
qed

interpretation reading: step_order quiet
  by unfold_locales (auto simp: quiet_def)

lemma sends_record [simp]:
  "sends (record_event e w) = sends w @ (case e of NetSend bs \<Rightarrow> [bs] | _ \<Rightarrow> [])"
  by (simp add: sends_def record_event_def)

lemma sends_now [simp]: "sends (w\<lparr>now := t\<rparr>) = sends w" "sends (elapse dt w) = sends w"
  by (simp_all add: sends_def elapse_def)

lemma trace_record [simp]: "trace (record_event e w) = trace w @ [e]" "now (record_event e w) = now w"
  by (simp_all add: record_event_def)

lemma elapse_simps [simp]: "now (elapse dt w) = now w + max 0 dt" "trace (elapse dt w) = trace w"
  by (simp_all add: elapse_def)

subsection \<open>The primitives\<close>

lemma later_recv [wp]: "keeps later (conn_recv n)"
  by (rule keepsI) (auto simp: conn_recv_def later_def dest: sock_recv_time
      split: prod.splits option.splits)

lemma later_sendall [wp]: "keeps later (conn_sendall bs)"
  by (rule keepsI) (auto simp: conn_sendall_def later_def dest: sock_sendall_time
      split: prod.splits option.splits)

lemma later_settimeout [wp]: "keeps later (conn_settimeout d)"
  by (rule keepsI) (auto simp: conn_settimeout_def later_def split: prod.splits option.splits)

lemma later_flag [wp]: "keeps later (set_in_flight b)"
  by (rule keepsI) (auto simp: set_in_flight_def pmodify_def later_def split: prod.splits)

lemma later_require [wp]: "keeps later Connection_require_socket"
  by (rule keepsI) (auto simp: Connection_require_socket_def later_def split: if_splits)

lemma later_close [wp]: "keeps later Connection_close"
  by (rule keepsI) (auto simp: Connection_close_def later_def split: prod.splits option.splits)

lemma later_create [wp]: "keeps later (on_world (create_connection h p t))"
  by (rule keepsI) (auto simp: on_world_def create_connection_def later_def Let_def
      split: prod.splits list.splits dial.splits)

lemma later_wrap [wp]: "keeps later (on_world (wrap_socket h tls))"
  by (rule keepsI) (auto simp: on_world_def wrap_socket_def later_def
      split: prod.splits tls_result.splits)

lemma quiet_recv [wp]: "keeps quiet (conn_recv n)"
  by (rule keepsI) (auto simp: conn_recv_def quiet_def split: prod.splits option.splits)

lemma quiet_settimeout [wp]: "keeps quiet (conn_settimeout d)"
  by (rule keepsI) (auto simp: conn_settimeout_def quiet_def split: prod.splits option.splits)

lemma quiet_require [wp]: "keeps quiet Connection_require_socket"
  by (rule keepsI) (auto simp: Connection_require_socket_def quiet_def split: if_splits)

subsection \<open>The methods\<close>

lemma read_loop_keeps:
  assumes "step_order R" and "\<And>n. keeps R (conn_recv n)"
  shows "keeps R (read_exactly_loop n buffer)"
proof (rule keepsI)
  fix s r t
  show "read_exactly_loop n buffer s = (r, t) \<Longrightarrow> R s t"
  proof (induction n buffer s arbitrary: r t rule: read_exactly_loop.induct)
    case (1 n buffer s)
    show ?case
    proof (cases "n \<le> length buffer")
      case True
      with 1(2) show ?thesis by (simp add: read_exactly_loop.simps step_order.R_refl [OF assms(1)])
    next
      case False
      obtain q u where q: "conn_recv (n - length buffer) s = (q, u)"
        by (cases "conn_recv (n - length buffer) s")
      have su: "R s u" using keepsD [OF assms(2) q] .
      show ?thesis
      proof (cases "\<exists>chunk. q = Return chunk \<and> chunk \<noteq> []")
        case True
        then obtain chunk where chunk: "q = Return chunk" "chunk \<noteq> []" by blast
        have "read_exactly_loop n (buffer @ chunk) u = (r, t)"
          using 1(2) False q chunk by (simp add: read_exactly_loop.simps [of n buffer])
        from 1(1) [OF False q [symmetric] chunk this] su show ?thesis
          by (blast intro: step_order.R_trans [OF assms(1)])
      next
        case False
        then have "t = u"
          using 1(2) \<open>\<not> n \<le> length buffer\<close> q
          by (cases q) (auto simp: read_exactly_loop.simps [of n buffer])
        with su show ?thesis by simp
      qed
    qed
  qed
qed

lemma later_read_exactly [wp]: "keeps later (Connection_read_exactly n)"
  unfolding Connection_read_exactly_def
  by (rule read_loop_keeps) (rule forward.step_order_axioms, rule later_recv)

lemma quiet_read_exactly [wp]: "keeps quiet (Connection_read_exactly n)"
  unfolding Connection_read_exactly_def
  by (rule read_loop_keeps) (rule reading.step_order_axioms, rule quiet_recv)

lemma later_apply_timeout [wp]: "keeps later (Connection_apply_timeout dl)"
  unfolding Connection_apply_timeout_def clock_def by (intro wp forward.keeps_pbind forward.keeps_pure
      forward.keeps_pwrap)

lemma quiet_apply_timeout [wp]: "keeps quiet (Connection_apply_timeout dl)"
  unfolding Connection_apply_timeout_def clock_def by (intro wp reading.keeps_pbind reading.keeps_pure
      reading.keeps_pwrap)

lemma later_read_frame [wp]: "keeps later (Connection_read_frame dl)"
  unfolding Connection_read_frame_def
  by (intro wp forward.keeps_pbind forward.keeps_pure forward.keeps_if)

lemma quiet_read_frame [wp]: "keeps quiet (Connection_read_frame dl)"
  unfolding Connection_read_frame_def
  by (intro wp reading.keeps_pbind reading.keeps_pure reading.keeps_if)

lemma later_write_request [wp]: "keeps later (Connection_write_request command dl)"
  unfolding Connection_write_request_def
  by (intro wp forward.keeps_pbind forward.keeps_pure forward.keeps_if forward.keeps_pcatch)

lemma later_send [wp]: "keeps later (Connection_send command dl)"
  unfolding Connection_send_def by (intro wp forward.keeps_pbind forward.keeps_pure)


lemma later_chunked_loop: "keeps later (send_chunked_loop dl assembler)"
proof (rule keepsI)
  fix s r t
  show "send_chunked_loop dl assembler s = (r, t) \<Longrightarrow> later s t"
  proof (induction dl assembler s arbitrary: r t rule: send_chunked_loop.induct)
    case (1 dl assembler s)
    obtain q u where q: "Connection_read_frame dl s = (q, u)"
      by (cases "Connection_read_frame dl s")
    have su: "later s u" using keepsD [OF later_read_frame q] .
    show ?case
    proof (cases "\<exists>frame a. q = Return frame \<and> ChunkAssembler_feed assembler frame = (Inr None, a)")
      case True
      then obtain frame a where f: "q = Return frame" "ChunkAssembler_feed assembler frame = (Inr None, a)"
        by blast
      have "send_chunked_loop dl a u = (r, t)"
        using 1(2) q f by (simp add: send_chunked_loop.simps [of dl assembler s])
      from 1(1) [OF q [symmetric] f(1) f(2) [symmetric] refl refl this] su show ?thesis
        by (blast intro: forward.R_trans)
    next
      case False
      have flag: "pbind (set_in_flight False) (\<lambda>_. pret x) u = (r, t) \<Longrightarrow> later u t" for x :: bytes
        by (rule keepsD [of later "pbind (set_in_flight False) (\<lambda>_. pret x)"])
           (intro wp forward.keeps_pbind forward.keeps_pure)
      have "later u t"
      proof (cases q)
        case (Return frame)
        then show ?thesis using 1(2) q False flag
          by (auto simp: send_chunked_loop.simps [of dl assembler s] forward.R_refl
              split: prod.splits sum.splits option.splits)
      qed (use 1(2) q in \<open>auto simp: send_chunked_loop.simps [of dl assembler s] forward.R_refl\<close>)
      with su show ?thesis by (rule forward.R_trans)
    qed
  qed
qed

lemma later_send_chunked [wp]: "keeps later (Connection_send_chunked command dl)"
  unfolding Connection_send_chunked_def by (intro wp forward.keeps_pbind later_chunked_loop)

lemma later_pmodify_conn [wp]: "keeps later (pmodify (\<lambda>(c, w). (f c, w)))"
  by (rule forward.keeps_pmodify) (auto simp: later_def split: prod.splits)

lemma later_handshake [wp]: "keeps later Connection_handshake"
  unfolding Connection_handshake_def clock_def
  by (intro wp forward.keeps_pbind forward.keeps_pure forward.keeps_if)

lemma later_tls [wp]: "keeps later (Connection_tls c host tls)"
proof -
  have "keeps later (pmodify (\<lambda>(c, w). (c, record_event NetClose w)))"
    by (rule forward.keeps_pmodify) (auto simp: later_def split: prod.splits)
  then show ?thesis
    unfolding Connection_tls_def
    by (intro wp forward.keeps_pbind forward.keeps_pure forward.keeps_if forward.keeps_pcatch)
qed

lemma later_connect [wp]: "keeps later Connection_connect"
  unfolding Connection_connect_def case_prod_unfold
  by (intro wp forward.keeps_pbind forward.keeps_pure forward.keeps_if forward.keeps_pcatch
      forward.keeps_pwrap later_pmodify_conn [unfolded case_prod_unfold])

lemma later_reconnect [wp]: "keeps later Connection_reconnect"
  unfolding Connection_reconnect_def by (intro wp forward.keeps_pbind)

section \<open>What a request puts on the wire\<close>

lemma conn_sendall_cases:
  assumes "conn_sendall bs s = (r, t)"
  shows "(cn_sock (fst s) = None \<and> r = Raise (Exc PyOSError) \<and> t = s) \<or>
    (cn_request_in_flight (fst t) = cn_request_in_flight (fst s) \<and> cn_sock (fst t) \<noteq> None \<and>
     (\<exists>h. sends (snd t) = sends (snd s) @ [h] \<and> prefix h bs \<and>
        (r = Return () \<longrightarrow> h = bs) \<and>
        (r = Raise (Exc PyOSError) \<longrightarrow> bs \<noteq> [] \<longrightarrow> length h < length bs)) \<and>
     (r = Return () \<or> r = Raise (Exc PyOSError) \<or> r = Raise (Exc PyTimeoutError) \<or> r = Blocked))"
proof (cases "cn_sock (fst s)")
  case None
  with assms show ?thesis by (auto simp: conn_sendall_def split: prod.splits)
next
  case (Some sk)
  obtain q h sk' t' where q: "sock_sendall bs sk (now (snd s)) = (q, h, sk', t')"
    by (metis prod_cases4)
  have "q = Return () \<or> q = Raise (Exc PyOSError) \<or> q = Raise (Exc PyTimeoutError) \<or> q = Blocked"
    using q by (auto simp: sock_sendall_def wait_out_def split: list.splits sending.splits option.splits)
  then show ?thesis
    using assms Some q sock_sendall_handed [OF q]
    by (auto simp: conn_sendall_def split: prod.splits)
qed

text \<open>
  Every way \<open>_write_request\<close> can end: nothing was handed over and the flag is as before; the whole
  frame was handed over and the flag is set; or a part (possibly all of it) before a timeout, flag
  set; or a proper part before an error, flag as before.
\<close>

definition write_outcome :: "Command \<Rightarrow> cstate \<Rightarrow> unit outcome \<Rightarrow> cstate \<Rightarrow> bool" where
  "write_outcome command s r t \<longleftrightarrow>
     (sends (snd t) = sends (snd s) \<and> cn_request_in_flight (fst t) = cn_request_in_flight (fst s) \<and>
        r \<noteq> Return ()) \<or>
     (\<exists>frame h. encode_frame (payload command) = Inr frame \<and> sends (snd t) = sends (snd s) @ [h] \<and>
        prefix h frame \<and>
        (r = Return () \<and> h = frame \<and> cn_request_in_flight (fst t) \<or>
         r = Raise (Exc FQTimeoutError) \<and> cn_request_in_flight (fst t) \<or>
         r = Raise (Exc FQConnectionError) \<and> length h < length frame \<and>
           cn_request_in_flight (fst t) = cn_request_in_flight (fst s) \<or>
         r = Blocked))"

text \<open>How bytes may be handed over: all, or a part before an error, a timeout, or for ever.\<close>

definition hands_over :: "(bytes \<Rightarrow> (cstate, unit) prog) \<Rightarrow> cstate \<Rightarrow> bool" where
  "hands_over put s \<longleftrightarrow> (\<forall>bs q t. put bs s = (q, t) \<longrightarrow> bs \<noteq> [] \<longrightarrow>
     cn_request_in_flight (fst t) = cn_request_in_flight (fst s) \<and>
     (\<exists>h. sends (snd t) = sends (snd s) @ [h] \<and> prefix h bs \<and>
        (q = Return () \<and> h = bs \<or> q = Raise (Exc PyOSError) \<and> length h < length bs \<or>
         q = Raise (Exc PyTimeoutError) \<or> q = Blocked)))"

lemma hands_over_sendall: "cn_sock (fst s) \<noteq> None \<Longrightarrow> hands_over conn_sendall s"
  unfolding hands_over_def
proof (intro allI impI)
  fix bs q t assume sock: "cn_sock (fst s) \<noteq> None" and run: "conn_sendall bs s = (q, t)" and "bs \<noteq> []"
  then obtain h where "cn_request_in_flight (fst t) = cn_request_in_flight (fst s)"
    "sends (snd t) = sends (snd s) @ [h]" "prefix h bs" "q = Return () \<longrightarrow> h = bs"
    "q = Raise (Exc PyOSError) \<longrightarrow> length h < length bs"
    "q = Return () \<or> q = Raise (Exc PyOSError) \<or> q = Raise (Exc PyTimeoutError) \<or> q = Blocked"
    using conn_sendall_cases [OF run] by auto
  then show "cn_request_in_flight (fst t) = cn_request_in_flight (fst s) \<and>
     (\<exists>h. sends (snd t) = sends (snd s) @ [h] \<and> prefix h bs \<and>
        (q = Return () \<and> h = bs \<or> q = Raise (Exc PyOSError) \<and> length h < length bs \<or>
         q = Raise (Exc PyTimeoutError) \<or> q = Blocked))" by metis
qed

lemma write_tail_outcome:
  assumes "hands_over put s"
    and "pbind (pcatch (pbind (plift (encode_frame (payload command))) put)
       (\<lambda>e. if catches PyTimeoutError e then pbind (set_in_flight True) (\<lambda>_. praise (Exc FQTimeoutError))
            else if catches PyOSError e then praise (Exc FQConnectionError)
            else praise e)) (\<lambda>_. set_in_flight True) s = (r, t)"
  shows "write_outcome command s r t"
proof (cases "encode_frame (payload command)")
  case (Inl e)
  then have "e = Exc PyOverflowError"
    by (auto simp: encode_frame_def to_bytes4_def sbind_eq_Inl split: if_splits)
  with Inl assms(2) have "r = Raise e" "t = s" by (simp_all add: pbind_def pcatch_def praise_def)
  then show ?thesis by (simp add: write_outcome_def)
next
  case (Inr frame)
  obtain q v where q: "put frame s = (q, v)" by (cases "put frame s")
  have ne: "frame \<noteq> []" using encode_frame_length [OF Inr] by auto
  obtain h where flag: "cn_request_in_flight (fst v) = cn_request_in_flight (fst s)" and
    h: "sends (snd v) = sends (snd s) @ [h]" "prefix h frame" and
    qs: "q = Return () \<and> h = frame \<or> q = Raise (Exc PyOSError) \<and> length h < length frame \<or>
      q = Raise (Exc PyTimeoutError) \<or> q = Blocked"
    using assms(1) q ne unfolding hands_over_def by blast
  have set: "set_in_flight True v = (Return (), ((fst v)\<lparr>cn_request_in_flight := True\<rparr>, snd v))"
    by (simp add: set_in_flight_def pmodify_def case_prod_unfold)
  from qs have "(r = Return () \<and> h = frame \<or> r = Raise (Exc FQTimeoutError)) \<and>
      t = ((fst v)\<lparr>cn_request_in_flight := True\<rparr>, snd v) \<or>
    (r = Raise (Exc FQConnectionError) \<and> length h < length frame \<or> r = Blocked) \<and> t = v"
    using assms(2) Inr q set by (elim disjE) (auto simp: pbind_def pcatch_def praise_def)
  with Inr h flag show ?thesis unfolding write_outcome_def by (elim disjE) auto
qed

lemma write_request_outcome:
  assumes "Connection_write_request command dl s = (r, t)"
  shows "write_outcome command s r t"
proof -
  let ?tail = "pbind (pcatch (pbind (plift (encode_frame (payload command))) conn_sendall)
       (\<lambda>e. if catches PyTimeoutError e
            then pbind (set_in_flight True) (\<lambda>_. praise (Exc FQTimeoutError))
            else if catches PyOSError e then praise (Exc FQConnectionError)
            else praise e)) (\<lambda>_. set_in_flight True)"
  have quietly: "write_outcome command s r t" if "r \<noteq> Return ()" "quiet s t"
    using that by (auto simp: write_outcome_def quiet_def)
  have shift: "write_outcome command s r t" if "write_outcome command u r t" "quiet s u" for u
    using that by (auto simp: write_outcome_def quiet_def)
  obtain q1 u1 where q1: "Connection_require_socket s = (q1, u1)"
    by (cases "Connection_require_socket s")
  obtain q2 u2 where q2: "Connection_apply_timeout dl u1 = (q2, u2)"
    by (cases "Connection_apply_timeout dl u1")
  have s1: "quiet s u1" using keepsD [OF quiet_require q1] .
  have s2: "quiet s u2" using s1 keepsD [OF quiet_apply_timeout q2] by (rule reading.R_trans)
  have run: "pbind (plift (check_request_size (payload command) (cn_max_message_size (fst s)))) (\<lambda>_.
     pbind Connection_require_socket (\<lambda>_. pbind (Connection_apply_timeout dl) (\<lambda>_. ?tail))) s = (r, t)"
    using assms by (simp add: Connection_write_request_def pbind_def pget_def case_prod_unfold)
  show ?thesis
  proof (cases "check_request_size (payload command) (cn_max_message_size (fst s))")
    case (Inl e)
    then show ?thesis using run reading.R_refl [of s] by (intro quietly) (auto simp: pbind_def)
  next
    case (Inr x)
    show ?thesis
    proof (cases "q1 = Return () \<and> q2 = Return ()")
      case True
      then have "cn_sock (fst u1) \<noteq> None" using require_socket_Return q1 by blast
      then have "cn_sock (fst u2) \<noteq> None"
        using keepsD [OF quiet_apply_timeout q2] by (simp add: quiet_def)
      moreover have "?tail u2 = (r, t)" using run Inr True q1 q2 by (simp add: pbind_Return)
      ultimately show ?thesis using write_tail_outcome [OF hands_over_sendall] shift s2 by blast
    next
      case False
      then have "r \<noteq> Return () \<and> (t = u1 \<or> t = u2)"
        using run Inr q1 q2 by (cases q1; cases q2) (auto simp: pbind_def)
      then show ?thesis using s1 s2 quietly by blast
    qed
  qed
qed

end
