(* ===== verification/ConnectionReading.thy ===== *)
theory ConnectionReading
  imports ConnectionFacts
begin

text \<open>
  Reading frames from a byte stream. The network may cut the stream into pieces anywhere; \<open>rx_data\<close> is
  the stream itself, \<open>arrives\<close> says that a piece can be read before the deadline, \<open>patient\<close> that the
  timeout of the socket lasts until the deadline.
\<close>

fun rx_data :: "arrival list \<Rightarrow> bytes" where
  "rx_data (Chunk t bs # rest) = bs @ rx_data rest"
| "rx_data _ = []"

definition arrives :: "Deadline \<Rightarrow> arrival \<Rightarrow> bool" where
  "arrives dl a = (case a of
      Chunk t0 bs \<Rightarrow> bs \<noteq> [] \<and> \<not> Deadline_expired dl t0
    | _ \<Rightarrow> True)"

definition patient :: "Deadline \<Rightarrow> sock \<Rightarrow> real \<Rightarrow> bool" where
  "patient dl sk t \<longleftrightarrow> (case dl_at dl of
      None \<Rightarrow> so_timeout sk = None
    | Some e \<Rightarrow> (\<exists>d. so_timeout sk = Some d \<and> e \<le> t + d))"

text \<open>The connection and world a successful read leaves: only the socket and the clock change.\<close>

definition after_read :: "cstate \<Rightarrow> sock \<Rightarrow> real \<Rightarrow> cstate" where
  "after_read s sk t = ((fst s)\<lparr>cn_sock := Some sk\<rparr>, (snd s)\<lparr>now := t\<rparr>)"

lemma after_read_simps [simp]:
  "cn_sock (fst (after_read s sk t)) = Some sk" "now (snd (after_read s sk t)) = t"
  "cn_max_message_size (fst (after_read s sk t)) = cn_max_message_size (fst s)"
  "after_read (after_read s sk t) sk' t' = after_read s sk' t'"
  by (simp_all add: after_read_def)

lemma after_read_same: "cn_sock (fst s) = Some sk \<Longrightarrow> after_read s sk (now (snd s)) = s"
proof -
  obtain c w where "s = (c, w)" by (cases s)
  then show "cn_sock (fst s) = Some sk \<Longrightarrow> after_read s sk (now (snd s)) = s"
    by (cases c) (simp add: after_read_def)
qed

lemma not_expired_max:
  "\<not> Deadline_expired dl t \<Longrightarrow> \<not> Deadline_expired dl t0 \<Longrightarrow> \<not> Deadline_expired dl (max t t0)"
  by (auto simp: deadline_defs split: option.splits)

lemma patient_later: "patient dl sk t \<Longrightarrow> t \<le> t' \<Longrightarrow> so_timeout sk' = so_timeout sk \<Longrightarrow> patient dl sk' t'"
  by (force simp: patient_def split: option.splits)

text \<open>One \<open>recv\<close>: a non-empty piece of the stream, of at most the size asked for.\<close>

lemma conn_recv_stream:
  assumes "cn_sock (fst s) = Some sk" and "\<forall>a \<in> set (rx sk). arrives dl a"
    and "patient dl sk (now (snd s))" and "\<not> Deadline_expired dl (now (snd s))"
    and "0 < n" and "rx_data (rx sk) \<noteq> []"
  shows "\<exists>k sk' t. 0 < k \<and> k \<le> n \<and> k \<le> length (rx_data (rx sk)) \<and>
    conn_recv n s = (Return (take k (rx_data (rx sk))), after_read s sk' t) \<and>
    rx_data (rx sk') = drop k (rx_data (rx sk)) \<and> now (snd s) \<le> t \<and>
    (\<forall>a \<in> set (rx sk'). arrives dl a) \<and> \<not> Deadline_expired dl t \<and>
    so_timeout sk' = so_timeout sk \<and> usable sk' = usable sk \<and> tx sk' = tx sk"
proof -
  obtain t0 bs rest where r: "rx sk = Chunk t0 bs # rest"
    using assms(6) by (metis rx_data.elims)
  have bs: "bs \<noteq> []" and t0: "\<not> Deadline_expired dl t0"
    using assms(2) r by (auto simp: arrives_def)
  have intime: "in_time sk (now (snd s)) t0"
    using t0 assms(3) by (auto simp: in_time_def patient_def deadline_defs split: option.splits)
  let ?sk = "sk\<lparr>rx := (if length bs \<le> n then rest else Chunk t0 (drop n bs) # rest)\<rparr>"
  let ?k = "min n (length bs)"
  let ?t = "max (now (snd s)) t0"
  have "conn_recv n s = (Return (take n bs), after_read s ?sk ?t)"
    using assms(1) intime r
    by (simp add: conn_recv_def sock_recv_def Let_def case_prod_unfold after_read_def)
  moreover have "take n bs = take ?k (rx_data (rx sk))" using r by (cases "n \<le> length bs") simp_all
  moreover have "rx_data (rx ?sk) = drop ?k (rx_data (rx sk))" using r by simp
  moreover have "\<forall>a \<in> set (rx ?sk). arrives dl a"
    using assms(2) r bs by (auto simp: arrives_def split: arrival.splits)
  moreover have "\<not> Deadline_expired dl ?t" using t0 assms(4) by (rule not_expired_max [rotated])
  moreover have "0 < ?k" "?k \<le> n" "?k \<le> length (rx_data (rx sk))" using assms(5) bs r by auto
  ultimately show ?thesis by (intro exI [of _ ?k] exI [of _ ?sk] exI [of _ ?t]) auto
qed

lemma read_exactly_loop_stream:
  assumes "cn_sock (fst s) = Some sk" and "\<forall>a \<in> set (rx sk). arrives dl a"
    and "patient dl sk (now (snd s))" and "\<not> Deadline_expired dl (now (snd s))"
    and "n - length buffer \<le> length (rx_data (rx sk))" and "length buffer \<le> n"
  shows "\<exists>sk' t. read_exactly_loop n buffer s =
      (Return (buffer @ take (n - length buffer) (rx_data (rx sk))), after_read s sk' t) \<and>
    rx_data (rx sk') = drop (n - length buffer) (rx_data (rx sk)) \<and> now (snd s) \<le> t \<and>
    (\<forall>a \<in> set (rx sk'). arrives dl a) \<and> \<not> Deadline_expired dl t \<and>
    so_timeout sk' = so_timeout sk \<and> usable sk' = usable sk \<and> tx sk' = tx sk"
  using assms
proof (induction n buffer s arbitrary: sk rule: read_exactly_loop.induct)
  case (1 n buffer s)
  show ?case
  proof (cases "n \<le> length buffer")
    case True
    have "after_read s sk (now (snd s)) = s" using 1(2) by (rule after_read_same)
    with 1 True show ?thesis
      by (intro exI [of _ sk] exI [of _ "now (snd s)"]) (simp add: read_exactly_loop.simps)
  next
    case False
    then have pos: "0 < n - length buffer" "rx_data (rx sk) \<noteq> []" using 1(6) by auto
    from conn_recv_stream [OF 1(2-5) pos] obtain k sk1 t1 where
      k: "0 < k" "k \<le> n - length buffer" "k \<le> length (rx_data (rx sk))" and
      recv: "conn_recv (n - length buffer) s = (Return (take k (rx_data (rx sk))), after_read s sk1 t1)" and
      data: "rx_data (rx sk1) = drop k (rx_data (rx sk))" and
      t1: "now (snd s) \<le> t1" "\<forall>a \<in> set (rx sk1). arrives dl a" "\<not> Deadline_expired dl t1" and
      same: "so_timeout sk1 = so_timeout sk" "usable sk1 = usable sk" "tx sk1 = tx sk"
      by blast
    have pat: "patient dl sk1 t1" using patient_later [OF 1(4) t1(1)] same by blast
    let ?chunk = "take k (rx_data (rx sk))"
    have chunk: "?chunk \<noteq> []" "length ?chunk = k" using k by auto
    have step: "read_exactly_loop n buffer s = read_exactly_loop n (buffer @ ?chunk) (after_read s sk1 t1)"
      using False recv chunk by (subst read_exactly_loop.simps) simp
    have "\<exists>sk' t. read_exactly_loop n (buffer @ ?chunk) (after_read s sk1 t1) =
        (Return ((buffer @ ?chunk) @ take (n - length (buffer @ ?chunk)) (rx_data (rx sk1))),
          after_read (after_read s sk1 t1) sk' t) \<and>
      rx_data (rx sk') = drop (n - length (buffer @ ?chunk)) (rx_data (rx sk1)) \<and>
      now (snd (after_read s sk1 t1)) \<le> t \<and> (\<forall>a \<in> set (rx sk'). arrives dl a) \<and>
      \<not> Deadline_expired dl t \<and> so_timeout sk' = so_timeout sk1 \<and> usable sk' = usable sk1 \<and> tx sk' = tx sk1"
      using 1(1) [OF False recv [symmetric] refl chunk(1), of sk1] t1 same pat k data 1(6) by simp
    then obtain sk' t where fin: "read_exactly_loop n (buffer @ ?chunk) (after_read s sk1 t1) =
        (Return ((buffer @ ?chunk) @ take (n - length (buffer @ ?chunk)) (rx_data (rx sk1))),
          after_read (after_read s sk1 t1) sk' t)" and
      rest: "rx_data (rx sk') = drop (n - length (buffer @ ?chunk)) (rx_data (rx sk1))" "t1 \<le> t"
      "\<forall>a \<in> set (rx sk'). arrives dl a" "\<not> Deadline_expired dl t" "so_timeout sk' = so_timeout sk1" "usable sk' = usable sk1"
      "tx sk' = tx sk1" by auto
    have len: "n - length (buffer @ ?chunk) = n - length buffer - k" using chunk by simp
    have left: "n - length buffer - k + k = n - length buffer" using k(2) by simp
    have "?chunk @ take (n - length buffer - k) (drop k (rx_data (rx sk))) =
        take (n - length buffer) (rx_data (rx sk))"
      using take_add [of k "n - length buffer - k" "rx_data (rx sk)"] le_add_diff_inverse [OF k(2)]
      by (simp del: diff_diff_left)
    with fin rest step t1 same data k(2) show ?thesis
      unfolding len by (intro exI [of _ sk'] exI [of _ t]) (simp add: left del: diff_diff_left)
  qed
qed

lemma read_exactly_stream:
  assumes "cn_sock (fst s) = Some sk" and "\<forall>a \<in> set (rx sk). arrives dl a"
    and "patient dl sk (now (snd s))" and "\<not> Deadline_expired dl (now (snd s))"
    and "n \<le> length (rx_data (rx sk))"
  shows "\<exists>sk' t. Connection_read_exactly n s =
      (Return (take n (rx_data (rx sk))), after_read s sk' t) \<and>
    rx_data (rx sk') = drop n (rx_data (rx sk)) \<and> now (snd s) \<le> t \<and>
    (\<forall>a \<in> set (rx sk'). arrives dl a) \<and> \<not> Deadline_expired dl t \<and>
    so_timeout sk' = so_timeout sk \<and> usable sk' = usable sk \<and> tx sk' = tx sk"
  using read_exactly_loop_stream [OF assms(1-4), of n "[]"] assms(5)
  by (simp add: Connection_read_exactly_def)

lemma read_frame_stream:
  assumes "cn_sock (fst s) = Some sk" and "usable sk"
    and "\<forall>a \<in> set (rx sk). arrives dl a"
    and "\<not> Deadline_expired dl (now (snd s))"
    and "encode_frame p = Inr frame" and "int (length p) \<le> cn_max_message_size (fst s)"
    and "rx_data (rx sk) = frame @ tail_bytes"
  shows "\<exists>sk' t. Connection_read_frame dl s = (Return p, after_read s sk' t) \<and>
    rx_data (rx sk') = tail_bytes \<and> now (snd s) \<le> t \<and> (\<forall>a \<in> set (rx sk'). arrives dl a) \<and>
    \<not> Deadline_expired dl t \<and> usable sk' \<and> tx sk' = tx sk"
proof -
  let ?t = "now (snd s)"
  let ?sk = "sk\<lparr>so_timeout := Deadline_remaining dl ?t\<rparr>"
  let ?s = "after_read s ?sk ?t"
  have req: "Connection_require_socket s = (Return (), s)"
    using assms(1) by (simp add: Connection_require_socket_def)
  have tmo: "Connection_apply_timeout dl s = (Return (), ?s)"
    using assms(1,2,4)
    by (simp add: Connection_apply_timeout_def clock_def prog_defs case_prod_unfold
        Deadline_check_def conn_settimeout_def sock_settimeout_def after_read_def)
  have so: "patient dl ?sk ?t" by (simp add: patient_def deadline_defs split: option.split)
  have len: "length frame = length p + 4" using encode_frame_length [OF assms(5)] .
  have "FRAME_HEADER_SIZE \<le> length (rx_data (rx ?sk))"
    using assms(7) len by (simp add: FRAME_HEADER_SIZE_def)
  from read_exactly_stream [of ?s ?sk dl, OF _ _ _ _ this] assms(3,4) so obtain sk1 t1 where
    r1: "Connection_read_exactly FRAME_HEADER_SIZE ?s =
        (Return (take FRAME_HEADER_SIZE (frame @ tail_bytes)), after_read s sk1 t1)" and
    d1: "rx_data (rx sk1) = drop FRAME_HEADER_SIZE (frame @ tail_bytes)" and
    t1: "?t \<le> t1" "\<forall>a \<in> set (rx sk1). arrives dl a" "\<not> Deadline_expired dl t1" and
    s1: "so_timeout sk1 = so_timeout ?sk" "usable sk1" "tx sk1 = tx sk"
    using assms(2,7) by auto
  have dec: "decode_frame_size (take FRAME_HEADER_SIZE (frame @ tail_bytes))
      (cn_max_message_size (fst (after_read s sk1 t1))) = Inr (length p)"
    and body: "take (length p) (drop FRAME_HEADER_SIZE (frame @ tail_bytes)) = p"
    and rest: "drop (length p) (drop FRAME_HEADER_SIZE (frame @ tail_bytes)) = tail_bytes"
    using own_header [OF assms(5)] own_body [OF assms(5)] assms(6) by (simp_all del: take_append)
  have "length p \<le> length (rx_data (rx sk1))"
    using d1 len by (simp add: FRAME_HEADER_SIZE_def)
  moreover have "patient dl sk1 t1"
    using patient_later [OF so t1(1)] s1(1) by blast
  ultimately obtain sk2 t2 where
    r2: "Connection_read_exactly (length p) (after_read s sk1 t1) = (Return p, after_read s sk2 t2)" and
    d2: "rx_data (rx sk2) = tail_bytes" and t2: "t1 \<le> t2" "\<forall>a \<in> set (rx sk2). arrives dl a" "\<not> Deadline_expired dl t2" and
    s2: "usable sk2" "tx sk2 = tx sk"
    using read_exactly_stream [of "after_read s sk1 t1" sk1 dl "length p"] t1 s1 d1 body rest by auto
  have prefix: "Connection_read_frame dl s =
      (if length p = 0 then pret [] else Connection_read_exactly (length p)) (after_read s sk1 t1)"
    unfolding Connection_read_frame_def
    using dec
    by (simp add: pbind_Return [of Connection_require_socket s, OF req]
        pbind_Return [of "Connection_apply_timeout dl" s, OF tmo]
        pbind_Return [of "Connection_read_exactly FRAME_HEADER_SIZE" ?s, OF r1]
        pbind_def [of "pget _"] pbind_def [of "plift _"] pget_def case_prod_unfold
        del: take_append drop_append)
  show ?thesis
  proof (cases "length p = 0")
    case True
    then have "rx_data (rx sk1) = tail_bytes" using d1 rest by simp
    with True prefix t1 s1 show ?thesis
      by (intro exI [of _ sk1] exI [of _ t1]) (simp add: pret_def)
  next
    case False
    with prefix r2 d2 t1 t2 s2 show ?thesis
      by (intro exI [of _ sk2] exI [of _ t2]) simp
  qed
qed

text \<open>
  Frames survive fragmentation: when the stream of a usable connection starts with the frame of a
  payload within the negotiated limit, and its pieces arrive in time, \<open>_read_frame\<close> returns exactly
  that payload however the network cut the stream, and what follows the frame is left in place for
  the next read.
\<close>

theorem read_frame_any_fragmentation:
  assumes "cn_sock (fst s) = Some sk" and "usable sk"
    and "\<forall>a \<in> set (rx sk). arrives dl a"
    and "\<not> Deadline_expired dl (now (snd s))"
    and "encode_frame p = Inr frame" and "int (length p) \<le> cn_max_message_size (fst s)"
    and "rx_data (rx sk) = frame @ tail_bytes"
  shows "\<exists>sk' t. Connection_read_frame dl s = (Return p, after_read s sk' t) \<and>
    rx_data (rx sk') = tail_bytes \<and> now (snd s) \<le> t \<and> (\<forall>a \<in> set (rx sk'). arrives dl a) \<and>
    \<not> Deadline_expired dl t \<and> usable sk' \<and> tx sk' = tx sk"
  using assms by (rule read_frame_stream)

text \<open>An open connection and a world around it, for the concrete instances.\<close>

definition sample_connection :: "sock \<Rightarrow> connection" where
  "sample_connection sk = \<lparr>cn_address = ustr ''fq:1'', cn_token = None, cn_ssl_context = None,
     cn_server_hostname = None, cn_connect_timeout = 5, cn_sock = Some sk,
     cn_max_message_size = 4096, cn_role = ustr ''leader'', cn_auth_required = False,
     cn_request_in_flight = False\<rparr>"

definition sample_sock :: "arrival list \<Rightarrow> sending list \<Rightarrow> sock" where
  "sample_sock incoming outgoing =
     \<lparr>rx = incoming, tx = outgoing, so_timeout = Some 5, usable = True\<rparr>"

definition sample_world :: "dial list \<Rightarrow> world" where
  "sample_world ds = \<lparr>now = 0, dials = ds, jitter = (\<lambda>n. 1 / 2), draws = 0, trace = []\<rparr>"

lemmas sample_defs = sample_connection_def sample_sock_def sample_world_def

theorem read_frame_any_fragmentation_witness:
  "\<exists>sk' t. Connection_read_frame \<lparr>dl_at = Some 5\<rparr>
      (sample_connection (sample_sock [Chunk 0 (map byte_of [0, 0]), Chunk 0 (map byte_of [0, 4] @ ''ok''),
         Chunk 0 ''|1'', Chunk 0 (map byte_of [0])] []), sample_world []) =
    (Return ''ok|1'', after_read (sample_connection (sample_sock [Chunk 0 (map byte_of [0, 0]),
         Chunk 0 (map byte_of [0, 4] @ ''ok''), Chunk 0 ''|1'', Chunk 0 (map byte_of [0])] []),
         sample_world []) sk' t) \<and>
    rx_data (rx sk') = map byte_of [0]"
proof -
  have e: "encode_frame ''ok|1'' = Inr (map byte_of [0, 0, 0, 4] @ ''ok|1'')"
    by (simp add: encode_frame_def to_bytes4_def)
  let ?sk = "sample_sock [Chunk 0 (map byte_of [0, 0]), Chunk 0 (map byte_of [0, 4] @ ''ok''),
    Chunk 0 ''|1'', Chunk 0 (map byte_of [0])] []"
  have "\<exists>sk' t. Connection_read_frame \<lparr>dl_at = Some 5\<rparr> (sample_connection ?sk, sample_world []) =
      (Return ''ok|1'', after_read (sample_connection ?sk, sample_world []) sk' t) \<and>
    rx_data (rx sk') = map byte_of [0] \<and> now (snd (sample_connection ?sk, sample_world [])) \<le> t \<and>
    (\<forall>a \<in> set (rx sk'). arrives \<lparr>dl_at = Some 5\<rparr> a) \<and> \<not> Deadline_expired \<lparr>dl_at = Some 5\<rparr> t \<and> usable sk' \<and> tx sk' = tx ?sk"
    by (rule read_frame_any_fragmentation [OF _ _ _ _ e])
       (simp_all add: sample_defs arrives_def deadline_defs)
  then show ?thesis by blast
qed

end
