(* ===== verification/ConnectionClass.thy ===== *)
theory ConnectionClass
  imports ConnectionReading
begin

text \<open>
  What the two connection classes share. The records, the sockets and the close are the same; the two
  differ in how they write a request, read a frame and dial. The locale \<open>connection_class\<close> states what a
  connection class does of these three (its laws) and how its other methods are built from them, and
  proves once what both promise: the answer returned is the request's own, what a failed call has
  handed over, what opening leaves, and that no call with a deadline blocks.
\<close>

section \<open>Streams and calls\<close>

text \<open>How long the next \<open>sendall\<close> takes when it succeeds.\<close>

definition sends_in :: "sock \<Rightarrow> real option" where
  "sends_in sk = (case tx sk of [] \<Rightarrow> Some 0 | Sent dt # rest \<Rightarrow> Some (max 0 dt) | _ \<Rightarrow> None)"

text \<open>The stream of a connection, the frames of a list of payloads, and a socket ready to read them.\<close>

definition incoming :: "cstate \<Rightarrow> bytes" where
  "incoming s = (case cn_sock (fst s) of None \<Rightarrow> [] | Some sk \<Rightarrow> rx_data (rx sk))"

definition wire :: "bytes list \<Rightarrow> bytes" where
  "wire fs = concat (map (\<lambda>f. projr (encode_frame f)) fs)"

definition framed :: "bytes list \<Rightarrow> int \<Rightarrow> bool" where
  "framed fs limit \<longleftrightarrow> (\<forall>f \<in> set fs. length f < 2 ^ 32 \<and> int (length f) \<le> limit)"

definition readable :: "Deadline \<Rightarrow> cstate \<Rightarrow> bool" where
  "readable dl s \<longleftrightarrow> (case cn_sock (fst s) of
      None \<Rightarrow> False
    | Some sk \<Rightarrow> usable sk \<and> (\<forall>a \<in> set (rx sk). arrives dl a) \<and> \<not> Deadline_expired dl (now (snd s)))"

text \<open>Two states of the same connection between which nothing was sent or renegotiated.\<close>

definition same_but_read :: "cstate \<Rightarrow> cstate \<Rightarrow> bool" where
  "same_but_read s t \<longleftrightarrow> (\<exists>sk now'. t = after_read s sk now')"

lemma same_but_read_facts:
  assumes "same_but_read s t"
  shows "cn_max_message_size (fst t) = cn_max_message_size (fst s)"
    and "cn_request_in_flight (fst t) = cn_request_in_flight (fst s)"
    and "sends (snd t) = sends (snd s)"
  using assms by (auto simp: same_but_read_def after_read_def)

lemma same_but_read_trans: "same_but_read s t \<Longrightarrow> same_but_read t u \<Longrightarrow> same_but_read s u"
  by (force simp: same_but_read_def)

text \<open>
  A connection that can carry a call: open, the request within the limits, the socket willing to take
  it before the deadline, and whatever comes back before the deadline.
\<close>

definition can_send :: "Command \<Rightarrow> Deadline \<Rightarrow> cstate \<Rightarrow> bool" where
  "can_send command dl s \<longleftrightarrow> readable dl s \<and> framed [payload command] (cn_max_message_size (fst s)) \<and>
     (case cn_sock (fst s) of
        None \<Rightarrow> False
      | Some sk \<Rightarrow> (case sends_in sk of
            None \<Rightarrow> False
          | Some dt \<Rightarrow> \<not> Deadline_expired dl (now (snd s) + dt)))"

lemma set_in_flight_eq: "set_in_flight b s = (Return (), ((fst s)\<lparr>cn_request_in_flight := b\<rparr>, snd s))"
  by (simp add: set_in_flight_def pmodify_def case_prod_unfold)

text \<open>What a call handed over, whether it succeeded or failed.\<close>

definition call_outcome :: "Command \<Rightarrow> cstate \<Rightarrow> bytes outcome \<Rightarrow> cstate \<Rightarrow> bool" where
  "call_outcome command s r t \<longleftrightarrow>
     (sends (snd t) = sends (snd s) \<and> cn_request_in_flight (fst t) = cn_request_in_flight (fst s) \<and>
        (\<forall>x. r \<noteq> Return x)) \<or>
     (\<exists>frame h. encode_frame (payload command) = Inr frame \<and> sends (snd t) = sends (snd s) @ [h] \<and>
        prefix h frame \<and>
        (case r of
           Return x \<Rightarrow> h = frame \<and> \<not> cn_request_in_flight (fst t)
         | Raise e \<Rightarrow> cn_request_in_flight (fst t) \<or>
             e = Exc FQConnectionError \<and> length h < length frame \<and>
             cn_request_in_flight (fst t) = cn_request_in_flight (fst s)
         | Blocked \<Rightarrow> True))"

definition open_kept :: "cstate \<Rightarrow> cstate \<Rightarrow> bool" where
  "open_kept s t \<longleftrightarrow> (cn_sock (fst s) \<noteq> None \<longrightarrow> cn_sock (fst t) \<noteq> None)"

interpretation opened: step_order open_kept
  by unfold_locales (auto simp: open_kept_def)

text \<open>What a handshake hands over: nothing, or at most the frame of a HELLO.\<close>

definition greets :: "cstate \<Rightarrow> cstate \<Rightarrow> bool" where
  "greets s t \<longleftrightarrow> sends (snd t) = sends (snd s) \<or>
     (\<exists>h frame rest. sends (snd t) = sends (snd s) @ [h] \<and> prefix h frame \<and>
        encode_frame (CHR ''H'' # rest) = Inr frame)"

text \<open>Closing: the connection is closed, whether or not it was waited for.\<close>

definition hangs_up :: "cstate \<Rightarrow> unit outcome \<Rightarrow> cstate \<Rightarrow> bool" where
  "hangs_up s r t \<longleftrightarrow> (r = Return () \<or> r = Blocked) \<and> cn_sock (fst t) = None \<and>
     sends (snd t) = sends (snd s) \<and> cn_request_in_flight (fst t) = cn_request_in_flight (fst s)"

section \<open>Programs that come back\<close>

text \<open>\<open>unblocked P m Q\<close>: started where \<open>P\<close> holds, \<open>m\<close> never waits for ever, and a value leaves \<open>Q\<close>.\<close>

definition unblocked :: "(cstate \<Rightarrow> bool) \<Rightarrow> (cstate, 'a) prog \<Rightarrow> (cstate \<Rightarrow> bool) \<Rightarrow> bool" where
  "unblocked P m Q \<longleftrightarrow> (\<forall>s. P s \<longrightarrow> fst (m s) \<noteq> Blocked \<and> (\<forall>x t. m s = (Return x, t) \<longrightarrow> Q t))"

lemma unblockedD:
  "unblocked P m Q \<Longrightarrow> P s \<Longrightarrow> m s = (r, t) \<Longrightarrow> r \<noteq> Blocked \<and> (\<forall>x. r = Return x \<longrightarrow> Q t)"
  unfolding unblocked_def by (metis fst_conv)

lemma unblocked_conseq:
  assumes "unblocked P m Q" and "\<And>s. P' s \<Longrightarrow> P s" and "\<And>s. Q s \<Longrightarrow> Q' s"
  shows "unblocked P' m Q'"
  unfolding unblocked_def using assms unfolding unblocked_def by blast

lemma unblocked_pure [wp]:
  "unblocked P (pret x) P" "unblocked P (plift r) P" "unblocked P (pget f) P" "unblocked P (praise e) Q"
  by (auto simp: unblocked_def prog_defs split: sum.split)

lemma unblocked_pbind:
  assumes "unblocked P m Q" and "\<And>x. unblocked Q (k x) R"
  shows "unblocked P (pbind m k) R"
  using assms by (fastforce simp: unblocked_def pbind_def split: prod.split outcome.split)

lemma unblocked_pcatch:
  assumes "unblocked P m Q" and "\<And>e. unblocked (\<lambda>_. True) (h e) Q"
  shows "unblocked P (pcatch m h) Q"
  using assms by (fastforce simp: unblocked_def pcatch_def split: prod.split outcome.split)

lemma unblocked_if [wp]: "unblocked P m Q \<Longrightarrow> unblocked P n Q \<Longrightarrow> unblocked P (if b then m else n) Q"
  by simp

lemma unblocked_flag [wp]: "unblocked P (set_in_flight b) (\<lambda>_. True)"
  by (simp add: unblocked_def set_in_flight_eq)

lemma unblocked_pmodify: "unblocked P (pmodify f) (\<lambda>_. True)"
  by (simp add: unblocked_def pmodify_def)

section \<open>The contract\<close>

definition still :: "cstate \<Rightarrow> cstate \<Rightarrow> bool" where
  "still s t \<longleftrightarrow> fst t = fst s \<and> sends (snd t) = sends (snd s)"

interpretation still: step_order still
  by unfold_locales (auto simp: still_def)

locale connection_class =
  fixes write_request :: "Command \<Rightarrow> Deadline \<Rightarrow> (cstate, unit) prog"
    and read_frame :: "Deadline \<Rightarrow> (cstate, bytes) prog"
    and dial :: "connection \<Rightarrow> pystr \<Rightarrow> int \<Rightarrow> (cstate, sock) prog"
    and send :: "Command \<Rightarrow> Deadline \<Rightarrow> (cstate, bytes) prog"
    and chunked_loop :: "Deadline \<Rightarrow> assembler \<Rightarrow> (cstate, bytes) prog"
    and send_chunked :: "Command \<Rightarrow> Deadline \<Rightarrow> (cstate, bytes) prog"
    and close handshake connect reconnect :: "(cstate, unit) prog"
    and ready :: "Deadline \<Rightarrow> cstate \<Rightarrow> bool"
  assumes write_result: "write_request command dl s = (q, u) \<Longrightarrow> write_outcome command s q u"
    and write_open: "keeps open_kept (write_request command dl)"
    and write_back: "dl_at dl \<noteq> None \<Longrightarrow> unblocked P (write_request command dl) (\<lambda>_. True)"
    and write_sent: "can_send command dl s \<Longrightarrow> ready dl s \<Longrightarrow>
      \<exists>t. write_request command dl s = (Return (), t) \<and> ready dl t \<and> incoming t = incoming s \<and>
        sends (snd t) = sends (snd s) @ [wire [payload command]] \<and> cn_request_in_flight (fst t) \<and>
        cn_max_message_size (fst t) = cn_max_message_size (fst s)"
    and read_quiet: "keeps quiet (read_frame dl)"
    and read_back: "dl_at dl \<noteq> None \<Longrightarrow> unblocked P (read_frame dl) (\<lambda>_. True)"
    and read_shrinks: "read_frame dl s = (Return f, u) \<Longrightarrow> conn_rx_size u < conn_rx_size s"
    and read_next: "ready dl s \<Longrightarrow> framed [p] (cn_max_message_size (fst s)) \<Longrightarrow>
      incoming s = wire (p # fs) @ rest \<Longrightarrow>
      \<exists>t. read_frame dl s = (Return p, t) \<and> same_but_read s t \<and> ready dl t \<and> incoming t = wire fs @ rest"
    and ready_sock: "cn_sock (fst s) = cn_sock (fst t) \<Longrightarrow> now (snd s) = now (snd t) \<Longrightarrow>
      ready dl s = ready dl t"
    and close_result: "close s = (q, u) \<Longrightarrow> hangs_up s q u"
    and dial_still: "keeps still (dial c host port)"
    and dial_back: "unblocked P (dial c host port) (\<lambda>_. True)"
    and send_eq: "send command dl = pbind (write_request command dl) (\<lambda>_.
      pbind (read_frame dl) (\<lambda>response. pbind (set_in_flight False) (\<lambda>_. pret response)))"
    and loop_eq: "chunked_loop dl assembler s = (case read_frame dl s of
        (Raise e, s') \<Rightarrow> (Raise e, s')
      | (Blocked, s') \<Rightarrow> (Blocked, s')
      | (Return frame, s') \<Rightarrow> (case ChunkAssembler_feed assembler frame of
          (Inl e, assembler') \<Rightarrow> (Raise e, s')
        | (Inr (Some response), assembler') \<Rightarrow> pbind (set_in_flight False) (\<lambda>_. pret response) s'
        | (Inr None, assembler') \<Rightarrow> chunked_loop dl assembler' s'))"
    and send_chunked_eq: "send_chunked command dl = pbind (write_request command dl) (\<lambda>_.
      chunked_loop dl ChunkAssembler_new)"
    and handshake_eq: "handshake = pbind (pget fst) (\<lambda>c. pbind (plift (hello (cn_token c))) (\<lambda>command.
      pbind clock (\<lambda>t. pbind (send command (Deadline_new (Some (cn_connect_timeout c)) t)) (\<lambda>response.
      pbind (plift (parse_hello response)) (\<lambda>info.
        if hi_version info \<noteq> PROTOCOL_VERSION then praise (Exc CorruptedResponseError)
        else pmodify (\<lambda>(c, w). (apply_hello info c, w)))))))"
    and connect_eq: "connect = pbind (pget fst) (\<lambda>c. pbind (plift (split_address (cn_address c))) (\<lambda>(host, port).
      pbind (dial c host port) (\<lambda>sk. pbind (pmodify (\<lambda>(c, w). (install_socket sk c, w))) (\<lambda>_.
        pcatch handshake (\<lambda>e. pbind close (\<lambda>_. praise e))))))"
    and reconnect_eq: "reconnect = pbind close (\<lambda>_. connect)"
begin

subsection \<open>Answers\<close>

lemma send_stream:
  assumes "can_send command dl s" and "ready dl s" and "framed [answer] (cn_max_message_size (fst s))"
    and "incoming s = wire [answer] @ rest"
  shows "\<exists>t. send command dl s = (Return answer, t) \<and> incoming t = rest \<and>
    sends (snd t) = sends (snd s) @ [wire [payload command]] \<and> \<not> cn_request_in_flight (fst t) \<and>
    ready dl t"
proof -
  obtain u where u: "write_request command dl s = (Return (), u)" "ready dl u"
    "incoming u = wire [answer] @ rest" "sends (snd u) = sends (snd s) @ [wire [payload command]]"
    "cn_max_message_size (fst u) = cn_max_message_size (fst s)"
    using write_sent [OF assms(1,2)] assms(4) by auto
  obtain v where v: "read_frame dl u = (Return answer, v)" "same_but_read u v" "ready dl v"
    "incoming v = wire [] @ rest"
    using read_next [OF u(2), of answer "[]" rest] u assms(3) by auto
  let ?t = "((fst v)\<lparr>cn_request_in_flight := False\<rparr>, snd v)"
  have "send command dl s = (Return answer, ?t)"
    using u(1) v(1)
    by (simp add: send_eq pbind_def set_in_flight_def pmodify_def pret_def case_prod_unfold)
  moreover have "ready dl ?t" using v(3) ready_sock [of ?t v] by simp
  moreover have "incoming ?t = rest" using v(4) by (simp add: incoming_def wire_def)
  ultimately show ?thesis
    using u(4) same_but_read_facts(3) [OF v(2)] by (intro exI [of _ ?t]) simp
qed

lemma chunked_loop_stream:
  assumes "ready dl s"
    and "framed (map nxt_frame parts @ [''ok|'' @ last_part]) (cn_max_message_size (fst s))"
    and "incoming s = wire (map nxt_frame parts @ [''ok|'' @ last_part]) @ rest"
  shows "\<exists>t. chunked_loop dl body s = (Return (''ok|'' @ body @ concat parts @ last_part), t) \<and>
    incoming t = rest \<and> ready dl t \<and> sends (snd t) = sends (snd s) \<and>
    \<not> cn_request_in_flight (fst t)"
  using assms
proof (induction parts arbitrary: s body)
  case Nil
  from read_next [OF Nil(1), of "''ok|'' @ last_part" "[]" rest] Nil obtain t where
    t: "read_frame dl s = (Return (''ok|'' @ last_part), t)" "same_but_read s t"
      "ready dl t" "incoming t = wire [] @ rest" by auto
  let ?t = "((fst t)\<lparr>cn_request_in_flight := False\<rparr>, snd t)"
  have "chunked_loop dl body s = (Return (''ok|'' @ body @ last_part), ?t)"
    using t(1) feed_ok [of body last_part]
    by (subst loop_eq)
       (simp add: set_in_flight_def pbind_def pmodify_def pret_def case_prod_unfold)
  moreover have "ready dl ?t" using t(3) ready_sock [of ?t t] by simp
  ultimately show ?case
    using t by (intro exI [of _ ?t]) (simp add: same_but_read_facts incoming_def wire_def)
next
  case (Cons part parts)
  let ?fs = "map nxt_frame parts @ [''ok|'' @ last_part]"
  from read_next [OF Cons(2), of "nxt_frame part" ?fs rest] Cons(3,4) obtain u where
    u: "read_frame dl s = (Return (nxt_frame part), u)" "same_but_read s u" "ready dl u"
      "incoming u = wire ?fs @ rest" by (auto simp: framed_def)
  have "chunked_loop dl body s = chunked_loop dl (body @ part) u"
    using u(1) by (subst loop_eq) simp
  moreover have "framed ?fs (cn_max_message_size (fst u))"
    using Cons(3) same_but_read_facts(1) [OF u(2)] by (simp add: framed_def)
  ultimately show ?case
    using Cons(1) [OF u(3) _ u(4), of "body @ part"] same_but_read_facts(3) [OF u(2)] by simp
qed

lemma chunked_stream:
  assumes "can_send command dl s" and "ready dl s"
    and "framed (map nxt_frame parts @ [''ok|'' @ last_part]) (cn_max_message_size (fst s))"
    and "incoming s = wire (map nxt_frame parts @ [''ok|'' @ last_part]) @ rest"
  shows "\<exists>t. send_chunked command dl s = (Return (''ok|'' @ concat parts @ last_part), t) \<and>
    incoming t = rest \<and> sends (snd t) = sends (snd s) @ [wire [payload command]] \<and>
    \<not> cn_request_in_flight (fst t) \<and> ready dl t"
proof -
  obtain u where u: "write_request command dl s = (Return (), u)" "ready dl u"
    "incoming u = incoming s" "sends (snd u) = sends (snd s) @ [wire [payload command]]"
    "cn_max_message_size (fst u) = cn_max_message_size (fst s)"
    using write_sent [OF assms(1,2)] by auto
  from chunked_loop_stream [OF u(2), of parts last_part rest "[]"] assms(3,4) u(3,5) obtain t where
    "chunked_loop dl [] u = (Return (''ok|'' @ concat parts @ last_part), t)" "incoming t = rest"
    "ready dl t" "sends (snd t) = sends (snd u)" "\<not> cn_request_in_flight (fst t)" by auto
  then show ?thesis
    using u by (intro exI [of _ t]) (simp add: send_chunked_eq pbind_def ChunkAssembler_new_def)
qed

subsection \<open>What a failed call leaves\<close>

lemma read_flag:
  "read_frame dl s = (r, t) \<Longrightarrow> cn_request_in_flight (fst t) = cn_request_in_flight (fst s)"
  "read_frame dl s = (r, t) \<Longrightarrow> sends (snd t) = sends (snd s)"
  by (auto dest: keepsD [OF read_quiet] simp: quiet_def)

lemma call_after_write:
  assumes "write_request command dl s = (Return (), u)" and "rest u = (r, t)"
    and "sends (snd t) = sends (snd u)"
    and "\<And>x. r = Return x \<Longrightarrow> \<not> cn_request_in_flight (fst t)"
    and "\<And>e. r = Raise e \<Longrightarrow> cn_request_in_flight (fst t) = cn_request_in_flight (fst u)"
  shows "call_outcome command s r t"
  using write_result [OF assms(1)] assms(3-5)
  by (cases r) (auto simp: write_outcome_def call_outcome_def)

lemma call_before_write:
  assumes "write_request command dl s = (q, u)" and "q \<noteq> Return ()"
    and "\<And>e. q = Raise e \<Longrightarrow> r = Raise e" and "q = Blocked \<Longrightarrow> r = Blocked"
  shows "call_outcome command s r u"
  using write_result [OF assms(1)] assms(2-4)
  by (cases q) (auto simp: write_outcome_def call_outcome_def)

lemma send_outcome: "send command dl s = (r, t) \<Longrightarrow> call_outcome command s r t"
proof -
  assume run: "send command dl s = (r, t)"
  let ?rest = "pbind (read_frame dl) (\<lambda>x. pbind (set_in_flight False) (\<lambda>_. pret x))"
  obtain q u where q: "write_request command dl s = (q, u)"
    by (cases "write_request command dl s")
  show ?thesis
  proof (cases "q = Return ()")
    case True
    obtain p v where p: "read_frame dl u = (p, v)" by (cases "read_frame dl u")
    have "?rest u = (r, t)" using run q True by (simp add: send_eq pbind_def)
    then show ?thesis
      using q True p read_flag [OF p]
      by (intro call_after_write [of _ dl _ u ?rest])
         (cases p; auto simp: pbind_def set_in_flight_eq pret_def)+
  next
    case False
    then show ?thesis
      using run q by (cases q) (auto simp: send_eq pbind_def intro!: call_before_write)
  qed
qed

lemma chunked_loop_quiet:
  "chunked_loop dl assembler s = (r, t) \<Longrightarrow> sends (snd t) = sends (snd s) \<and>
     (\<forall>x. r = Return x \<longrightarrow> \<not> cn_request_in_flight (fst t)) \<and>
     (\<forall>e. r = Raise e \<longrightarrow> cn_request_in_flight (fst t) = cn_request_in_flight (fst s))"
proof (induction "conn_rx_size s" arbitrary: assembler s r t rule: less_induct)
  case less
  obtain q u where q: "read_frame dl s = (q, u)" by (cases "read_frame dl s")
  show ?case
  proof (cases q)
    case (Return frame)
    obtain p a where p: "ChunkAssembler_feed assembler frame = (p, a)"
      by (cases "ChunkAssembler_feed assembler frame")
    show ?thesis
    proof (cases "p = Inr None")
      case True
      have "chunked_loop dl a u = (r, t)"
        using less(2) q Return p True by (simp add: loop_eq [of dl assembler s])
      from less(1) [OF read_shrinks [OF q [unfolded Return]] this] show ?thesis
        using read_flag [OF q] by simp
    next
      case False
      then show ?thesis
        using less(2) q Return p read_flag [OF q]
        by (auto simp: loop_eq [of dl assembler s] pbind_def set_in_flight_eq pret_def
            split: sum.splits option.splits)
    qed
  qed (use less(2) q read_flag [OF q] in \<open>auto simp: loop_eq [of dl assembler s]\<close>)
qed

lemma send_chunked_outcome:
  "send_chunked command dl s = (r, t) \<Longrightarrow> call_outcome command s r t"
proof -
  assume run: "send_chunked command dl s = (r, t)"
  obtain q u where q: "write_request command dl s = (q, u)"
    by (cases "write_request command dl s")
  show ?thesis
  proof (cases "q = Return ()")
    case True
    then have "chunked_loop dl ChunkAssembler_new u = (r, t)"
      using run q by (simp add: send_chunked_eq pbind_def)
    with q True chunked_loop_quiet [OF this] show ?thesis
      by (intro call_after_write [of _ dl _ u "chunked_loop dl ChunkAssembler_new"]) auto
  next
    case False
    then show ?thesis
      using run q by (cases q) (auto simp: send_chunked_eq pbind_def intro!: call_before_write)
  qed
qed

subsection \<open>Opening\<close>

lemma open_kept_send: "keeps open_kept (send command dl)"
proof -
  have "keeps open_kept (read_frame dl)" "keeps open_kept (set_in_flight b)" for b
    using read_quiet by (auto simp: keeps_def quiet_def open_kept_def set_in_flight_eq)
  then show ?thesis unfolding send_eq by (intro wp opened.keeps_pbind opened.keeps_pure write_open)
qed

lemma handshake_outcome:
  assumes "handshake s = (r, t)"
  shows "greets s t \<and> open_kept s t \<and>
    (r = Return () \<longrightarrow> \<not> cn_request_in_flight (fst t) \<and> (\<exists>answer info c.
       parse_hello answer = Inr info \<and> hi_version info = PROTOCOL_VERSION \<and> fst t = apply_hello info c))"
proof (cases "hello (cn_token (fst s))")
  case (Inl e)
  then show ?thesis
    using assms by (auto simp: handshake_eq pbind_def pget_def greets_def opened.R_refl)
next
  case (Inr command)
  let ?dl = "Deadline_new (Some (cn_connect_timeout (fst s))) (now (snd s))"
  obtain q u where q: "send command ?dl s = (q, u)" by (cases "send command ?dl s")
  obtain rest where rest: "payload command = CHR ''H'' # rest" using hello_head [OF Inr] by blast
  have u: "greets s u" "open_kept s u" "\<And>x. q = Return x \<Longrightarrow> \<not> cn_request_in_flight (fst u)"
    using send_outcome [OF q] rest keepsD [OF open_kept_send q]
    by (auto simp: call_outcome_def greets_def)
  have run: "(case q of Return answer \<Rightarrow> pbind (plift (parse_hello answer)) (\<lambda>info.
       if hi_version info \<noteq> PROTOCOL_VERSION then praise (Exc CorruptedResponseError)
       else pmodify (\<lambda>(c, w). (apply_hello info c, w))) u
     | Raise e \<Rightarrow> (Raise e, u) | Blocked \<Rightarrow> (Blocked, u)) = (r, t)"
    using assms Inr q
    by (cases q) (simp_all add: handshake_eq pbind_def pget_def clock_def case_prod_unfold)
  show ?thesis
  proof (cases "\<exists>answer info. q = Return answer \<and> parse_hello answer = Inr info \<and>
      hi_version info = PROTOCOL_VERSION")
    case True
    then obtain answer info where a: "q = Return answer" "parse_hello answer = Inr info"
      "hi_version info = PROTOCOL_VERSION" by blast
    then have "r = Return ()" "t = (apply_hello info (fst u), snd u)"
      using run by (simp_all add: pbind_def pmodify_def case_prod_unfold)
    with u a show ?thesis by (auto simp: greets_def open_kept_def apply_hello_def)
  next
    case False
    then have "t = u" "r \<noteq> Return ()"
      using run by (auto simp: pbind_def praise_def plift_def split: outcome.splits sum.splits if_splits)
    with u show ?thesis by simp
  qed
qed

lemma connect_outcome:
  assumes "connect s = (r, t)" and "cn_sock (fst s) = None"
  shows "greets s t \<and> (\<forall>e. r = Raise e \<longrightarrow> cn_sock (fst t) = None) \<and>
    (r = Return () \<longrightarrow> cn_sock (fst t) \<noteq> None \<and> \<not> cn_request_in_flight (fst t) \<and>
       (\<exists>answer info c. parse_hello answer = Inr info \<and> hi_version info = PROTOCOL_VERSION \<and>
          fst t = apply_hello info c))"
proof -
  have install: "greets s t \<and> (\<forall>e. r = Raise e \<longrightarrow> cn_sock (fst t) = None) \<and>
    (r = Return () \<longrightarrow> cn_sock (fst t) \<noteq> None \<and> \<not> cn_request_in_flight (fst t) \<and>
       (\<exists>answer info c. parse_hello answer = Inr info \<and> hi_version info = PROTOCOL_VERSION \<and>
          fst t = apply_hello info c))"
    if run: "pcatch handshake (\<lambda>e. pbind close (\<lambda>_. praise e))
        (install_socket sk (fst v), snd v) = (r, t)" and same: "sends (snd v) = sends (snd s)" for sk v
  proof -
    let ?v = "(install_socket sk (fst v), snd v)"
    obtain q u where q: "handshake ?v = (q, u)" by (cases "handshake ?v")
    from handshake_outcome [OF q] same have
      u: "greets s u" "cn_sock (fst u) \<noteq> None" and
      ok: "q = Return () \<Longrightarrow> \<not> cn_request_in_flight (fst u) \<and> (\<exists>answer info c.
       parse_hello answer = Inr info \<and> hi_version info = PROTOCOL_VERSION \<and> fst u = apply_hello info c)"
      by (auto simp: greets_def open_kept_def install_socket_def)
    show ?thesis
    proof (cases q)
      case (Raise e)
      obtain p v where p: "close u = (p, v)" by (cases "close u")
      from close_result [OF p] have "cn_sock (fst t) = None" "sends (snd t) = sends (snd u)"
        "r = Raise e \<or> r = Blocked"
        using run q p Raise by (auto simp: hangs_up_def pcatch_def pbind_def praise_def)
      with u show ?thesis by (auto simp: greets_def)
    qed (use run q u ok in \<open>auto simp: pcatch_def\<close>)
  qed
  show ?thesis
  proof (cases "split_address (cn_address (fst s))")
    case (Inl e)
    with assms show ?thesis by (auto simp: connect_eq pbind_def pget_def greets_def)
  next
    case (Inr hp)
    obtain h p where hp: "hp = (h, p)" by (cases hp)
    obtain q u where q: "dial (fst s) h p s = (q, u)" by (cases "dial (fst s) h p s")
    have d: "fst u = fst s" "sends (snd u) = sends (snd s)"
      using keepsD [OF dial_still q] by (simp_all add: still_def)
    show ?thesis
    proof (cases q)
      case (Return sk)
      have "pcatch handshake (\<lambda>e. pbind close (\<lambda>_. praise e))
          (install_socket sk (fst u), snd u) = (r, t)"
        using assms(1) Inr hp q Return
        by (simp add: connect_eq pbind_def pget_def pmodify_def case_prod_unfold)
      then show ?thesis by (rule install) (simp add: d)
    qed (use assms Inr hp q d in \<open>auto simp: connect_eq pbind_def pget_def greets_def\<close>)
  qed
qed

lemma reconnect_outcome:
  assumes "reconnect s = (r, t)"
  shows "greets s t \<and> (\<forall>e. r = Raise e \<longrightarrow> cn_sock (fst t) = None) \<and>
    (r = Return () \<longrightarrow> cn_sock (fst t) \<noteq> None \<and> \<not> cn_request_in_flight (fst t) \<and>
       (\<exists>answer info. parse_hello answer = Inr info \<and> hi_version info = PROTOCOL_VERSION \<and>
          cn_max_message_size (fst t) = hi_max_message_size info \<and>
          cn_role (fst t) = hi_role info \<and> cn_auth_required (fst t) = hi_auth_required info))"
proof -
  obtain q u where q: "close s = (q, u)" by (cases "close s")
  from close_result [OF q] have u: "q = Return () \<or> q = Blocked" "cn_sock (fst u) = None"
    "sends (snd u) = sends (snd s)" by (simp_all add: hangs_up_def)
  show ?thesis
  proof (cases q)
    case (Return x)
    then have "connect u = (r, t)" using assms q by (simp add: reconnect_eq pbind_def)
    from connect_outcome [OF this u(2)] u(3) show ?thesis
      by (fastforce simp: greets_def apply_hello_def)
  qed (use assms q u in \<open>auto simp: reconnect_eq pbind_def greets_def\<close>)
qed

subsection \<open>No call with a deadline blocks\<close>

lemma send_back: "dl_at dl \<noteq> None \<Longrightarrow> unblocked P (send command dl) (\<lambda>_. True)"
  unfolding send_eq
  by (intro unblocked_pbind [OF write_back] unblocked_pbind [OF read_back]
      unblocked_pbind [OF unblocked_flag] unblocked_pure)

lemma chunked_loop_back:
  assumes "dl_at dl \<noteq> None"
  shows "fst (chunked_loop dl assembler s) \<noteq> Blocked"
proof (induction "conn_rx_size s" arbitrary: assembler s rule: less_induct)
  case less
  obtain q u where q: "read_frame dl s = (q, u)" by (cases "read_frame dl s")
  have "q \<noteq> Blocked" using unblockedD [OF read_back [OF assms, of "\<lambda>_. True"] TrueI q] by simp
  moreover have "conn_rx_size u < conn_rx_size s" if "q = Return f" for f
    using read_shrinks q that by blast
  ultimately show ?case
    using q less(1) [of u]
    by (cases q) (auto simp: loop_eq [of dl assembler s] pbind_def set_in_flight_eq
        pret_def split: prod.splits sum.splits option.splits)
qed

lemma send_chunked_back: "dl_at dl \<noteq> None \<Longrightarrow> unblocked P (send_chunked command dl) (\<lambda>_. True)"
  unfolding send_chunked_eq
  by (rule unblocked_pbind [OF write_back]) (simp_all add: unblocked_def chunked_loop_back)

end

text \<open>A class whose \<open>close\<close> does not wait.\<close>

locale prompt_connection = connection_class +
  assumes close_back: "unblocked P close (\<lambda>_. True)"
begin

lemma connect_back: "unblocked P connect (\<lambda>_. True)"
proof -
  have handshake: "unblocked Q handshake (\<lambda>_. True)" for Q
    unfolding handshake_eq clock_def
    by (intro unblocked_pbind [OF unblocked_pure(3)] unblocked_pbind [OF unblocked_pure(2)]
        unblocked_pbind [OF send_back] unblocked_if unblocked_pure(4) unblocked_pmodify)
       (simp add: Deadline_new_def)
  show ?thesis
    unfolding connect_eq case_prod_unfold
    by (intro unblocked_pbind [OF unblocked_pure(3)] unblocked_pbind [OF unblocked_pure(2)]
        unblocked_pbind [OF dial_back] unblocked_pbind [OF unblocked_pmodify]
        unblocked_pcatch [OF handshake] unblocked_pbind [OF close_back] unblocked_pure(4))
qed

lemma reconnect_back: "unblocked P reconnect (\<lambda>_. True)"
  unfolding reconnect_eq by (rule unblocked_pbind [OF close_back connect_back])

end

end
