(* ===== verification/ConnectionCalls.thy ===== *)
theory ConnectionCalls
  imports ConnectionClass
begin

text \<open>
  Whole calls on a synchronous connection: that it keeps the contract \<open>connection_class\<close>, and with it
  what \<open>send\<close> and \<open>send_chunked\<close> return when the server answers, what the in-flight flag says after
  they fail, and that no call with a deadline blocks.
\<close>

section \<open>Writing and reading\<close>

text \<open>The state after a request was handed over completely.\<close>

definition after_write :: "cstate \<Rightarrow> sock \<Rightarrow> Deadline \<Rightarrow> real \<Rightarrow> bytes \<Rightarrow> cstate" where
  "after_write s sk dl dt frame =
     ((fst s)\<lparr>cn_sock := Some (sk\<lparr>so_timeout := Deadline_remaining dl (now (snd s)), tx := tl (tx sk)\<rparr>),
        cn_request_in_flight := True\<rparr>,
      record_event (NetSend frame) ((snd s)\<lparr>now := now (snd s) + dt\<rparr>))"

lemma write_request_sent:
  assumes "cn_sock (fst s) = Some sk" and "usable sk" and "\<not> Deadline_expired dl (now (snd s))"
    and "int (length (payload command)) \<le> cn_max_message_size (fst s)"
    and "encode_frame (payload command) = Inr frame" and "sends_in sk = Some dt"
  shows "Connection_write_request command dl s = (Return (), after_write s sk dl dt frame)"
proof -
  obtain c w where s: "s = (c, w)" by (cases s)
  obtain r h sk' t where send: "sock_sendall frame (sk\<lparr>so_timeout := Deadline_remaining dl (now w)\<rparr>) (now w) = (r, h, sk', t)"
    by (metis prod_cases4)
  then have "r = Return ()" "h = frame" "t = now w + dt"
    "sk' = sk\<lparr>so_timeout := Deadline_remaining dl (now w), tx := tl (tx sk)\<rparr>"
    using assms(6) by (auto simp: sock_sendall_def sends_in_def split: list.splits sending.splits)
  then show ?thesis
    using assms(1-5) s send
    by (simp add: Connection_write_request_def Connection_require_socket_def check_request_size_def
        Connection_apply_timeout_def clock_def prog_defs Deadline_check_def conn_settimeout_def
        sock_settimeout_def conn_sendall_def set_in_flight_def after_write_def)
qed

lemma read_one_frame:
  assumes "readable dl s"
    and "framed [p] (cn_max_message_size (fst s))" and "incoming s = wire (p # fs) @ rest"
  shows "\<exists>t. Connection_read_frame dl s = (Return p, t) \<and> same_but_read s t \<and> readable dl t \<and>
    incoming t = wire fs @ rest"
proof -
  obtain sk where sk: "cn_sock (fst s) = Some sk" "usable sk" "\<forall>a \<in> set (rx sk). arrives dl a"
    "\<not> Deadline_expired dl (now (snd s))"
    using assms(1) by (auto simp: readable_def split: option.splits)
  obtain frame where frame: "encode_frame p = Inr frame"
    using assms(2) encode_frame_total [of p] by (auto simp: framed_def)
  have data: "rx_data (rx sk) = frame @ wire fs @ rest"
    using assms(3) sk frame by (simp add: incoming_def wire_def)
  have "int (length p) \<le> cn_max_message_size (fst s)" using assms(2) by (simp add: framed_def)
  from read_frame_stream [OF sk frame this data] obtain sk' t' where
    "Connection_read_frame dl s = (Return p, after_read s sk' t')" "rx_data (rx sk') = wire fs @ rest"
    "\<not> Deadline_expired dl t'" "\<forall>a \<in> set (rx sk'). arrives dl a" "usable sk'"
    by blast
  then show ?thesis
    by (intro exI [of _ "after_read s sk' t'"]) (auto simp: same_but_read_def readable_def incoming_def)
qed

lemma write_then_readable:
  assumes "can_send command dl s"
  shows "\<exists>t. Connection_write_request command dl s = (Return (), t) \<and> readable dl t \<and>
    incoming t = incoming s \<and> sends (snd t) = sends (snd s) @ [wire [payload command]] \<and>
    cn_request_in_flight (fst t) \<and> cn_max_message_size (fst t) = cn_max_message_size (fst s)"
proof -
  obtain sk dt where sk: "cn_sock (fst s) = Some sk" "usable sk" "\<forall>a \<in> set (rx sk). arrives dl a"
    "\<not> Deadline_expired dl (now (snd s))" "sends_in sk = Some dt"
    "\<not> Deadline_expired dl (now (snd s) + dt)"
    using assms by (auto simp: can_send_def readable_def split: option.splits)
  have len: "length (payload command) < 2 ^ 32" "int (length (payload command)) \<le> cn_max_message_size (fst s)"
    using assms by (simp_all add: can_send_def framed_def)
  obtain h where frame: "encode_frame (payload command) = Inr (h @ payload command)"
    using encode_frame_total [OF len(1)] by blast
  let ?t = "after_write s sk dl dt (h @ payload command)"
  have "Connection_write_request command dl s = (Return (), ?t)"
    by (rule write_request_sent) (use sk len frame in auto)
  moreover have "readable dl ?t" using sk by (simp add: readable_def after_write_def)
  moreover have "incoming ?t = incoming s" using sk by (simp add: incoming_def after_write_def)
  ultimately show ?thesis using frame
    by (intro exI [of _ ?t]) (simp add: after_write_def wire_def)
qed

section \<open>Waiting\<close>

text \<open>An open socket has a timeout. Then no socket call waits for ever.\<close>

definition timed :: "cstate \<Rightarrow> bool" where
  "timed s \<longleftrightarrow> (\<forall>sk. cn_sock (fst s) = Some sk \<longrightarrow> so_timeout sk \<noteq> None)"

lemma unblocked_recv [wp]: "unblocked timed (conn_recv n) timed"
  by (auto simp: unblocked_def timed_def conn_recv_def sock_recv_def wait_out_def Let_def
      split: prod.splits option.splits list.splits arrival.splits if_splits)

lemma unblocked_sendall [wp]: "unblocked timed (conn_sendall bs) (\<lambda>_. True)"
  by (auto simp: unblocked_def timed_def conn_sendall_def sock_sendall_def wait_out_def
      split: prod.splits option.splits list.splits sending.splits)

lemma unblocked_apply_timeout [wp]:
  "dl_at dl \<noteq> None \<Longrightarrow> unblocked P (Connection_apply_timeout dl) timed"
  by (auto simp: unblocked_def timed_def Connection_apply_timeout_def clock_def prog_defs
      conn_settimeout_def sock_settimeout_def Deadline_remaining_def
      split: prod.splits outcome.splits sum.splits option.splits if_splits)

lemma unblocked_require [wp]: "unblocked P Connection_require_socket P"
  by (auto simp: unblocked_def Connection_require_socket_def)

lemma unblocked_read_exactly [wp]: "unblocked timed (Connection_read_exactly n) timed"
proof -
  have "timed s \<Longrightarrow> fst (read_exactly_loop n buffer s) \<noteq> Blocked \<and>
      (\<forall>x t. read_exactly_loop n buffer s = (Return x, t) \<longrightarrow> timed t)" for buffer s
  proof (induction n buffer s rule: read_exactly_loop.induct)
    case (1 n buffer s)
    obtain q u where q: "conn_recv (n - length buffer) s = (q, u)"
      by (cases "conn_recv (n - length buffer) s")
    have t: "q \<noteq> Blocked" "q = Return x \<Longrightarrow> timed u" for x
      using unblockedD [OF unblocked_recv 1(2) q] by auto
    show ?case
    proof (cases "n \<le> length buffer")
      case True
      then show ?thesis using 1(2) by (auto simp: read_exactly_loop.simps)
    next
      case False
      then show ?thesis
        using t q 1(1) [OF False q [symmetric]]
        by (cases q) (auto simp: read_exactly_loop.simps [of n buffer])
    qed
  qed
  then show ?thesis by (auto simp: unblocked_def Connection_read_exactly_def)
qed

lemma unblocked_read_frame [wp]:
  assumes "dl_at dl \<noteq> None"
  shows "unblocked P (Connection_read_frame dl) (\<lambda>_. True)"
proof -
  have exact: "unblocked timed (Connection_read_exactly n) (\<lambda>_. True)"
    and none: "unblocked timed (pret x) (\<lambda>_. True)" for n x
    by (rule unblocked_conseq [OF unblocked_read_exactly] unblocked_conseq [OF unblocked_pure(1)]; simp)+
  show ?thesis
    unfolding Connection_read_frame_def
    by (intro unblocked_pbind [OF unblocked_require] unblocked_pbind [OF unblocked_apply_timeout]
        unblocked_pbind [OF unblocked_read_exactly] unblocked_pbind [OF unblocked_pure(2)]
        unblocked_pbind [OF unblocked_pure(3)] unblocked_if exact none assms)
qed

lemma unblocked_write_request [wp]:
  assumes "dl_at dl \<noteq> None"
  shows "unblocked P (Connection_write_request command dl) (\<lambda>_. True)"
proof -
  let ?send = "pbind (plift (encode_frame (payload command))) conn_sendall"
  have send: "unblocked timed ?send (\<lambda>_. True)"
    by (rule unblocked_pbind [OF unblocked_pure(2) unblocked_sendall])
  have mark: "unblocked (\<lambda>_. True) (pbind (set_in_flight b) (\<lambda>_. praise e)) (\<lambda>_. True)" for b e
    by (rule unblocked_pbind [OF unblocked_flag unblocked_pure(4)])
  show ?thesis
    unfolding Connection_write_request_def
    by (intro unblocked_pbind [OF unblocked_pure(3)] unblocked_pbind [OF unblocked_pure(2)]
        unblocked_pbind [OF unblocked_require] unblocked_pbind [OF unblocked_apply_timeout]
        unblocked_pbind [OF unblocked_pcatch [OF send]] unblocked_if unblocked_flag mark
        unblocked_pure(4) assms)
qed

section \<open>The contract\<close>

lemma quiet_open_kept: "keeps quiet m \<Longrightarrow> keeps open_kept m"
  by (auto simp: keeps_def quiet_def open_kept_def)

lemma open_kept_sendall [wp]: "keeps open_kept (conn_sendall bs)"
  by (rule keepsI) (auto simp: conn_sendall_def open_kept_def split: prod.splits option.splits)

lemma open_kept_flag [wp]: "keeps open_kept (set_in_flight b)"
  by (rule keepsI) (auto simp: set_in_flight_eq open_kept_def)

lemmas open_kept_reading [wp] = quiet_open_kept [OF quiet_require] quiet_open_kept [OF quiet_apply_timeout]

lemma open_kept_write_request [wp]: "keeps open_kept (Connection_write_request command dl)"
  unfolding Connection_write_request_def
  by (intro wp opened.keeps_pbind opened.keeps_pure opened.keeps_if opened.keeps_pcatch)

text \<open>Dialing, the TLS handshake included.\<close>

definition Connection_dial :: "connection \<Rightarrow> pystr \<Rightarrow> int \<Rightarrow> (cstate, sock) prog" where
  "Connection_dial c host port =
     pbind (pwrap PyOSError FQConnectionError
              (on_world (create_connection host port (cn_connect_timeout c)))) (\<lambda>(tls, sk).
     pbind (Connection_tls c host tls) (\<lambda>_. pret sk))"

lemma still_dial: "keeps still (Connection_dial c host port)"
proof -
  have create: "keeps still (on_world (create_connection host port d))" for d
    by (rule keepsI) (auto simp: on_world_def create_connection_def Let_def still_def sends_def
        record_event_def elapse_def split: prod.splits list.splits dial.splits)
  have wrap: "keeps still (on_world (wrap_socket h tls))" for h tls
    by (rule keepsI) (auto simp: on_world_def wrap_socket_def still_def split: prod.splits tls_result.splits)
  have hang_up: "keeps still (pmodify (\<lambda>s. (fst s, record_event NetClose (snd s))))"
    by (rule still.keeps_pmodify) (simp add: still_def)
  show ?thesis
    unfolding Connection_dial_def Connection_tls_def case_prod_unfold
    by (intro still.keeps_pbind still.keeps_pwrap still.keeps_if still.keeps_pcatch still.keeps_pure
        create wrap hang_up)
qed

lemma unblocked_dial: "unblocked P (Connection_dial c host port) (\<lambda>_. True)"
proof -
  have create: "unblocked Q (pwrap a b (on_world (create_connection h p t))) (\<lambda>_. True)" for Q a b h p t
    by (auto simp: unblocked_def prog_defs on_world_def create_connection_def Let_def
        split: prod.splits list.splits dial.splits)
  have wrap: "unblocked Q (on_world (wrap_socket h tls)) (\<lambda>_. True)" for Q h tls
    by (auto simp: unblocked_def on_world_def wrap_socket_def split: tls_result.splits)
  have none: "unblocked Q (pret x) (\<lambda>_. True)" for Q :: "cstate \<Rightarrow> bool" and x :: 'a
    by (simp add: unblocked_def pret_def)
  have tls: "unblocked Q (Connection_tls c h tls) (\<lambda>_. True)" for Q c h tls
    unfolding Connection_tls_def
    by (intro unblocked_if none unblocked_pcatch [OF wrap] unblocked_pbind [OF unblocked_pmodify]
        unblocked_pure(4))
  show ?thesis
    unfolding Connection_dial_def case_prod_unfold
    by (intro unblocked_pbind [OF create] unblocked_pbind [OF tls] none)
qed

lemma connect_dials:
  "Connection_connect = pbind (pget fst) (\<lambda>c. pbind (plift (split_address (cn_address c))) (\<lambda>(host, port).
     pbind (Connection_dial c host port) (\<lambda>sk. pbind (pmodify (\<lambda>(c, w). (install_socket sk c, w))) (\<lambda>_.
       pcatch Connection_handshake (\<lambda>e. pbind Connection_close (\<lambda>_. praise e))))))"
  by (simp add: Connection_connect_def Connection_dial_def pbind_assoc case_prod_unfold pbind_pret)

lemma close_outcome: "Connection_close s = (r, t) \<Longrightarrow> r = Return () \<and> hangs_up s r t"
  by (auto simp: Connection_close_def hangs_up_def split: prod.splits option.splits)

lemma unblocked_close: "unblocked P Connection_close (\<lambda>_. True)"
  by (auto simp: unblocked_def Connection_close_def split: option.splits)

lemma readable_sock:
  "cn_sock (fst s) = cn_sock (fst t) \<Longrightarrow> now (snd s) = now (snd t) \<Longrightarrow> readable dl s = readable dl t"
  by (simp add: readable_def split: option.split)

interpretation sync_conn: prompt_connection Connection_write_request Connection_read_frame Connection_dial
  Connection_send send_chunked_loop Connection_send_chunked Connection_close Connection_handshake
  Connection_connect Connection_reconnect readable
  by unfold_locales
     (fact write_request_outcome open_kept_write_request unblocked_write_request write_then_readable
       quiet_read_frame unblocked_read_frame still_dial unblocked_dial send_chunked_loop.simps
       Connection_send_def Connection_send_chunked_def Connection_handshake_def connect_dials
       Connection_reconnect_def unblocked_close |
      erule (2) read_one_frame | erule (1) readable_sock | erule write_then_readable |
      simp add: read_frame_Return close_outcome)+

text \<open>What can carry a call is readable.\<close>

lemma can_send_readable: "can_send command dl s \<Longrightarrow> readable dl s"
  by (simp add: can_send_def)

section \<open>What calls promise\<close>

text \<open>
  A call returns its own answer: on a connection that can carry it, whose incoming stream starts
  with the answer's frame, \<open>send\<close> hands over exactly one frame holding the command and returns
  exactly the payload of the answer, whatever the fragmentation; the request is no longer in flight
  and the stream stands right after the answer, so the next call reads its own.
\<close>

theorem send_returns_answer:
  assumes "can_send command dl s" and "framed [answer] (cn_max_message_size (fst s))"
    and "incoming s = wire [answer] @ rest"
  shows "\<exists>t. Connection_send command dl s = (Return answer, t) \<and> incoming t = rest \<and>
    sends (snd t) = sends (snd s) @ [wire [payload command]] \<and> \<not> cn_request_in_flight (fst t) \<and>
    readable dl t"
  using assms by (intro sync_conn.send_stream can_send_readable)

text \<open>
  C32. A split answer is the answer: when the server cuts a body into any number of \<open>nxt|\<close> frames and
  a final \<open>ok|\<close> frame, \<open>send_chunked\<close> returns what \<open>send\<close> would have returned had the server sent the
  body in one frame, consumes exactly these frames, and clears the in-flight flag.
\<close>

theorem send_chunked_reassembles:
  assumes "can_send command dl s"
    and "framed (map nxt_frame parts @ [''ok|'' @ last_part]) (cn_max_message_size (fst s))"
    and "incoming s = wire (map nxt_frame parts @ [''ok|'' @ last_part]) @ rest"
  shows "\<exists>t. Connection_send_chunked command dl s = (Return (''ok|'' @ concat parts @ last_part), t) \<and>
    incoming t = rest \<and> sends (snd t) = sends (snd s) @ [wire [payload command]] \<and>
    \<not> cn_request_in_flight (fst t) \<and> readable dl t"
  using assms by (intro sync_conn.chunked_stream can_send_readable)

text \<open>
  C30. The in-flight flag never under-reports: when a call, plain or chunked, fails with the flag
  clear, the request did not reach the wire complete, at most a proper prefix of its frame did, so
  repeating it cannot execute it twice; and a call that returns has handed over exactly one complete
  frame and left the flag clear.
\<close>

theorem in_flight_flag_sound:
  assumes "send \<in> {Connection_send, Connection_send_chunked}" and "send command dl s = (r, t)"
  shows "(\<forall>e. r = Raise e \<and> \<not> cn_request_in_flight (fst t) \<longrightarrow>
            sends (snd t) = sends (snd s) \<or>
            (\<exists>h frame. encode_frame (payload command) = Inr frame \<and>
               sends (snd t) = sends (snd s) @ [h] \<and> strict_prefix h frame)) \<and>
         (\<forall>x. r = Return x \<longrightarrow> \<not> cn_request_in_flight (fst t) \<and>
            (\<exists>frame. encode_frame (payload command) = Inr frame \<and> sends (snd t) = sends (snd s) @ [frame]))"
proof -
  have "call_outcome command s r t"
    using assms sync_conn.send_outcome sync_conn.send_chunked_outcome by blast
  then show ?thesis
    by (auto simp: call_outcome_def strict_prefix_def split: outcome.splits)
qed

text \<open>
  Nothing hangs under a deadline: whatever the server and the network do (no answer, a stalled
  send, half a frame, any number of \<open>nxt|\<close> frames), \<open>send\<close> and \<open>send_chunked\<close> with a deadline and
  \<open>reconnect\<close> always come back with a value or an exception.
\<close>

theorem deadline_calls_come_back:
  assumes "dl_at dl \<noteq> None"
  shows "fst (Connection_send command dl s) \<noteq> Blocked \<and>
         fst (Connection_send_chunked command dl s) \<noteq> Blocked \<and>
         fst (Connection_reconnect s) \<noteq> Blocked"
  using sync_conn.send_back [OF assms, of "\<lambda>_. True"] sync_conn.send_chunked_back [OF assms, of "\<lambda>_. True"]
    sync_conn.reconnect_back [of "\<lambda>_. True"]
  by (simp only: unblocked_def) blast

end
