(* ===== verification/ConnectionLife.thy ===== *)
theory ConnectionLife
  imports ConnectionCalls
begin

text \<open>
  The life of a connection: opening and reopening it, what a failed opening leaves, and two ways in
  which a connection that stays open after a timeout loses its place in the stream.
\<close>

section \<open>What a call takes from the stream\<close>

text \<open>\<open>unread s t\<close>: nothing was read between \<open>s\<close> and \<open>t\<close>, and the message limit is the same.\<close>

definition unread :: "cstate \<Rightarrow> cstate \<Rightarrow> bool" where
  "unread s t \<longleftrightarrow> incoming t = incoming s \<and> cn_max_message_size (fst t) = cn_max_message_size (fst s)"

interpretation unread: step_order unread
  by unfold_locales (auto simp: unread_def)

lemma unread_settimeout [wp]: "keeps unread (conn_settimeout d)"
  by (rule keepsI) (auto simp: conn_settimeout_def sock_settimeout_def unread_def incoming_def
      split: prod.splits option.splits if_splits)

lemma unread_sendall [wp]: "keeps unread (conn_sendall bs)"
  by (rule keepsI) (auto simp: conn_sendall_def sock_sendall_def unread_def incoming_def
      split: prod.splits option.splits list.splits sending.splits)

lemma unread_flag [wp]: "keeps unread (set_in_flight b)"
  by (rule keepsI) (auto simp: set_in_flight_def pmodify_def unread_def incoming_def split: prod.splits)

lemma unread_require [wp]: "keeps unread Connection_require_socket"
  by (rule keepsI) (auto simp: Connection_require_socket_def unread_def split: if_splits)

lemma unread_apply_timeout [wp]: "keeps unread (Connection_apply_timeout dl)"
  unfolding Connection_apply_timeout_def clock_def
  by (intro wp unread.keeps_pbind unread.keeps_pure unread.keeps_pwrap)

lemma unread_write_request [wp]: "keeps unread (Connection_write_request command dl)"
  unfolding Connection_write_request_def
  by (intro wp unread.keeps_pbind unread.keeps_pure unread.keeps_if unread.keeps_pcatch)

lemma sock_recv_data: "sock_recv n sk t = (Return bs, sk', t') \<Longrightarrow> rx_data (rx sk) = bs @ rx_data (rx sk')"
  by (auto simp: sock_recv_def Let_def wait_out_not_Return
      split: list.splits arrival.splits prod.splits if_splits)

lemma conn_recv_takes: "conn_recv n s = (Return bs, t) \<Longrightarrow>
    incoming s = bs @ incoming t \<and> cn_max_message_size (fst t) = cn_max_message_size (fst s)"
  by (auto simp: conn_recv_def incoming_def dest: sock_recv_data split: prod.splits option.splits)

lemma read_loop_takes:
  "read_exactly_loop n buffer s = (Return bs, t) \<Longrightarrow> length buffer \<le> n \<Longrightarrow>
     (\<exists>cs. bs = buffer @ cs \<and> incoming s = cs @ incoming t) \<and>
     cn_max_message_size (fst t) = cn_max_message_size (fst s)"
proof (induction n buffer s arbitrary: bs t rule: read_exactly_loop.induct)
  case (1 n buffer s)
  show ?case
  proof (cases "n \<le> length buffer")
    case True
    with 1(2) show ?thesis by (simp add: read_exactly_loop.simps)
  next
    case False
    with 1(2) obtain chunk u where r: "conn_recv (n - length buffer) s = (Return chunk, u)"
      "chunk \<noteq> []" "read_exactly_loop n (buffer @ chunk) u = (Return bs, t)"
      by (subst (asm) read_exactly_loop.simps) (auto split: prod.splits outcome.splits if_splits)
    have "length chunk \<le> n - length buffer" using conn_recv_Return [OF r(1)] by blast
    with False have "length (buffer @ chunk) \<le> n" by simp
    from 1(1) [OF False r(1) [symmetric] refl r(2,3) this] conn_recv_takes [OF r(1)] show ?thesis by auto
  qed
qed

lemma read_exactly_takes:
  "Connection_read_exactly n s = (Return bs, t) \<Longrightarrow> length bs = n \<and> incoming s = bs @ incoming t \<and>
     cn_max_message_size (fst t) = cn_max_message_size (fst s)"
  using read_loop_takes [of n "[]" s bs t] Connection_read_exactly_Return [of n s bs t]
  by (auto simp: Connection_read_exactly_def)

text \<open>What \<open>_read_frame\<close> returns is the payload of the frame that the stream starts with.\<close>

definition starts_with_frame :: "bytes \<Rightarrow> bytes \<Rightarrow> bytes \<Rightarrow> bool" where
  "starts_with_frame bs f rest \<longleftrightarrow> (\<exists>frame. encode_frame f = Inr frame \<and> bs = frame @ rest)"

lemma read_frame_takes:
  assumes "Connection_read_frame dl s = (Return f, t)"
  shows "starts_with_frame (incoming s) f (incoming t)"
proof -
  obtain s1 header s2 where a: "Connection_apply_timeout dl s = (Return (), s1)"
    and h: "Connection_read_exactly FRAME_HEADER_SIZE s1 = (Return header, s2)"
    and rest: "pbind (plift (decode_frame_size header (cn_max_message_size (fst s2)))) (\<lambda>size.
       if size = 0 then pret [] else Connection_read_exactly size) s2 = (Return f, t)"
    using assms
    by (auto simp: Connection_read_frame_def pbind_eq_Return pget_def case_prod_unfold
        dest!: require_socket_Return)
  from rest have body: "decode_frame_size header (cn_max_message_size (fst s2)) = Inr (length f)"
    "incoming s2 = f @ incoming t"
    by (auto simp: pbind_eq_Return pret_def split: if_splits dest: read_exactly_takes)
  have "encode_frame f = Inr (header @ f)"
    using decode_frame_size_exact [OF body(1)] by (simp add: encode_frame_def)
  then show ?thesis
    using keepsD [OF unread_apply_timeout a] read_exactly_takes [OF h] body(2)
    by (simp add: unread_def starts_with_frame_def)
qed

lemma send_takes:
  assumes "Connection_send command dl s = (Return answer, t)"
  shows "starts_with_frame (incoming s) answer (incoming t)"
proof -
  obtain u v where w: "Connection_write_request command dl s = (Return (), u)"
    and f: "Connection_read_frame dl u = (Return answer, v)" and t: "set_in_flight False v = (Return (), t)"
    using assms by (auto simp: Connection_send_def pbind_eq_Return pret_def)
  show ?thesis
    using keepsD [OF unread_write_request w] read_frame_takes [OF f] keepsD [OF unread_flag t]
    by (simp add: unread_def)
qed

section \<open>Opening\<close>

text \<open>What a connection holds after its handshake was answered.\<close>

definition announced :: "bytes \<Rightarrow> connection \<Rightarrow> bool" where
  "announced answer c \<longleftrightarrow> (\<exists>info. parse_hello answer = Inr info \<and> hi_version info = PROTOCOL_VERSION \<and>
     cn_max_message_size c = hi_max_message_size info \<and> cn_role c = hi_role info \<and>
     cn_auth_required c = hi_auth_required info)"

lemma handshake_takes:
  assumes "Connection_handshake s = (Return (), t)"
  shows "\<exists>answer. starts_with_frame (incoming s) answer (incoming t) \<and> announced answer (fst t)"
proof -
  obtain command dl answer u info where
    "Connection_send command dl s = (Return answer, u)" "parse_hello answer = Inr info"
    "hi_version info = PROTOCOL_VERSION" "t = (apply_hello info (fst u), snd u)"
    using assms
    by (auto simp: Connection_handshake_def clock_def pbind_eq_Return pget_def pmodify_def praise_def
        split: if_splits prod.splits)
  moreover have "incoming (apply_hello info (fst u), snd u) = incoming u"
    by (simp add: incoming_def apply_hello_def)
  ultimately show ?thesis
    using send_takes [of command dl s answer u]
    by (intro exI [of _ answer]) (simp add: announced_def apply_hello_def)
qed

lemma reraised_Return: "pcatch m (\<lambda>e. pbind k (\<lambda>_. praise e)) s = (Return x, t) \<Longrightarrow> m s = (Return x, t)"
  by (auto simp: pcatch_def pbind_def praise_def split: prod.splits outcome.splits)

lemma connect_takes:
  assumes "Connection_connect s = (Return (), t)"
  shows "\<exists>dt tls sk rest answer. dials (snd s) = Accepted dt tls sk # rest \<and>
    starts_with_frame (rx_data (rx sk)) answer (incoming t) \<and> announced answer (fst t)"
proof -
  obtain host port tls sk u v where
    dial: "pwrap PyOSError FQConnectionError (on_world (create_connection host port (cn_connect_timeout (fst s)))) s =
      (Return (tls, sk), u)"
    and shake: "Connection_handshake (install_socket sk (fst v), snd v) = (Return (), t)"
    using assms
    by (fastforce simp: Connection_connect_def pbind_eq_Return pget_def pmodify_def case_prod_unfold
        dest: reraised_Return)
  from dial obtain dt sk0 rest where "dials (snd s) = Accepted dt tls sk0 # rest" "rx sk = rx sk0"
    by (auto simp: pwrap_def pcatch_def praise_def on_world_def create_connection_def Let_def record_event_def
        split: prod.splits list.splits dial.splits)
  moreover have "incoming (install_socket sk (fst v), snd v) = rx_data (rx sk)"
    by (simp add: incoming_def install_socket_def)
  ultimately show ?thesis using handshake_takes [OF shake] by auto
qed

lemma reconnect_takes:
  assumes "Connection_reconnect s = (Return (), t)"
  shows "\<exists>dt tls sk rest answer. dials (snd s) = Accepted dt tls sk # rest \<and>
    starts_with_frame (rx_data (rx sk)) answer (incoming t) \<and> announced answer (fst t)"
proof -
  obtain u where u: "Connection_close s = (Return (), u)" "Connection_connect u = (Return (), t)"
    using assms by (auto simp: Connection_reconnect_def pbind_eq_Return)
  have "dials (snd u) = dials (snd s)"
    using u(1) by (auto simp: Connection_close_def record_event_def split: prod.splits option.splits)
  with connect_takes [OF u(2)] show ?thesis by simp
qed

text \<open>
  C31. Reopening is all or nothing. When \<open>reconnect\<close> returns, the connection is open with no request in
  flight, on the socket of the server dialled now; the first frame that this server sent answers the
  handshake with the client's protocol version; the message limit, role and auth flag in place are
  those of that answer; and the stream stands right behind it. When \<open>reconnect\<close> raises, the connection
  is closed, so a failed attempt leaves no half-open socket to be used later. It hands over at most a
  HELLO.
\<close>

theorem reconnect_all_or_nothing:
  assumes "Connection_reconnect s = (r, t)"
  shows "(\<forall>e. r = Raise e \<longrightarrow> cn_sock (fst t) = None) \<and>
    (r = Return () \<longrightarrow> cn_sock (fst t) \<noteq> None \<and> \<not> cn_request_in_flight (fst t) \<and>
       (\<exists>dt tls sk rest answer frame info. dials (snd s) = Accepted dt tls sk # rest \<and>
          encode_frame answer = Inr frame \<and> rx_data (rx sk) = frame @ incoming t \<and>
          parse_hello answer = Inr info \<and> hi_version info = PROTOCOL_VERSION \<and>
          cn_max_message_size (fst t) = hi_max_message_size info \<and>
          cn_role (fst t) = hi_role info \<and> cn_auth_required (fst t) = hi_auth_required info)) \<and>
    greets s t"
proof -
  have "\<exists>dt tls sk rest answer frame info. dials (snd s) = Accepted dt tls sk # rest \<and>
      encode_frame answer = Inr frame \<and> rx_data (rx sk) = frame @ incoming t \<and> parse_hello answer = Inr info \<and>
      hi_version info = PROTOCOL_VERSION \<and> cn_max_message_size (fst t) = hi_max_message_size info \<and>
      cn_role (fst t) = hi_role info \<and> cn_auth_required (fst t) = hi_auth_required info"
    if "r = Return ()"
    using reconnect_takes [OF assms [unfolded that]] unfolding announced_def starts_with_frame_def by blast
  with sync_conn.reconnect_outcome [OF assms] show ?thesis by blast
qed

text \<open>Bundles that evaluate a concrete run.\<close>

lemmas decimal_eval = str_isdigit_def is_unicode_digit_def int_of_str_def decimal_digit_def
  DECIMAL_ZEROS_def int_of_digits_def INT_MAX_STR_DIGITS_def dec_value_def str_int_def dec_digits.simps

lemmas text_eval = ustr_def encode_utf8_def utf8_char_def byte_of_def char_of_def bit_Suc_0_iff

lemmas answer_eval = ok_data_def split_response_def RESP_DELIMITER_def TAG_OK_def TAG_ERR_def
  resp_fields_def FIELD_DELIMITER_def parse_uint_def bytes_isdigit_def bytes_isascii_def
  is_ascii_digit_def int_of_bytes_def digit_of_byte_def int_of_digits_def INT_MAX_STR_DIGITS_def
  dec_value_def parse_bool_field_def

lemmas run_defs = Connection_require_socket_def Connection_apply_timeout_def Connection_read_exactly_def
  Connection_read_frame_def Connection_write_request_def Connection_send_def Connection_close_def
  apply_hello_def Connection_handshake_def tls_hostname_def Connection_tls_def install_socket_def
  Connection_connect_def Connection_reconnect_def on_world_def clock_def set_in_flight_def conn_recv_def
  conn_sendall_def conn_settimeout_def sock_recv_def sock_sendall_def sock_settimeout_def
  create_connection_def wrap_socket_def in_time_def wait_out_def record_event_def elapse_def
  prog_defs deadline_defs sample_defs Connection_new_def FRAME_HEADER_SIZE_def read_exactly_loop.simps
  encode_frame_def to_bytes4_def check_request_size_def DEFAULT_MAX_MESSAGE_SIZE_def
  decode_frame_size_def from_bytes_def PROTOCOL_VERSION_def

lemma sample_address: "split_address (ustr ''fq:1'') = Inr (ustr ''fq'', 1)"
  by (simp add: split_address_def COLON_def ustr_def rpartition_at_def decimal_eval)

lemma sample_hello: "hello None = Inr \<lparr>payload = ''HELLO 1'', read_only = True\<rparr>"
  by (simp add: hello_def cmd_read_only_def cmd_join_def kw_def SPACE_def PROTOCOL_VERSION_def
      decimal_eval text_eval)

lemma sample_hello_answer:
  "parse_hello ''ok|1;4096;0;admin'' = Inr \<lparr>hi_version = 1, hi_max_message_size = 4096,
     hi_auth_required = False, hi_role = decode_replace ''admin''\<rparr>"
  by (simp add: parse_hello_def answer_eval)

text \<open>A server that answers the HELLO in two pieces, the second a second late.\<close>

definition sample_server :: "arrival list \<Rightarrow> sock" where
  "sample_server more_arrivals = sample_sock
     ([Chunk 0 (map byte_of [0, 0, 0, 17] @ ''ok|1;''), Chunk 1 ''4096;0;admin''] @ more_arrivals) []"

definition sample_closed :: connection where
  "sample_closed = Connection_new (ustr ''fq:1'') None None None 5"

lemmas sample_eval = run_defs sample_address sample_hello sample_hello_answer sample_server_def
  sample_closed_def

theorem reconnect_all_or_nothing_witness:
  "\<exists>t. Connection_reconnect (sample_closed, sample_world [Accepted 0 (TlsOk 0) (sample_server [])]) =
     (Return (), t) \<and> cn_sock (fst t) \<noteq> None \<and> now (snd t) = 1"
proof -
  let ?s = "(sample_closed, sample_world [Accepted 0 (TlsOk 0) (sample_server [])])"
  have run: "fst (Connection_reconnect ?s) = Return ()" "now (snd (snd (Connection_reconnect ?s))) = 1"
    by (simp_all add: sample_eval)
  obtain t where t: "Connection_reconnect ?s = (Return (), t)"
    using run(1) by (cases "Connection_reconnect ?s") simp
  from reconnect_all_or_nothing [OF t] t run(2) show ?thesis by simp
qed

section \<open>A connection that lost its place\<close>

text \<open>
  C33. A call that times out leaves its answer behind: when the first byte of the answer comes after
  the deadline, \<open>send\<close> raises FQTimeoutError and the connection stays open, so it goes back to the
  pool as reusable; and the next call that uses it, for any other command, returns the late answer of
  the first one as if it were its own. (Nothing closes the connection on a timeout.)
\<close>

theorem late_answer_goes_to_next_call:
  assumes "cn_sock (fst s) = Some sk" and "usable sk" and "sends_in sk = Some dt"
    and "framed [payload command, answer] (cn_max_message_size (fst s))"
    and "dl_at dl = Some e" and "now (snd s) + dt < e"
    and "rx sk = Chunk t0 bs # more_arrivals" and "e < t0"
    and "incoming s = wire [answer] @ rest"
  shows "\<exists>t. Connection_send command dl s = (Raise (Exc FQTimeoutError), t) \<and>
    \<not> Connection_closed (fst t) \<and>
    (\<forall>command' dl'. can_send command' dl' t \<longrightarrow> fst (Connection_send command' dl' t) = Return answer)"
proof -
  have len: "length (payload command) < 2 ^ 32" "int (length (payload command)) \<le> cn_max_message_size (fst s)"
    using assms(4) by (simp_all add: framed_def)
  obtain h where frame: "encode_frame (payload command) = Inr (h @ payload command)"
    using encode_frame_total [OF len(1)] by blast
  have dt: "0 \<le> dt" using assms(3) by (auto simp: sends_in_def split: list.splits sending.splits)
  let ?u = "after_write s sk dl dt (h @ payload command)"
  let ?sk = "sk\<lparr>so_timeout := Some (e - (now (snd s) + dt)), tx := tl (tx sk)\<rparr>"
  let ?t = "((fst s)\<lparr>cn_sock := Some ?sk, cn_request_in_flight := True\<rparr>,
    record_event (NetSend (h @ payload command)) ((snd s)\<lparr>now := e\<rparr>))"
  have "Connection_write_request command dl s = (Return (), ?u)"
    by (rule write_request_sent) (use assms dt len frame in \<open>auto simp: deadline_defs\<close>)
  moreover have "Connection_read_frame dl ?u = (Raise (Exc FQTimeoutError), ?t)"
    using assms
    by (simp add: Connection_read_frame_def after_write_def Connection_require_socket_def
        Connection_apply_timeout_def clock_def prog_defs deadline_defs conn_settimeout_def
        sock_settimeout_def Connection_read_exactly_def read_exactly_loop.simps conn_recv_def
        sock_recv_def in_time_def wait_out_def FRAME_HEADER_SIZE_def record_event_def)
  ultimately have t: "Connection_send command dl s = (Raise (Exc FQTimeoutError), ?t)"
    by (simp add: Connection_send_def pbind_def)
  have "incoming ?t = wire [answer] @ rest" "framed [answer] (cn_max_message_size (fst ?t))"
    using assms by (simp_all add: incoming_def framed_def)
  then have "fst (Connection_send command' dl' ?t) = Return answer" if "can_send command' dl' ?t"
    for command' dl' using sync_conn.send_stream [OF that can_send_readable [OF that]] by fastforce
  with t show ?thesis by (intro exI [of _ ?t]) (auto simp: Connection_closed_def)
qed

text \<open>
  A polled stream that times out inside a frame loses bytes: when a piece of a header has arrived
  and the rest has not by the end of the poll interval, the generator yields None, but the bytes read
  are gone, so the next read takes the middle of the frame for a header.
\<close>

theorem poll_timeout_drops_bytes:
  assumes "cn_sock (fst s) = Some sk" and "usable sk" and "0 < interval"
    and "rx sk = Chunk t0 bs # Chunk t1 cs # more_arrivals"
    and "t0 \<le> now (snd s)" and "now (snd s) + interval < t1"
    and "0 < length bs" and "length bs < FRAME_HEADER_SIZE"
  shows "\<exists>t. Connection_stream_next (Some interval) s = (Return None, t) \<and>
    incoming s = bs @ incoming t \<and> \<not> Connection_closed (fst t)"
proof -
  obtain c w where s: "s = (c, w)" by (cases s)
  let ?sk = "sk\<lparr>so_timeout := Some interval, rx := Chunk t1 cs # more_arrivals\<rparr>"
  let ?t = "((fst s)\<lparr>cn_sock := Some ?sk\<rparr>, (snd s)\<lparr>now := now (snd s) + interval\<rparr>)"
  have "Connection_read_frame (Deadline_new (Some interval) (now (snd s))) s =
      (Raise (Exc FQTimeoutError), ?t)"
    using assms s
    by (simp add: Connection_read_frame_def Connection_require_socket_def
        Connection_apply_timeout_def clock_def prog_defs deadline_defs conn_settimeout_def
        sock_settimeout_def Connection_read_exactly_def read_exactly_loop.simps conn_recv_def
        sock_recv_def in_time_def wait_out_def FRAME_HEADER_SIZE_def)
  then have "Connection_stream_next (Some interval) s = (Return None, ?t)"
    by (simp add: Connection_stream_next_def clock_def prog_defs case_prod_unfold)
  then show ?thesis
    using assms by (intro exI [of _ ?t]) (simp add: incoming_def Connection_closed_def)
qed

section \<open>Concrete instances\<close>

definition sample_command :: Command where
  "sample_command = \<lparr>payload = ''INCR k 1'', read_only = False\<rparr>"

text \<open>The frames of two answers, each cut in two, the first part at \<open>t0\<close>.\<close>

definition sample_answers :: "real \<Rightarrow> arrival list" where
  "sample_answers t0 = [Chunk t0 (map byte_of [0, 0, 0]), Chunk t0 (map byte_of [4] @ ''ok|7''),
     Chunk t0 (map byte_of [0, 0, 0, 4]), Chunk t0 ''ok|8'']"

definition sample_state :: "arrival list \<Rightarrow> cstate" where
  "sample_state as = (sample_connection (sample_sock as []), sample_world [])"

lemmas sample_call_eval = sample_command_def sample_answers_def sample_state_def sample_defs
  sends_in_def can_send_def framed_def readable_def arrives_def incoming_def wire_def
  encode_frame_def to_bytes4_def deadline_defs

theorem send_returns_answer_witness:
  "\<exists>t. Connection_send sample_command \<lparr>dl_at = Some 5\<rparr> (sample_state (sample_answers 1)) = (Return ''ok|7'', t) \<and>
     incoming t = map byte_of [0, 0, 0, 4] @ ''ok|8''"
proof -
  let ?s = "sample_state (sample_answers 1)" and ?dl = "\<lparr>dl_at = Some 5\<rparr>"
  have "can_send sample_command ?dl ?s" "framed [''ok|7''] (cn_max_message_size (fst ?s))"
    "incoming ?s = wire [''ok|7''] @ map byte_of [0, 0, 0, 4] @ ''ok|8''"
    by (simp_all add: sample_call_eval)
  from send_returns_answer [OF this] show ?thesis by blast
qed

theorem send_chunked_reassembles_witness:
  "\<exists>t. Connection_send_chunked sample_command \<lparr>dl_at = Some 5\<rparr>
     (sample_state [Chunk 1 (map byte_of [0, 0, 0, 5, 0x6E, 0x78, 0x74, 0x7C, 0x61, 0, 0, 0, 4] @ ''ok|b'')]) =
     (Return ''ok|ab'', t)"
proof -
  let ?s = "sample_state [Chunk 1 (map byte_of [0, 0, 0, 5, 0x6E, 0x78, 0x74, 0x7C, 0x61, 0, 0, 0, 4] @ ''ok|b'')]"
  have "can_send sample_command \<lparr>dl_at = Some 5\<rparr> ?s"
    "framed (map nxt_frame [''a''] @ [''ok|'' @ ''b'']) (cn_max_message_size (fst ?s))"
    "incoming ?s = wire (map nxt_frame [''a''] @ [''ok|'' @ ''b'']) @ []"
    by (simp_all add: sample_call_eval nxt_frame_def byte_of_def char_of_def bit_Suc_0_iff)
  from send_chunked_reassembles [OF this] show ?thesis by auto
qed

theorem in_flight_flag_sound_witness:
  "\<exists>t. Connection_send sample_command \<lparr>dl_at = Some 5\<rparr> (sample_closed, sample_world []) =
     (Raise (Exc FQConnectionError), t) \<and> \<not> cn_request_in_flight (fst t) \<and> sends (snd t) = []"
proof -
  let ?s = "(sample_closed, sample_world [])"
  have e: "Connection_send sample_command \<lparr>dl_at = Some 5\<rparr> ?s = (Raise (Exc FQConnectionError), ?s)"
    by (simp add: sample_eval sample_command_def)
  from in_flight_flag_sound [of Connection_send, OF _ e] show ?thesis
    using e by (simp add: sample_closed_def Connection_new_def sends_def sample_world_def)
qed

theorem deadline_calls_come_back_witness:
  "fst (Connection_send_chunked sample_command \<lparr>dl_at = Some 5\<rparr> (sample_state [])) \<noteq> Blocked"
  using deadline_calls_come_back [of "\<lparr>dl_at = Some 5\<rparr>"] by simp

theorem late_answer_goes_to_next_call_witness:
  "\<exists>t. Connection_send sample_command \<lparr>dl_at = Some 5\<rparr> (sample_state (sample_answers 6)) =
       (Raise (Exc FQTimeoutError), t) \<and> \<not> Connection_closed (fst t) \<and>
     fst (Connection_send \<lparr>payload = ''GET k 1'', read_only = True\<rparr> \<lparr>dl_at = Some 10\<rparr> t) = Return ''ok|7''"
proof -
  let ?s = "sample_state (sample_answers 6)" and ?dl = "\<lparr>dl_at = Some 5\<rparr>"
  let ?get = "\<lparr>payload = ''GET k 1'', read_only = True\<rparr>"
  obtain r t where t: "Connection_send sample_command ?dl ?s = (r, t)"
    by (cases "Connection_send sample_command ?dl ?s")
  have "can_send ?get \<lparr>dl_at = Some 10\<rparr> (snd (Connection_send sample_command ?dl ?s))"
    by (simp add: sample_call_eval sample_eval)
  then have get: "can_send ?get \<lparr>dl_at = Some 10\<rparr> t" using t by simp
  have "\<exists>t. Connection_send sample_command ?dl ?s = (Raise (Exc FQTimeoutError), t) \<and>
    \<not> Connection_closed (fst t) \<and>
    (\<forall>command' dl'. can_send command' dl' t \<longrightarrow> fst (Connection_send command' dl' t) = Return ''ok|7'')"
    by (rule late_answer_goes_to_next_call [where sk = "sample_sock (sample_answers 6) []" and
          dt = 0 and e = 5 and ?t0.0 = 6 and bs = "map byte_of [0, 0, 0]" and
          more_arrivals = "tl (sample_answers 6)" and rest = "map byte_of [0, 0, 0, 4] @ ''ok|8''"])
       (simp_all add: sample_call_eval)
  with t get show ?thesis by auto
qed

theorem poll_timeout_drops_bytes_witness:
  "\<exists>t. Connection_stream_next (Some (1 / 4))
      (sample_state (Chunk 0 (map byte_of [0, 0, 0]) # sample_answers 6)) = (Return None, t) \<and>
    \<not> Connection_closed (fst t)"
proof -
  let ?s = "sample_state (Chunk 0 (map byte_of [0, 0, 0]) # sample_answers 6)"
  have "\<exists>t. Connection_stream_next (Some (1 / 4)) ?s = (Return None, t) \<and>
      incoming ?s = map byte_of [0, 0, 0] @ incoming t \<and> \<not> Connection_closed (fst t)"
    by (rule poll_timeout_drops_bytes [where ?t0.0 = 0 and ?t1.0 = 6 and
          sk = "sample_sock (Chunk 0 (map byte_of [0, 0, 0]) # sample_answers 6) []" and
          cs = "map byte_of [0, 0, 0]" and more_arrivals = "tl (sample_answers 6)"]) (simp_all add: sample_call_eval FRAME_HEADER_SIZE_def)
  then show ?thesis by blast
qed

end
