(* ===== verification/Retry.thy ===== *)
theory Retry
  imports ConnectionLife
begin

text \<open>
  The retry loop of a call (\<open>Client._with_retry\<close>, \<open>Client._backoff\<close>). It is written once over the
  operations it uses, because the synchronous and the asynchronous client and the plain and the
  chunked call share it. The locale \<open>transport\<close> states what the loop may rely on: when a call failed
  with the in-flight flag clear the request was not delivered, and neither backing off nor
  reconnecting delivers it. Its theorem is that a mutating command is delivered at most once.
\<close>

section \<open>The loop\<close>

text \<open>
  One pass of the \<open>while True\<close>: \<open>Inl\<close> is leaving the loop with an outcome, \<open>Inr\<close> is another pass with
  the attempt counter increased. \<open>flag\<close> is \<open>connection.request_in_flight\<close>.
\<close>

definition retry_step ::
  "(nat \<Rightarrow> bool) \<Rightarrow> ('s, bytes) prog \<Rightarrow> (nat \<Rightarrow> ('s, unit) prog) \<Rightarrow> ('s, unit) prog \<Rightarrow> ('s \<Rightarrow> bool) \<Rightarrow>
   bool \<Rightarrow> nat \<Rightarrow> 's \<Rightarrow> (bytes outcome \<times> 's) + 's" where
  "retry_step exhausted send backoff reconnect flag safe attempt s = (case send s of
      (Return response, s1) \<Rightarrow> Inl (Return response, s1)
    | (Blocked, s1) \<Rightarrow> Inl (Blocked, s1)
    | (Raise e, s1) \<Rightarrow>
        if catches FQTimeoutError e then Inl (Raise e, s1)
        else if \<not> catches FQConnectionError e then Inl (Raise e, s1)
        else if flag s1 \<and> \<not> safe then Inl (Raise e, s1)
        else if exhausted (attempt + 1) then Inl (Raise e, s1)
        else case backoff (attempt + 1) s1 of
            (Raise e', s2) \<Rightarrow> Inl (Raise e', s2)
          | (Blocked, s2) \<Rightarrow> Inl (Blocked, s2)
          | (Return u, s2) \<Rightarrow> (case reconnect s2 of
                (Return u, s3) \<Rightarrow> Inr s3
              | (Blocked, s3) \<Rightarrow> Inl (Blocked, s3)
              | (Raise e', s3) \<Rightarrow>
                  if catches FQTimeoutError e' then Inl (Raise e', s3)
                  else if catches FQConnectionError e' then Inr s3
                  else Inl (Raise e', s3)))"

text \<open>The loop; \<open>None\<close> stands for going round for ever.\<close>

partial_function (option) retry_loop ::
  "(nat \<Rightarrow> bool) \<Rightarrow> ('s, bytes) prog \<Rightarrow> (nat \<Rightarrow> ('s, unit) prog) \<Rightarrow> ('s, unit) prog \<Rightarrow> ('s \<Rightarrow> bool) \<Rightarrow>
   bool \<Rightarrow> nat \<Rightarrow> 's \<Rightarrow> (bytes outcome \<times> 's) option" where
  "retry_loop exhausted send backoff reconnect flag safe attempt s =
     (case retry_step exhausted send backoff reconnect flag safe attempt s of
        Inl r \<Rightarrow> Some r
      | Inr s' \<Rightarrow> retry_loop exhausted send backoff reconnect flag safe (attempt + 1) s')"

text \<open>When the attempts are limited, or backing off fails from some attempt on, the loop ends.\<close>

lemma retry_loop_ends:
  assumes "\<And>n u. N \<le> n \<Longrightarrow> exhausted n \<or> (\<forall>u. fst (backoff n u) \<noteq> Return ())"
  shows "\<exists>r. retry_loop exhausted send backoff reconnect flag safe attempt s = Some r"
proof (induction "N - attempt" arbitrary: attempt s rule: less_induct)
  case less
  show ?case
  proof (cases "retry_step exhausted send backoff reconnect flag safe attempt s")
    case (Inl r)
    then show ?thesis by (subst retry_loop.simps) simp
  next
    case (Inr s')
    have "attempt + 1 < N"
    proof (rule ccontr)
      assume "\<not> attempt + 1 < N"
      then have "exhausted (attempt + 1) \<or> (\<forall>u. fst (backoff (attempt + 1) u) \<noteq> Return ())"
        using assms by simp
      with Inr show False
        by (auto simp: retry_step_def split: prod.splits outcome.splits if_splits)
           (metis fst_conv)+
    qed
    then have "N - (attempt + 1) < N - attempt" by simp
    from less [OF this, of s'] Inr show ?thesis by (subst retry_loop.simps) simp
  qed
qed

text \<open>Induction on the passes: what every pass keeps holds when the loop is left.\<close>

definition passes ::
  "('s \<Rightarrow> bool) \<Rightarrow> (nat \<Rightarrow> 's \<Rightarrow> (bytes outcome \<times> 's) + 's) \<Rightarrow> (bytes outcome \<times> 's \<Rightarrow> bool) \<Rightarrow> bool" where
  "passes I step Q \<longleftrightarrow> (\<forall>n s. I s \<longrightarrow> (case step n s of Inl y \<Rightarrow> Q y | Inr t \<Rightarrow> I t))"

lemma passes_Inl: "passes I step Q \<Longrightarrow> I s \<Longrightarrow> step n s = Inl y \<Longrightarrow> Q y"
  and passes_Inr: "passes I step Q \<Longrightarrow> I s \<Longrightarrow> step n s = Inr t \<Longrightarrow> I t"
  unfolding passes_def by (metis sum.case)+

lemma retry_loop_induct:
  assumes "retry_loop exhausted send backoff reconnect flag safe attempt s = Some y"
    and "passes I (retry_step exhausted send backoff reconnect flag safe) Q" and "I s"
  shows "Q y"
proof -
  have "passes I (retry_step exhausted send backoff reconnect flag safe) Q \<longrightarrow> I s \<longrightarrow> Q y"
  proof (rule retry_loop.raw_induct [where P = "\<lambda>exhausted send backoff reconnect flag safe n s y.
        passes I (retry_step exhausted send backoff reconnect flag safe) Q \<longrightarrow> I s \<longrightarrow> Q y", OF _ assms(1)])
    fix loop exhausted send backoff reconnect flag safe n and s :: 'a and y
    assume IH: "\<And>exhausted send backoff reconnect flag safe n s y.
        loop exhausted send backoff reconnect flag safe n s = Some y \<Longrightarrow>
        passes I (retry_step exhausted send backoff reconnect flag safe) Q \<longrightarrow> I s \<longrightarrow> Q y"
      and run: "(case retry_step exhausted send backoff reconnect flag safe n s of Inl r \<Rightarrow> Some r
        | Inr s' \<Rightarrow> loop exhausted send backoff reconnect flag safe (n + 1) s') = Some y"
    show "passes I (retry_step exhausted send backoff reconnect flag safe) Q \<longrightarrow> I s \<longrightarrow> Q y"
    proof (intro impI)
      assume pass: "passes I (retry_step exhausted send backoff reconnect flag safe) Q" and I: "I s"
      show "Q y"
      proof (cases "retry_step exhausted send backoff reconnect flag safe n s")
        case (Inl z)
        with run passes_Inl [OF pass I] show ?thesis by simp
      next
        case (Inr t)
        then have "I t" by (rule passes_Inr [OF pass I])
        with IH [of exhausted send backoff reconnect flag safe "n + 1" t y] run Inr pass
        show ?thesis by simp
      qed
    qed
  qed
  with assms show ?thesis by blast
qed

section \<open>At most once\<close>

text \<open>
  \<open>delivered c s\<close> counts the complete copies of \<open>c\<close> handed over so far; \<open>valid\<close> the commands a client
  sends (a HELLO is the connection's own).
\<close>

locale transport =
  fixes send :: "'c \<Rightarrow> 'd \<Rightarrow> ('s, bytes) prog"
    and backoff :: "'d \<Rightarrow> nat \<Rightarrow> ('s, unit) prog"
    and reconnect :: "('s, unit) prog"
    and flag :: "'s \<Rightarrow> bool"
    and delivered :: "'c \<Rightarrow> 's \<Rightarrow> nat"
    and valid :: "'c \<Rightarrow> bool"
  assumes send_once: "send c d s = (r, t) \<Longrightarrow> delivered c s \<le> delivered c t \<and> delivered c t \<le> delivered c s + 1"
    and send_returns: "send c d s = (Return x, t) \<Longrightarrow> delivered c t = delivered c s + 1"
    and send_unflagged: "send c d s = (Raise e, t) \<Longrightarrow> \<not> flag t \<Longrightarrow> delivered c t = delivered c s"
    and backoff_none: "backoff d n s = (q, t) \<Longrightarrow> delivered c t = delivered c s"
    and reconnect_none: "valid c \<Longrightarrow> reconnect s = (q, t) \<Longrightarrow> delivered c t = delivered c s"
begin

lemma step_again:
  assumes "valid c"
    and "retry_step exhausted (send c d) (backoff d) reconnect flag False attempt s = Inr t"
  shows "delivered c t = delivered c s"
  using assms(2)
  by (auto simp: retry_step_def dest!: backoff_none [of _ _ _ _ _ c] reconnect_none [OF assms(1)]
      dest: send_unflagged split: prod.splits outcome.splits if_splits)

lemma step_done:
  assumes "valid c"
    and "retry_step exhausted (send c d) (backoff d) reconnect flag safe attempt s = Inl (r, t)"
  shows "delivered c s \<le> delivered c t \<and> delivered c t \<le> delivered c s + 1 \<and>
    (\<forall>x. r = Return x \<longrightarrow> delivered c t = delivered c s + 1)"
  using assms(2)
  by (auto simp: retry_step_def dest!: backoff_none [of _ _ _ _ _ c] reconnect_none [OF assms(1)]
      dest: send_once send_returns split: prod.splits outcome.splits if_splits)

lemma at_most_once:
  assumes "valid c"
    and "retry_loop exhausted (send c d) (backoff d) reconnect flag False attempt s = Some (r, t)"
  shows "delivered c s \<le> delivered c t \<and> delivered c t \<le> delivered c s + 1 \<and>
    (\<forall>x. r = Return x \<longrightarrow> delivered c t = delivered c s + 1)"
proof -
  let ?Q = "\<lambda>(r, t). delivered c s \<le> delivered c t \<and> delivered c t \<le> delivered c s + 1 \<and>
    (\<forall>x. r = Return x \<longrightarrow> delivered c t = delivered c s + 1)"
  have "passes (\<lambda>u. delivered c u = delivered c s)
      (retry_step exhausted (send c d) (backoff d) reconnect flag False) ?Q"
    unfolding passes_def
    using step_again [OF assms(1)] by (fastforce split: sum.split dest: step_done [OF assms(1)])
  from retry_loop_induct [OF assms(2) this] show ?thesis by simp
qed

text \<open>A read-only command may be delivered more often, but a returned answer answers one of them.\<close>

lemma returned_was_delivered:
  assumes "valid c"
    and "retry_loop exhausted (send c d) (backoff d) reconnect flag safe attempt s = Some (Return x, t)"
  shows "delivered c s + 1 \<le> delivered c t"
proof -
  have again: "delivered c u \<le> delivered c v"
    if "retry_step exhausted (send c d) (backoff d) reconnect flag safe n u = Inr v" for n u v
    using that
    by (auto simp: retry_step_def dest!: backoff_none [of _ _ _ _ _ c] reconnect_none [OF assms(1)]
        dest: send_once split: prod.splits outcome.splits if_splits)
  let ?Q = "\<lambda>(r, t). \<forall>x. r = Return x \<longrightarrow> delivered c s + 1 \<le> delivered c t"
  have "passes (\<lambda>u. delivered c s \<le> delivered c u)
      (retry_step exhausted (send c d) (backoff d) reconnect flag safe) ?Q"
    unfolding passes_def
    using step_done [OF assms(1)] by (fastforce split: sum.split dest: again)
  from retry_loop_induct [OF assms(2) this] show ?thesis by simp
qed

end

end
