(* ===== verification/ClientRetry.thy ===== *)
theory ClientRetry
  imports Retry
begin

text \<open>
  \<open>Client._backoff\<close> and \<open>Client._with_retry\<close> of \<open>fq/sync/client.py\<close>: the retry loop on the model of
  the connection, and the interpretations of \<open>transport\<close> for the plain and the chunked call.
\<close>

text \<open>\<open>self._reconnect.delay(attempt)\<close>: the power is computed, then the random number drawn.\<close>

definition draw_delay :: "ReconnectPolicy \<Rightarrow> nat \<Rightarrow> (cstate, real) prog" where
  "draw_delay p attempt =
     pbind (plift (float_pow (rp_multiplier p) (attempt - 1))) (\<lambda>_.
     pbind (on_world draw_jitter) (\<lambda>u. plift (ReconnectPolicy_delay p attempt u)))"

definition Client_backoff :: "ReconnectPolicy \<Rightarrow> nat \<Rightarrow> Deadline \<Rightarrow> (cstate, unit) prog" where
  "Client_backoff p attempt dl =
     pbind clock (\<lambda>t. pbind (plift (Deadline_check dl t)) (\<lambda>_.
     pbind (draw_delay p attempt) (\<lambda>d.
     pbind clock (\<lambda>t. let delay = Deadline_clamp dl t d in
     pbind (if 0 < delay then on_world (sleep delay) else pret ()) (\<lambda>_.
     pbind clock (\<lambda>t. plift (Deadline_check dl t)))))))"

definition in_flight :: "cstate \<Rightarrow> bool" where
  "in_flight s = cn_request_in_flight (fst s)"

definition with_retry ::
  "ReconnectPolicy \<Rightarrow> (Command \<Rightarrow> Deadline \<Rightarrow> (cstate, bytes) prog) \<Rightarrow> Command \<Rightarrow> Deadline \<Rightarrow>
   cstate \<Rightarrow> (bytes outcome \<times> cstate) option" where
  "with_retry p send command dl s =
     retry_loop (ReconnectPolicy_exhausted p) (send command dl)
       (\<lambda>attempt. Client_backoff p attempt dl) Connection_reconnect in_flight (read_only command) 0 s"

text \<open>The call as a program: a loop that never ends never comes back, as a blocked one.\<close>

definition Client_with_retry ::
  "ReconnectPolicy \<Rightarrow> (Command \<Rightarrow> Deadline \<Rightarrow> (cstate, bytes) prog) \<Rightarrow> Command \<Rightarrow> Deadline \<Rightarrow>
   (cstate, bytes) prog" where
  "Client_with_retry p send command dl s =
     (case with_retry p send command dl s of Some r \<Rightarrow> r | None \<Rightarrow> (Blocked, s))"

section \<open>Deliveries\<close>

definition delivered :: "Command \<Rightarrow> cstate \<Rightarrow> nat" where
  "delivered command s = (case encode_frame (payload command) of
      Inl e \<Rightarrow> 0
    | Inr frame \<Rightarrow> count_list (sends (snd s)) frame)"

lemma delivered_outcome:
  assumes "call_outcome command s r t"
  shows "delivered command s \<le> delivered command t \<and> delivered command t \<le> delivered command s + 1"
    and "r = Return x \<Longrightarrow> delivered command t = delivered command s + 1"
    and "r = Raise e \<Longrightarrow> \<not> in_flight t \<Longrightarrow> delivered command t = delivered command s"
  using assms
  by (auto simp: call_outcome_def delivered_def in_flight_def split: sum.splits)

lemma frame_inj: "encode_frame p = Inr f \<Longrightarrow> encode_frame q = Inr g \<Longrightarrow> prefix f g \<Longrightarrow> p = q"
proof -
  assume f: "encode_frame p = Inr f" and g: "encode_frame q = Inr g" and "prefix f g"
  then obtain rest where rest: "g = f @ rest" by (auto simp: prefix_def)
  obtain h where h: "to_bytes4 (length p) = Inr h" "f = h @ p"
    using f by (auto simp: encode_frame_def sbind_eq_Inr)
  obtain k where k: "to_bytes4 (length q) = Inr k" "g = k @ q"
    using g by (auto simp: encode_frame_def sbind_eq_Inr)
  have "h = k" "p @ rest = q"
    using h k rest length_to_bytes4 [OF h(1)] length_to_bytes4 [OF k(1)] by simp_all
  then have "length p = length q" using from_to_bytes4 [OF h(1)] from_to_bytes4 [OF k(1)] by simp
  with \<open>p @ rest = q\<close> show "p = q" by auto
qed

lemma delivered_greets:
  assumes "greets s t" and "client_command command"
  shows "delivered command t = delivered command s"
proof (cases "encode_frame (payload command)")
  case (Inr frame)
  have "h \<noteq> frame" if "prefix h g" "encode_frame (CHR ''H'' # rest) = Inr g" for h g rest
    using frame_inj [OF Inr that(2)] that(1) assms(2) by (auto simp: client_command_def)
  then show ?thesis
    using assms(1) Inr by (auto simp: greets_def delivered_def)
qed (simp add: delivered_def)

lemma reconnect_greets: "Connection_reconnect s = (r, t) \<Longrightarrow> greets s t"
  using sync_conn.reconnect_outcome by blast

text \<open>Backing off sends nothing and leaves the connection alone.\<close>

definition idle :: "cstate \<Rightarrow> cstate \<Rightarrow> bool" where
  "idle s t \<longleftrightarrow> fst t = fst s \<and> sends (snd t) = sends (snd s) \<and> now (snd s) \<le> now (snd t) \<and>
     dials (snd t) = dials (snd s)"

interpretation waiting: step_order idle
  by unfold_locales (auto simp: idle_def)

lemma idle_world [wp]: "keeps idle (on_world draw_jitter)" "keeps idle (on_world (sleep d))"
  by (auto intro!: keepsI simp: on_world_def draw_jitter_def sleep_def idle_def sends_def
      record_event_def elapse_def)

lemma idle_backoff: "keeps idle (Client_backoff p attempt dl)"
  unfolding Client_backoff_def draw_delay_def clock_def Let_def
  by (intro wp waiting.keeps_pbind waiting.keeps_pure waiting.keeps_if)

lemma delivered_backoff: "Client_backoff p n d s = (r, t) \<Longrightarrow> delivered c t = delivered c s"
  using keepsD [OF idle_backoff, of p n d s r t] by (simp add: idle_def delivered_def split: sum.split)

lemmas outcome_laws = delivered_outcome(1) delivered_outcome(2) [OF _ refl] delivered_outcome(3) [OF _ refl]

lemmas transport_laws = outcome_laws [OF sync_conn.send_outcome]
  outcome_laws [OF sync_conn.send_chunked_outcome]
  delivered_backoff delivered_greets [OF reconnect_greets]

interpretation plain: transport Connection_send "\<lambda>dl attempt. Client_backoff p attempt dl"
  Connection_reconnect in_flight delivered client_command for p
  by unfold_locales (erule transport_laws; assumption?)+

interpretation chunked: transport Connection_send_chunked "\<lambda>dl attempt. Client_backoff p attempt dl"
  Connection_reconnect in_flight delivered client_command for p
  by unfold_locales (erule transport_laws; assumption?)+

text \<open>
  A mutating command is executed at most once: whatever the network does, however often the loop
  reconnects and tries again, a command that is not read-only is handed over complete at most one
  time more than before the call, and exactly once when the call returns an answer. Retrying can
  therefore never count, acquire or delete twice.
\<close>

theorem mutating_command_at_most_once:
  assumes "encode_request q = Inr command" and "\<forall>token. q \<noteq> Hello token" and "\<not> read_only command"
    and "send \<in> {Connection_send, Connection_send_chunked}"
    and "with_retry p send command dl s = Some (r, t)"
  shows "delivered command t \<le> delivered command s + 1 \<and>
    (\<forall>x. r = Return x \<longrightarrow> delivered command t = delivered command s + 1)"
proof -
  have "client_command command" using assms(1,2) by (blast intro: encode_request_client)
  note plain = plain.at_most_once [OF this, of "ReconnectPolicy_exhausted p" dl p 0 s r t]
    and chunked = chunked.at_most_once [OF this, of "ReconnectPolicy_exhausted p" dl p 0 s r t]
  from assms(4) show ?thesis
  proof (elim insertE emptyE)
    assume "send = Connection_send"
    then show ?thesis using plain assms(3,5) by (simp add: with_retry_def)
  next
    assume "send = Connection_send_chunked"
    then show ?thesis using chunked assms(3,5) by (simp add: with_retry_def)
  qed
qed

text \<open>
  Attempts end: after \<open>max_attempts\<close>, or when the backoff's power overflows, which it does from some
  attempt on whenever the multiplier exceeds one.
\<close>

lemma power_overflows:
  assumes "1 < (m :: real)"
  shows "\<exists>N. \<forall>n \<ge> N. \<exists>e. float_pow m n = Inl e"
proof -
  obtain N where N: "FLOAT_LIMIT < m ^ N" using real_arch_pow [OF assms] by blast
  have "FLOAT_LIMIT \<le> \<bar>m ^ n\<bar>" if "N \<le> n" for n
  proof -
    have "m ^ N \<le> m ^ n" using assms that by (intro power_increasing) simp_all
    then show ?thesis using N by linarith
  qed
  then show ?thesis by (auto simp: float_pow_def intro!: exI [of _ N])
qed

lemma backoff_overflows:
  assumes "float_pow (rp_multiplier p) (n - 1) = Inl e"
  shows "fst (Client_backoff p n dl s) \<noteq> Return ()"
  using assms
  by (auto simp: Client_backoff_def draw_delay_def clock_def pbind_def pget_def case_prod_unfold
      split: outcome.split)

lemma attempts_end:
  assumes "rp_max_attempts p = Some m \<or> 1 < rp_multiplier p"
  obtains N where "\<And>n. N \<le> n \<Longrightarrow> ReconnectPolicy_exhausted p n \<or> (\<exists>e. float_pow (rp_multiplier p) (n - 1) = Inl e)"
  using assms
proof
  assume "rp_max_attempts p = Some m"
  then have "ReconnectPolicy_exhausted p n" if "nat (m + 1) \<le> n" for n
    using that by (simp add: ReconnectPolicy_exhausted_def)
  then show ?thesis using that by blast
next
  assume "1 < rp_multiplier p"
  then obtain N where N: "\<And>n. N \<le> n \<Longrightarrow> \<exists>e. float_pow (rp_multiplier p) n = Inl e"
    using power_overflows by blast
  have "\<exists>e. float_pow (rp_multiplier p) (n - 1) = Inl e" if "N + 1 \<le> n" for n
    using N [of "n - 1"] that by simp
  then show ?thesis using that by blast
qed

lemma with_retry_ends:
  assumes "rp_max_attempts p = Some m \<or> 1 < rp_multiplier p"
  shows "\<exists>r. with_retry p send command dl s = Some r"
proof -
  obtain N where "\<And>n. N \<le> n \<Longrightarrow> ReconnectPolicy_exhausted p n \<or> (\<exists>e. float_pow (rp_multiplier p) (n - 1) = Inl e)"
    using attempts_end [OF assms] by blast
  then show ?thesis
    unfolding with_retry_def by (intro retry_loop_ends [where N = N]) (blast dest: backoff_overflows)
qed

lemma unblocked_backoff: "unblocked P (Client_backoff p n dl) (\<lambda>_. True)"
proof -
  have draw: "unblocked Q (on_world draw_jitter) (\<lambda>_. True)"
    and nap: "unblocked Q (if b then on_world (sleep d) else pret ()) (\<lambda>_. True)" for Q b d
    by (auto simp: unblocked_def on_world_def draw_jitter_def sleep_def pret_def)
  have lift: "unblocked Q (plift r) (\<lambda>_. True)" for Q :: "cstate \<Rightarrow> bool" and r :: "'a result"
    by (auto simp: unblocked_def plift_def split: sum.split)
  show ?thesis
    unfolding Client_backoff_def draw_delay_def clock_def Let_def
    by (intro unblocked_pbind [OF unblocked_pure(3)] unblocked_pbind [OF unblocked_pure(2)]
        unblocked_pbind [OF unblocked_pbind [OF unblocked_pure(2) unblocked_pbind [OF draw lift]]]
        unblocked_pbind [OF nap] lift)
qed

lemma with_retry_returns:
  assumes "rp_max_attempts p = Some m \<or> 1 < rp_multiplier p" and "dl_at dl \<noteq> None"
    and "send \<in> {Connection_send, Connection_send_chunked}"
  shows "\<exists>r t. with_retry p send command dl s = Some (r, t) \<and> r \<noteq> Blocked"
proof -
  obtain r t where run: "with_retry p send command dl s = Some (r, t)"
    using with_retry_ends [OF assms(1), of send command dl s] by (metis prod.exhaust)
  have send: "unblocked (\<lambda>_. True) (send command dl) (\<lambda>_. True)"
    using assms(3) sync_conn.send_back [OF assms(2)] sync_conn.send_chunked_back [OF assms(2)] by auto
  have never_blocked: "send command dl u \<noteq> (Blocked, v)" "Client_backoff p n dl u \<noteq> (Blocked, v)"
    "Connection_reconnect u \<noteq> (Blocked, v)" for n u v
    using unblockedD [OF send TrueI] unblockedD [OF unblocked_backoff TrueI]
      unblockedD [OF sync_conn.reconnect_back TrueI] by blast+
  let ?step = "retry_step (ReconnectPolicy_exhausted p) (send command dl)
    (\<lambda>attempt. Client_backoff p attempt dl) Connection_reconnect in_flight (read_only command)"
  have "q \<noteq> Blocked" if "?step n u = Inl (q, v)" for n u q v
    using that
    by (auto simp: retry_step_def never_blocked split: prod.splits outcome.splits if_splits)
  then have "passes (\<lambda>_. True) ?step (\<lambda>(q, v). q \<noteq> Blocked)"
    unfolding passes_def by (auto split: sum.split)
  from retry_loop_induct [OF run [unfolded with_retry_def] this] run show ?thesis by simp
qed

text \<open>
  Every call with a deadline comes back: with a policy whose attempts are limited or whose delays
  grow (the default's double), the retry loop ends, and it ends with an answer or an exception,
  never blocked, whatever the network does on every attempt.
\<close>

theorem retry_comes_back:
  assumes "rp_max_attempts p = Some m \<or> 1 < rp_multiplier p" and "dl_at dl \<noteq> None"
    and "send \<in> {Connection_send, Connection_send_chunked}"
  shows "\<exists>r t. with_retry p send command dl s = Some (r, t) \<and> r \<noteq> Blocked"
  using assms by (rule with_retry_returns)

section \<open>Concrete instances\<close>

text \<open>A call on a closed connection: the first attempt fails, the loop reconnects and repeats.\<close>

definition sample_key :: CappingKey where
  "sample_key = \<lparr>ck_key = ustr ''k'', ck_capping = 1\<rparr>"

definition sample_outage :: cstate where
  "sample_outage = (sample_closed, sample_world [Accepted 0 (TlsOk 0) (sample_server (sample_answers 1))])"

lemma sample_incr: "encode_request (Incr sample_key) = Inr sample_command"
  by (simp add: sample_key_def sample_command_def incr_def cmd_mutating_def cmd_join_def kw_def
      SPACE_def decimal_eval text_eval)

lemmas retry_eval = retry_step_def Client_backoff_def draw_delay_def draw_jitter_def sleep_def
  default_policy_def ReconnectPolicy_exhausted_def ReconnectPolicy_delay_def float_pow_def
  FLOAT_LIMIT_def in_flight_def

lemma sample_retry:
  "\<exists>t. with_retry default_policy Connection_send sample_command \<lparr>dl_at = Some 5\<rparr> sample_outage =
     Some (Return ''ok|7'', t)"
proof -
  let ?step = "retry_step (ReconnectPolicy_exhausted default_policy)
    (Connection_send sample_command \<lparr>dl_at = Some 5\<rparr>)
    (\<lambda>attempt. Client_backoff default_policy attempt \<lparr>dl_at = Some 5\<rparr>) Connection_reconnect in_flight False"
  have "\<exists>u. ?step 0 sample_outage = Inr u \<and> (\<exists>t. ?step 1 u = Inl (Return ''ok|7'', t))"
    by (simp add: retry_eval sample_eval sample_outage_def sample_command_def sample_answers_def)
  then show ?thesis
    by (auto simp: with_retry_def retry_loop.simps sample_command_def)
qed

theorem mutating_command_at_most_once_witness:
  "\<exists>t. with_retry default_policy Connection_send sample_command \<lparr>dl_at = Some 5\<rparr> sample_outage =
     Some (Return ''ok|7'', t) \<and> delivered sample_command t = 1"
proof -
  obtain t where t: "with_retry default_policy Connection_send sample_command \<lparr>dl_at = Some 5\<rparr>
      sample_outage = Some (Return ''ok|7'', t)"
    using sample_retry by blast
  have "\<not> read_only sample_command" "delivered sample_command sample_outage = 0"
    by (simp_all add: sample_command_def delivered_def sample_outage_def sample_world_def sends_def
        split: sum.split)
  with mutating_command_at_most_once [OF sample_incr _ _ _ t] t show ?thesis by simp
qed

theorem retry_comes_back_witness:
  "\<exists>r t. with_retry default_policy Connection_send sample_command \<lparr>dl_at = Some 5\<rparr> sample_outage =
     Some (r, t) \<and> r \<noteq> Blocked"
  by (rule retry_comes_back) (simp_all add: default_policy_def)

end
