(* ===== verification/Dials.thy ===== *)
theory Dials
  imports ClientRetry
begin

text \<open>
  How often a connection dials: only \<open>connect\<close> does, once each time; and what a reconnection does when
  the server refuses. The streams count their attempts by it.
\<close>

definition dialled :: "world \<Rightarrow> nat" where
  "dialled w = length (filter (\<lambda>e. case e of NetDial host port \<Rightarrow> True | _ \<Rightarrow> False) (trace w))"

lemma dialled_record [simp]:
  "dialled (record_event e w) = dialled w + (case e of NetDial host port \<Rightarrow> 1 | _ \<Rightarrow> 0)"
  by (simp add: dialled_def record_event_def split: net_event.split)

lemma dialled_same [simp]:
  "dialled (w\<lparr>now := t\<rparr>) = dialled w" "dialled (elapse dt w) = dialled w" "dialled (w\<lparr>dials := ds\<rparr>) = dialled w"
  "dialled (w\<lparr>draws := n\<rparr>) = dialled w"
  by (simp_all add: dialled_def elapse_def)

text \<open>\<open>undialled s t\<close>: no dial between \<open>s\<close> and \<open>t\<close>, and neither the address nor the limit is another.\<close>

definition undialled :: "cstate \<Rightarrow> cstate \<Rightarrow> bool" where
  "undialled s t \<longleftrightarrow> dialled (snd t) = dialled (snd s) \<and> dials (snd t) = dials (snd s) \<and>
     cn_address (fst t) = cn_address (fst s) \<and> cn_max_message_size (fst t) = cn_max_message_size (fst s)"

definition same_dialled :: "cstate \<Rightarrow> cstate \<Rightarrow> bool" where
  "same_dialled s t \<longleftrightarrow> dialled (snd t) = dialled (snd s)"

interpretation undialled: step_order undialled
  by unfold_locales (auto simp: undialled_def)

interpretation same_dialled: step_order same_dialled
  by unfold_locales (auto simp: same_dialled_def)

lemma undialled_recv [wp]: "keeps undialled (conn_recv n)"
  by (rule keepsI) (auto simp: conn_recv_def undialled_def split: prod.splits option.splits)

lemma undialled_sendall [wp]: "keeps undialled (conn_sendall bs)"
  by (rule keepsI) (auto simp: conn_sendall_def undialled_def record_event_def dialled_def
      split: prod.splits option.splits)

lemma undialled_settimeout [wp]: "keeps undialled (conn_settimeout d)"
  by (rule keepsI) (auto simp: conn_settimeout_def undialled_def split: prod.splits option.splits)

lemma undialled_flag [wp]: "keeps undialled (set_in_flight b)"
  by (rule keepsI) (auto simp: set_in_flight_def pmodify_def undialled_def split: prod.splits)

lemma undialled_require [wp]: "keeps undialled Connection_require_socket"
  by (rule keepsI) (auto simp: Connection_require_socket_def undialled_def split: if_splits)

lemma undialled_close [wp]: "keeps undialled Connection_close"
  by (rule keepsI) (auto simp: Connection_close_def undialled_def record_event_def dialled_def
      split: prod.splits option.splits)

lemma undialled_world [wp]: "keeps undialled (on_world draw_jitter)" "keeps undialled (on_world (sleep d))"
  by (auto intro!: keepsI simp: on_world_def draw_jitter_def sleep_def undialled_def record_event_def
      elapse_def dialled_def)

lemma undialled_apply_timeout [wp]: "keeps undialled (Connection_apply_timeout dl)"
  unfolding Connection_apply_timeout_def clock_def
  by (intro wp undialled.keeps_pbind undialled.keeps_pure undialled.keeps_pwrap)

lemma undialled_read_exactly [wp]: "keeps undialled (Connection_read_exactly n)"
  unfolding Connection_read_exactly_def
  by (rule read_loop_keeps) (rule undialled.step_order_axioms, rule undialled_recv)

lemma undialled_read_frame [wp]: "keeps undialled (Connection_read_frame dl)"
  unfolding Connection_read_frame_def
  by (intro wp undialled.keeps_pbind undialled.keeps_pure undialled.keeps_if)

lemma undialled_write_request [wp]: "keeps undialled (Connection_write_request command dl)"
  unfolding Connection_write_request_def
  by (intro wp undialled.keeps_pbind undialled.keeps_pure undialled.keeps_if undialled.keeps_pcatch)

lemma undialled_send [wp]: "keeps undialled (Connection_send command dl)"
  unfolding Connection_send_def by (intro wp undialled.keeps_pbind undialled.keeps_pure)

lemma undialled_open_stream [wp]: "keeps undialled (Connection_open_stream command)"
  unfolding Connection_open_stream_def clock_def by (intro wp undialled.keeps_pbind undialled.keeps_pure)

lemma undialled_stream_next [wp]: "keeps undialled (Connection_stream_next None)"
  unfolding Connection_stream_next_def clock_def option.case
  by (intro wp undialled.keeps_pbind undialled.keeps_pure)

section \<open>Connecting\<close>

lemma undialled_same: "keeps undialled m \<Longrightarrow> keeps same_dialled m"
  by (simp add: keeps_def undialled_def same_dialled_def)

lemma same_dialled_modify: "keeps same_dialled (pmodify (\<lambda>(c, w). (f c, w)))"
  by (rule same_dialled.keeps_pmodify) (auto simp: same_dialled_def split: prod.splits)

lemma same_dialled_handshake: "keeps same_dialled Connection_handshake"
  unfolding Connection_handshake_def clock_def
  by (intro same_dialled.keeps_pbind same_dialled.keeps_pure same_dialled.keeps_if same_dialled_modify
      undialled_same [OF undialled_send])

lemma same_dialled_tls: "keeps same_dialled (Connection_tls c host tls)"
  by (rule keepsI) (auto simp: Connection_tls_def on_world_def wrap_socket_def prog_defs same_dialled_def
      split: prod.splits outcome.splits if_splits tls_result.splits)

lemma dial_once:
  "pwrap PyOSError FQConnectionError (on_world (create_connection host port limit)) s = (r, t) \<Longrightarrow>
     dialled (snd t) = dialled (snd s) + 1"
  by (auto simp: pwrap_def pcatch_def praise_def on_world_def create_connection_def Let_def
      split: prod.splits list.splits dial.splits outcome.splits)

lemma int_of_str_error: "int_of_str a = Inl e \<Longrightarrow> e = Exc PyValueError"
  by (auto simp: int_of_str_def int_of_digits_def split: option.splits if_splits)

lemma split_address_error:
  assumes "split_address a = Inl e"
  shows "\<not> catches FQConnectionError e"
proof -
  have "e = Exc PyValueError"
    using assms by (auto simp: split_address_def sbind_eq_Inl dest: int_of_str_error split: prod.splits if_splits)
  then show ?thesis by (simp add: catches_def issubclass_eval)
qed

lemma close_returns: "\<exists>u. Connection_close s = (Return (), u) \<and> cn_sock (fst u) = None"
  by (cases s; cases "cn_sock (fst s)") (simp_all add: Connection_close_def)

lemma connect_dials_once:
  assumes "Connection_connect s = (r, t)"
  shows "dialled (snd t) = dialled (snd s) + 1 \<or>
    dialled (snd t) = dialled (snd s) \<and> (\<exists>e. r = Raise e \<and> \<not> catches FQConnectionError e)"
proof (cases "split_address (cn_address (fst s))")
  case (Inl e)
  then have "r = Raise e" "t = s" using assms by (auto simp: Connection_connect_def pbind_def pget_def)
  with split_address_error [OF Inl] show ?thesis by simp
next
  case (Inr hp)
  obtain host port where hp: "hp = (host, port)" by (cases hp)
  let ?dial = "pwrap PyOSError FQConnectionError (on_world (create_connection host port (cn_connect_timeout (fst s))))"
  let ?rest = "\<lambda>(tls, sk). pbind (Connection_tls (fst s) host tls) (\<lambda>_.
     pbind (pmodify (\<lambda>(c, w). (install_socket sk c, w))) (\<lambda>_.
       pcatch Connection_handshake (\<lambda>e. pbind Connection_close (\<lambda>_. praise e))))"
  obtain q u where q: "?dial s = (q, u)" by (cases "?dial s")
  have run: "pbind ?dial ?rest s = (r, t)"
    using assms Inr hp by (simp add: Connection_connect_def pbind_def pget_def)
  have rest: "keeps same_dialled (?rest x)" for x
    by (cases x) (simp, intro same_dialled.keeps_pbind same_dialled.keeps_pure same_dialled.keeps_pcatch
        same_dialled_tls same_dialled_modify same_dialled_handshake undialled_same [OF undialled_close])
  have "dialled (snd t) = dialled (snd u)"
  proof (cases q)
    case (Return x)
    then have "?rest x u = (r, t)" using run q by (simp add: pbind_Return)
    from keepsD [OF rest this] show ?thesis by (simp add: same_dialled_def)
  qed (use run q in \<open>auto simp: pbind_def\<close>)
  then show ?thesis using dial_once [OF q] by simp
qed

text \<open>A reconnection dials once; only one that fails for another reason than the network may not.\<close>

lemma reconnect_dials_once:
  assumes "Connection_reconnect s = (r, t)"
  shows "dialled (snd t) = dialled (snd s) + 1 \<or>
    dialled (snd t) = dialled (snd s) \<and> (\<exists>e. r = Raise e \<and> \<not> catches FQConnectionError e)"
proof -
  obtain u where u: "Connection_close s = (Return (), u)" using close_returns by blast
  with assms have "Connection_connect u = (r, t)" by (simp add: Connection_reconnect_def pbind_def)
  from connect_dials_once [OF this] keepsD [OF undialled_close u] show ?thesis by (simp add: undialled_def)
qed

section \<open>An outage\<close>

text \<open>The connection is closed, and whatever is dialled refuses.\<close>

definition refused :: "dial \<Rightarrow> bool" where
  "refused d \<longleftrightarrow> (case d of Refused dt \<Rightarrow> True | _ \<Rightarrow> False)"

definition outage :: "Command \<Rightarrow> cstate \<Rightarrow> bool" where
  "outage command s \<longleftrightarrow> (\<exists>hp. split_address (cn_address (fst s)) = Inr hp) \<and> list_all refused (dials (snd s)) \<and>
     int (length (payload command)) \<le> cn_max_message_size (fst s)"

lemma outage_undialled: "undialled s t \<Longrightarrow> outage command t \<longleftrightarrow> outage command s"
  by (simp add: outage_def undialled_def)

lemma reconnect_refused:
  assumes "outage command s"
  shows "\<exists>t. Connection_reconnect s = (Raise (Exc FQConnectionError), t) \<and> outage command t \<and>
    cn_sock (fst t) = None \<and> dialled (snd t) = dialled (snd s) + 1"
proof -
  obtain u where u: "Connection_close s = (Return (), u)" "cn_sock (fst u) = None"
    using close_returns by blast
  have out: "outage command u" "dialled (snd u) = dialled (snd s)"
    using outage_undialled [OF keepsD [OF undialled_close u(1)]] assms keepsD [OF undialled_close u(1)]
    by (simp_all add: undialled_def)
  obtain host port where hp: "split_address (cn_address (fst u)) = Inr (host, port)"
    using out(1) by (auto simp: outage_def)
  let ?dial = "pwrap PyOSError FQConnectionError (on_world (create_connection host port (cn_connect_timeout (fst u))))"
  obtain q t where t: "?dial u = (q, t)" by (cases "?dial u")
  have os: "catches PyOSError (Exc PyOSError)" by (simp add: catches_def issubclass_eval)
  obtain c w where cw: "u = (c, w)" by (cases u)
  have fails: "q = Raise (Exc FQConnectionError)" "fst t = fst u" "list_all refused (dials (snd t))"
    using t out(1) os unfolding cw
    by (cases "dials w"; cases "hd (dials w)"; auto simp: outage_def refused_def pwrap_def pcatch_def praise_def
        on_world_def create_connection_def record_event_def elapse_def)+
  have "Connection_reconnect s = (Raise (Exc FQConnectionError), t)"
    using u(1) hp t fails(1) by (simp add: Connection_reconnect_def Connection_connect_def pbind_def pget_def)
  then show ?thesis using fails u(2) out dial_once [OF t] by (simp add: outage_def)
qed

lemma open_stream_unconnected:
  assumes "outage command s" and "cn_sock (fst s) = None"
  shows "Connection_open_stream command s = (Raise (Exc FQConnectionError), s)"
  using assms
  by (simp add: Connection_open_stream_def clock_def Connection_write_request_def check_request_size_def
      Connection_require_socket_def outage_def pbind_def pget_def case_prod_unfold)

end
