(* ===== verification/Pool.thy ===== *)
theory Pool
  imports ClientRetry
begin

text \<open>
  \<open>fq/sync/pool.py\<close>: the pool of connections, as one thread sees it. \<open>pl_slots\<close> is the LIFO queue, its
  top first; None is a slot whose connection is still to be opened. A connection is an object that is
  in exactly one place, so handing it out moves its value. The interleavings of several threads are in
  \<open>PoolThreads\<close>.
\<close>

record pool =
  pl_size :: int
  pl_slots :: "connection option list"
  pl_closed :: bool

type_synonym pstate = "pool \<times> world"

definition ConnectionPool_new :: "int \<Rightarrow> pool result" where
  "ConnectionPool_new n = (if n < 1 then Inl (Exc PyValueError)
     else Inr \<lparr>pl_size = n, pl_slots = replicate (nat n) None, pl_closed = False\<rparr>)"

section \<open>The queue\<close>

text \<open>\<open>put\<close> on a full \<open>LifoQueue\<close> waits; \<open>get\<close> on an empty one waits for the time it is given.\<close>

definition slot_put :: "connection option \<Rightarrow> (pstate, unit) prog" where
  "slot_put x = (\<lambda>(p, w). if pl_size p \<le> int (length (pl_slots p)) then (Blocked, (p, w))
     else (Return (), (p\<lparr>pl_slots := x # pl_slots p\<rparr>, w)))"

definition slot_get_nowait :: "(pstate, connection option) prog" where
  "slot_get_nowait = (\<lambda>(p, w). case pl_slots p of
      [] \<Rightarrow> (Raise (Exc PyQueueEmpty), (p, w))
    | x # rest \<Rightarrow> (Return x, (p\<lparr>pl_slots := rest\<rparr>, w)))"

definition slot_get :: "real option \<Rightarrow> (pstate, connection option) prog" where
  "slot_get timeout = (\<lambda>(p, w). case pl_slots p of
      x # rest \<Rightarrow> (Return x, (p\<lparr>pl_slots := rest\<rparr>, w))
    | [] \<Rightarrow> (case timeout of
        None \<Rightarrow> (Blocked, (p, w))
      | Some d \<Rightarrow> (Raise (Exc PyQueueEmpty), (p, elapse d w))))"

text \<open>Running a connection's method, and closing one that leaves the pool for good.\<close>

definition on_pool_world :: "(world, 'a) prog \<Rightarrow> (pstate, 'a) prog" where
  "on_pool_world m = (\<lambda>(p, w). case m w of (r, w') \<Rightarrow> (r, (p, w')))"

definition close_world :: "connection \<Rightarrow> (world, unit) prog" where
  "close_world c w = (case Connection_close (c, w) of (r, (c', w')) \<Rightarrow> (r, w'))"

section \<open>Opening everything upfront\<close>

fun close_all :: "connection list \<Rightarrow> (world, unit) prog" where
  "close_all [] = pret ()"
| "close_all (c # cs) = pbind (close_world c) (\<lambda>_. close_all cs)"

fun put_all :: "connection option list \<Rightarrow> (pstate, unit) prog" where
  "put_all [] = pret ()"
| "put_all (x # xs) = pbind (slot_put x) (\<lambda>_. put_all xs)"

text \<open>The \<open>for\<close> loop inside the \<open>try\<close>: the connections opened so far, and how it ended.\<close>

fun prefill_loop ::
  "(world, connection) prog \<Rightarrow> nat \<Rightarrow> connection list \<Rightarrow> (pstate, exc option \<times> connection list) prog"
where
  "prefill_loop factory 0 opened = pret (None, opened)"
| "prefill_loop factory (Suc n) opened = (\<lambda>s.
     case pbind slot_get_nowait (\<lambda>_. on_pool_world factory) s of
       (Return c, s') \<Rightarrow> prefill_loop factory n (opened @ [c]) s'
     | (Raise e, s') \<Rightarrow> (Return (Some e, opened), s')
     | (Blocked, s') \<Rightarrow> (Blocked, s'))"

definition ConnectionPool_prefill :: "(world, connection) prog \<Rightarrow> (pstate, unit) prog" where
  "ConnectionPool_prefill factory = pbind (pget (\<lambda>(p, w). nat (pl_size p))) (\<lambda>n.
     pbind (prefill_loop factory n []) (\<lambda>(failed, opened).
       case failed of
         Some e \<Rightarrow> pbind (on_pool_world (close_all opened)) (\<lambda>_.
           pbind (put_all (replicate (length opened) None)) (\<lambda>_. praise e))
       | None \<Rightarrow> put_all (map Some opened)))"

section \<open>Holding a connection\<close>

definition ConnectionPool_take :: "Deadline \<Rightarrow> (pstate, connection option) prog" where
  "ConnectionPool_take dl = pbind (pget (\<lambda>(p, w). Deadline_remaining dl (now w))) (\<lambda>remaining.
     pwrap PyQueueEmpty FQTimeoutError (slot_get (map_option (\<lambda>r. max r 0) remaining)))"

definition ConnectionPool_release :: "connection \<Rightarrow> (pstate, unit) prog" where
  "ConnectionPool_release c = pbind (pget (\<lambda>(p, w). pl_closed p)) (\<lambda>closed.
     if closed then on_pool_world (close_world c)
     else slot_put (if Connection_closed c then None else Some c))"

text \<open>
  Entering the \<open>with\<close> block of \<open>acquire\<close>, up to its \<open>yield\<close>, and the whole block: \<open>body\<close> runs on the
  connection, and however it ends the connection is released.
\<close>

definition ConnectionPool_enter :: "(world, connection) prog \<Rightarrow> Deadline \<Rightarrow> (pstate, connection) prog" where
  "ConnectionPool_enter factory dl = pbind (pget (\<lambda>(p, w). pl_closed p)) (\<lambda>closed.
     if closed then praise (Exc PoolClosedError)
     else pbind (ConnectionPool_take dl) (\<lambda>slot. case slot of
         Some c \<Rightarrow> pret c
       | None \<Rightarrow> pcatch (on_pool_world factory) (\<lambda>e. pbind (slot_put None) (\<lambda>_. praise e))))"

definition run_body :: "connection \<Rightarrow> (cstate, 'a) prog \<Rightarrow> pstate \<Rightarrow> 'a outcome \<times> connection \<times> pstate" where
  "run_body c body = (\<lambda>(p, w). case body (c, w) of (r, (c', w')) \<Rightarrow> (r, c', (p, w')))"

definition bracket ::
  "('s, 'c) prog \<Rightarrow> ('c \<Rightarrow> ('s, unit) prog) \<Rightarrow> ('c \<Rightarrow> 's \<Rightarrow> 'a outcome \<times> 'c \<times> 's) \<Rightarrow> ('s, 'a) prog" where
  "bracket enter release body = pbind enter (\<lambda>c s. case body c s of
       (Blocked, c', s') \<Rightarrow> (Blocked, s')
     | (Return x, c', s') \<Rightarrow> pbind (release c') (\<lambda>_. pret x) s'
     | (Raise e, c', s') \<Rightarrow> pbind (release c') (\<lambda>_. praise e) s')"

definition ConnectionPool_acquire ::
  "(world, connection) prog \<Rightarrow> Deadline \<Rightarrow> (cstate, 'a) prog \<Rightarrow> (pstate, 'a) prog" where
  "ConnectionPool_acquire factory dl body =
     bracket (ConnectionPool_enter factory dl) ConnectionPool_release (\<lambda>c. run_body c body)"

section \<open>Closing\<close>

fun close_slots :: "connection option list \<Rightarrow> (world, unit) prog" where
  "close_slots [] = pret ()"
| "close_slots (None # xs) = close_slots xs"
| "close_slots (Some c # xs) = pbind (close_world c) (\<lambda>_. close_slots xs)"

text \<open>The \<open>while\<close> loop empties the queue from the top, closing what it takes.\<close>

definition ConnectionPool_close :: "(pstate, unit) prog" where
  "ConnectionPool_close = (\<lambda>(p, w). if pl_closed p then (Return (), (p, w))
     else case close_slots (pl_slots p) w of
       (r, w') \<Rightarrow> (r, (p\<lparr>pl_closed := True, pl_slots := []\<rparr>, w')))"

section \<open>Every slot comes home\<close>

text \<open>
  \<open>pool_ready\<close>: open, not over-full, at least one slot at home, and every connection in a slot usable.
  \<open>lent p q\<close>: \<open>q\<close> is \<open>p\<close> without its top slot; \<open>home p q\<close>: the top slot is back, as an open connection
  or as an empty slot, and nothing else has changed.
\<close>

definition slot_live :: "connection option \<Rightarrow> bool" where
  "slot_live x \<longleftrightarrow> (case x of None \<Rightarrow> True | Some c \<Rightarrow> \<not> Connection_closed c)"

definition pool_ready :: "pool \<Rightarrow> bool" where
  "pool_ready p \<longleftrightarrow> \<not> pl_closed p \<and> pl_slots p \<noteq> [] \<and> int (length (pl_slots p)) \<le> pl_size p \<and>
     list_all slot_live (pl_slots p)"

text \<open>A pool as \<open>prefill\<close> leaves it: every slot holds an open connection with no request under way.\<close>

definition slot_idle :: "connection option \<Rightarrow> bool" where
  "slot_idle x \<longleftrightarrow> (case x of None \<Rightarrow> False
     | Some c \<Rightarrow> \<not> Connection_closed c \<and> \<not> cn_request_in_flight c)"

definition pool_full :: "int \<Rightarrow> pool \<Rightarrow> bool" where
  "pool_full n p \<longleftrightarrow> \<not> pl_closed p \<and> 0 < n \<and> pl_size p = n \<and> int (length (pl_slots p)) = n \<and>
     list_all slot_idle (pl_slots p)"

definition same_frame :: "pool \<Rightarrow> pool \<Rightarrow> bool" where
  "same_frame p q \<longleftrightarrow> pl_size q = pl_size p \<and> pl_closed q = pl_closed p"

definition lent :: "pool \<Rightarrow> pool \<Rightarrow> bool" where
  "lent p q \<longleftrightarrow> same_frame p q \<and> pl_slots p \<noteq> [] \<and> pl_slots q = tl (pl_slots p)"

definition home :: "pool \<Rightarrow> pool \<Rightarrow> bool" where
  "home p q \<longleftrightarrow> same_frame p q \<and> pl_slots p \<noteq> [] \<and> pl_slots q \<noteq> [] \<and> slot_live (hd (pl_slots q)) \<and>
     tl (pl_slots q) = tl (pl_slots p)"

lemma pool_full_ready: "pool_full n p \<Longrightarrow> pool_ready p"
  by (auto simp: pool_full_def pool_ready_def list_all_iff slot_idle_def slot_live_def split: option.splits)

lemma pool_full_top:
  assumes "pool_full n p"
  obtains c rest where "pl_slots p = Some c # rest" and "\<not> Connection_closed c"
  using assms by (cases "pl_slots p") (auto simp: pool_full_def slot_idle_def split: option.splits)

lemma home_ready: "pool_ready p \<Longrightarrow> home p q \<Longrightarrow> pool_ready q"
  by (cases "pl_slots p"; cases "pl_slots q") (auto simp: pool_ready_def home_def same_frame_def)

lemma home_length: "home p q \<Longrightarrow> length (pl_slots q) = length (pl_slots p)"
  by (cases "pl_slots p"; cases "pl_slots q") (auto simp: home_def)

lemma home_trans: "home p q \<Longrightarrow> home q r \<Longrightarrow> home p r"
  by (auto simp: home_def same_frame_def)

lemma pool_ready_home: "pool_ready p \<Longrightarrow> home p p"
  by (cases "pl_slots p") (auto simp: pool_ready_def home_def same_frame_def)

text \<open>
  The interface a client relies on: entering lends one slot or fails with the pool as it was,
  releasing brings the slot home.
\<close>

locale slot_pool =
  fixes enter :: "Deadline \<Rightarrow> (pstate, connection) prog"
    and release :: "connection \<Rightarrow> (pstate, unit) prog"
  assumes enter_lends: "pool_ready p \<Longrightarrow> enter dl (p, w) = (Return c, (q, v)) \<Longrightarrow> lent p q"
    and enter_fails: "pool_ready p \<Longrightarrow> enter dl (p, w) = (Raise e, (q, v)) \<Longrightarrow> home p q"
    and release_home: "pool_ready p \<Longrightarrow> lent p q \<Longrightarrow> release c (q, v) = (r, (q', v')) \<Longrightarrow>
      r = Return () \<and> home p q'"
begin

lemma bracket_home:
  assumes "pool_ready p"
    and "bracket (enter dl) release (\<lambda>c. run_body c body) (p, w) = (r, (q, v))" and "r \<noteq> Blocked"
  shows "home p q"
proof -
  obtain a p1 w1 where e: "enter dl (p, w) = (a, (p1, w1))" by (metis prod.exhaust)
  show ?thesis
  proof (cases a)
    case (Return c)
    obtain b c' w2 where b: "body (c, w1) = (b, (c', w2))" by (metis prod.exhaust)
    have lent: "lent p p1" using enter_lends [OF assms(1)] e Return by blast
    obtain u p3 w3 where rel: "release c' (p1, w2) = (u, (p3, w3))" by (metis prod.exhaust)
    have "u = Return () \<and> home p p3" using release_home [OF assms(1) lent rel] .
    then show ?thesis
      using assms(2,3) e Return b rel
      by (cases b) (auto simp: bracket_def run_body_def pbind_def pret_def praise_def)
  next
    case (Raise x)
    then show ?thesis
      using assms(2) e enter_fails [OF assms(1)] by (auto simp: bracket_def pbind_def)
  qed (use assms e in \<open>auto simp: bracket_def pbind_def\<close>)
qed

end

lemma slot_get_cases:
  "slot_get d (p, w) = (r, (q, v)) \<Longrightarrow> pl_slots p \<noteq> [] \<Longrightarrow> r = Return (hd (pl_slots p)) \<and> lent p q \<and> v = w"
  by (cases "pl_slots p") (auto simp: slot_get_def lent_def same_frame_def)

lemma take_ready:
  "ConnectionPool_take dl (p, w) = (r, (q, v)) \<Longrightarrow> pl_slots p \<noteq> [] \<Longrightarrow>
     r = Return (hd (pl_slots p)) \<and> lent p q \<and> v = w"
  by (auto simp: ConnectionPool_take_def prog_defs split: prod.splits outcome.splits dest!: slot_get_cases)

lemma put_home:
  assumes "pool_ready p" and "lent p q" and "slot_live x" and "slot_put x (q, v) = (r, (q', v'))"
  shows "r = Return () \<and> home p q' \<and> v' = v"
  using assms
  by (cases "pl_slots p")
     (auto simp: slot_put_def home_def lent_def same_frame_def pool_ready_def split: if_splits)

interpretation sync_pool: slot_pool "ConnectionPool_enter factory" ConnectionPool_release for factory
proof
  fix p q :: pool and w v :: world and dl
  assume ready: "pool_ready p"
  then have slots: "pl_slots p \<noteq> []" "\<not> pl_closed p" by (simp_all add: pool_ready_def)
  obtain r p1 w1 where t: "ConnectionPool_take dl (p, w) = (r, (p1, w1))" by (metis prod.exhaust)
  note got = take_ready [OF t slots(1)]
  obtain f w2 where f: "factory w1 = (f, w2)" by (cases "factory w1")
  obtain u p3 w3 where put: "slot_put None (p1, w2) = (u, (p3, w3))" by (metis prod.exhaust)
  have undone: "u = Return () \<and> home p p3"
    using put_home [OF ready _ _ put] got by (simp add: slot_live_def)
  have run: "ConnectionPool_enter factory dl (p, w) = (case hd (pl_slots p) of
      Some c \<Rightarrow> (Return c, (p1, w1))
    | None \<Rightarrow> (case f of Return c \<Rightarrow> (Return c, (p1, w2)) | Raise e \<Rightarrow> (Raise e, (p3, w3))
        | Blocked \<Rightarrow> (Blocked, (p1, w2))))"
    using t got f put undone slots
    by (simp add: ConnectionPool_enter_def pbind_def pget_def pret_def pcatch_def praise_def
        on_pool_world_def split: option.split outcome.split)
  show "ConnectionPool_enter factory dl (p, w) = (Return c, (q, v)) \<Longrightarrow> lent p q" for c
    using run got by (auto split: option.splits outcome.splits)
  show "ConnectionPool_enter factory dl (p, w) = (Raise e, (q, v)) \<Longrightarrow> home p q" for e
    using run undone by (auto split: option.splits outcome.splits)
next
  fix p q q' :: pool and v v' :: world and c r
  assume a: "pool_ready p" "lent p q" "ConnectionPool_release c (q, v) = (r, (q', v'))"
  then have "\<not> pl_closed q" by (simp add: pool_ready_def lent_def same_frame_def)
  then have "slot_put (if Connection_closed c then None else Some c) (q, v) = (r, (q', v'))"
    using a(3) by (simp add: ConnectionPool_release_def pbind_def pget_def)
  from put_home [OF a(1,2) _ this] show "r = Return () \<and> home p q'" by (simp add: slot_live_def)
qed


text \<open>A pool with one slot, whose connection is opened by the server of the earlier instances.\<close>

definition sample_factory :: "(world, connection) prog" where
  "sample_factory w = (case Connection_connect (sample_closed, w) of
      (Return u, (c, w')) \<Rightarrow> (Return c, w') | (Raise e, (c, w')) \<Rightarrow> (Raise e, w')
    | (Blocked, (c, w')) \<Rightarrow> (Blocked, w'))"

definition sample_pool :: "connection option list \<Rightarrow> pool" where
  "sample_pool slots = \<lparr>pl_size = 2, pl_slots = slots, pl_closed = False\<rparr>"


section \<open>Opening and closing the pool\<close>

lemma put_all_room:
  "int (length (pl_slots p) + length xs) \<le> pl_size p \<Longrightarrow>
     put_all xs (p, w) = (Return (), (p\<lparr>pl_slots := rev xs @ pl_slots p\<rparr>, w))"
proof (induction xs arbitrary: p)
  case (Cons x xs)
  let ?p = "p\<lparr>pl_slots := x # pl_slots p\<rparr>"
  have "put_all xs (?p, w) = (Return (), (?p\<lparr>pl_slots := rev xs @ pl_slots ?p\<rparr>, w))"
    using Cons.prems by (intro Cons.IH) simp
  then show ?case using Cons.prems by (simp add: pbind_def slot_put_def)
qed (simp add: pret_def)

lemma prefill_loop_spec:
  assumes "prefill_loop factory n opened (p, w) = (Return (failed, opened'), (q, v))"
    and "n \<le> length (pl_slots p)"
  shows "\<exists>cs. opened' = opened @ cs \<and> same_frame p q \<and>
    (\<forall>c \<in> set cs. \<exists>u u'. factory u = (Return c, u')) \<and>
    (failed = None \<longrightarrow> length cs = n \<and> pl_slots q = drop n (pl_slots p)) \<and>
    (failed \<noteq> None \<longrightarrow> length cs < n \<and> pl_slots q = drop (length cs + 1) (pl_slots p))"
  using assms
proof (induction n arbitrary: opened p w)
  case (Suc n)
  obtain x rest where slots: "pl_slots p = x # rest" using Suc.prems(2) by (cases "pl_slots p") auto
  let ?p = "p\<lparr>pl_slots := rest\<rparr>"
  obtain f w1 where f: "factory w = (f, w1)" by (cases "factory w")
  show ?case
  proof (cases f)
    case (Return c)
    then have "prefill_loop factory n (opened @ [c]) (?p, w1) = (Return (failed, opened'), (q, v))"
      using Suc.prems(1) slots f by (simp add: pbind_def slot_get_nowait_def on_pool_world_def)
    from Suc.IH [OF this] Suc.prems(2) slots obtain cs where
      cs: "opened' = (opened @ [c]) @ cs" "same_frame ?p q" "\<forall>c \<in> set cs. \<exists>u u'. factory u = (Return c, u')"
        "failed = None \<longrightarrow> length cs = n \<and> pl_slots q = drop n rest"
        "failed \<noteq> None \<longrightarrow> length cs < n \<and> pl_slots q = drop (length cs + 1) rest" by auto
    then show ?thesis
      using slots f Return by (intro exI [of _ "c # cs"]) (auto simp: same_frame_def)
  next
    case (Raise e)
    then have "failed = Some e" "opened' = opened" "q = ?p"
      using Suc.prems(1) slots f
      by (auto simp: pbind_def slot_get_nowait_def on_pool_world_def)
    then show ?thesis using slots by (intro exI [of _ "[]"]) (simp add: same_frame_def)
  qed (use Suc.prems slots f in \<open>auto simp: pbind_def slot_get_nowait_def on_pool_world_def\<close>)
qed (auto simp: pret_def same_frame_def)

lemma prefill_loop_no_raise: "fst (prefill_loop factory n opened s) \<noteq> Raise e"
  by (induction n arbitrary: opened s) (auto simp: pret_def split: prod.split outcome.split)

lemma close_world_returns: "\<exists>v. close_world c w = (Return (), v)"
  by (auto simp: close_world_def Connection_close_def split: option.splits)

lemma close_all_returns: "\<exists>v. close_all cs w = (Return (), v)"
proof (induction cs arbitrary: w)
  case (Cons c cs)
  then show ?case using close_world_returns [of c w] by (auto simp: pbind_def)
qed (simp add: pret_def)

lemma prefill_outcome:
  assumes "ConnectionPool_new n = Inr p" and "ConnectionPool_prefill factory (p, w) = (r, (q, v))"
    and "r \<noteq> Blocked"
  shows "(r = Return () \<longrightarrow> int (length (pl_slots q)) = n \<and> same_frame p q \<and>
      (\<forall>x \<in> set (pl_slots q). \<exists>c u u'. x = Some c \<and> factory u = (Return c, u'))) \<and>
    (\<forall>e. r = Raise e \<longrightarrow> pl_slots q = replicate (nat n - 1) None)"
proof -
  have p: "0 < n" "pl_size p = n" "pl_slots p = replicate (nat n) None"
    using assms(1) by (auto simp: ConnectionPool_new_def split: if_splits)
  obtain a p1 w1 where loop: "prefill_loop factory (nat n) [] (p, w) = (a, (p1, w1))" by (metis prod.exhaust)
  have "a \<noteq> Blocked" "\<And>e. a \<noteq> Raise e"
    using assms(2,3) loop p prefill_loop_no_raise [of factory "nat n" "[]" "(p, w)"]
    by (auto simp: ConnectionPool_prefill_def pbind_def pget_def)
  then obtain failed cs where a: "a = Return (failed, cs)" by (cases a) auto
  have spec: "same_frame p p1" "\<forall>c \<in> set cs. \<exists>u u'. factory u = (Return c, u')" "failed = None \<Longrightarrow> length cs = nat n \<and> pl_slots p1 = []"
    "failed \<noteq> None \<Longrightarrow> length cs < nat n \<and> pl_slots p1 = replicate (nat n - (length cs + 1)) None"
    using prefill_loop_spec [OF loop [unfolded a]] p by auto
  show ?thesis
  proof (cases failed)
    case None
    have "put_all (map Some cs) (p1, w1) = (Return (), (p1\<lparr>pl_slots := rev (map Some cs) @ pl_slots p1\<rparr>, w1))"
      using spec None p by (intro put_all_room) (simp add: same_frame_def)
    then have "r = Return ()" "pl_slots q = rev (map Some cs)" "same_frame p q"
      using assms(2) loop a None p spec
      by (auto simp: ConnectionPool_prefill_def pbind_def pget_def same_frame_def)
    then show ?thesis using spec None p by auto
  next
    case (Some e)
    obtain w2 where w2: "close_all cs w1 = (Return (), w2)" using close_all_returns by blast
    have "put_all (replicate (length cs) None) (p1, w2) =
        (Return (), (p1\<lparr>pl_slots := rev (replicate (length cs) None) @ pl_slots p1\<rparr>, w2))"
      using spec Some p by (intro put_all_room) (simp add: same_frame_def)
    then have "r = Raise e" "pl_slots q = replicate (length cs) None @ pl_slots p1"
      using assms(2) loop a Some p w2
      by (auto simp: ConnectionPool_prefill_def pbind_def pget_def on_pool_world_def praise_def)
    then show ?thesis using spec Some by (simp add: replicate_add [symmetric])
  qed
qed

text \<open>
  Opening every connection upfront: when \<open>prefill\<close> of a new pool returns, each of its slots holds
  a connection the factory opened; when it fails, every slot is empty and one slot is missing, because
  the slot taken for the connection that could not be opened is not put back. A pool that is opened
  again after such a failure has permanently lost a place.
\<close>

theorem prefill_fills_or_loses_a_slot:
  assumes "ConnectionPool_new n = Inr p" and "ConnectionPool_prefill factory (p, w) = (r, (q, v))"
    and "r \<noteq> Blocked"
  shows "(r = Return () \<longrightarrow> int (length (pl_slots q)) = n \<and> same_frame p q \<and>
      (\<forall>x \<in> set (pl_slots q). \<exists>c u u'. x = Some c \<and> factory u = (Return c, u'))) \<and>
    (\<forall>e. r = Raise e \<longrightarrow> pl_slots q = replicate (nat n - 1) None)"
  using assms by (rule prefill_outcome)

lemma close_world_open: "cn_sock c \<noteq> None \<Longrightarrow> close_world c w = (Return (), record_event NetClose w)"
  by (auto simp: close_world_def Connection_close_def)

lemma close_slots_live:
  "list_all slot_live xs \<Longrightarrow> close_slots xs w =
     (Return (), w\<lparr>trace := trace w @ replicate (length (filter (\<lambda>x. x \<noteq> None) xs)) NetClose\<rparr>)"
proof (induction xs arbitrary: w rule: close_slots.induct)
  case (3 c xs)
  have "cn_sock c \<noteq> None" using 3(2) by (simp add: slot_live_def Connection_closed_def)
  from close_world_open [OF this, of w] show ?case
    using 3 by (simp add: pbind_def record_event_def)
qed (simp_all add: pret_def)

text \<open>
  Closing is final: \<open>close\<close> closes exactly the connections in the slots and empties the queue;
  afterwards nothing can be acquired (PoolClosedError), a second \<open>close\<close> does nothing, and a connection
  that was out is closed when it is released instead of going back.
\<close>

theorem close_is_final:
  assumes "pool_ready p" and "ConnectionPool_close (p, w) = (r, (q, v))"
  shows "r = Return () \<and> pl_closed q \<and> pl_slots q = [] \<and>
    trace v = trace w @ replicate (length (filter (\<lambda>x. x \<noteq> None) (pl_slots p))) NetClose \<and>
    ConnectionPool_close (q, v) = (Return (), (q, v)) \<and>
    ConnectionPool_acquire factory dl body (q, v) = (Raise (Exc PoolClosedError), (q, v)) \<and>
    (cn_sock c \<noteq> None \<longrightarrow> ConnectionPool_release c (q, v) = (Return (), (q, record_event NetClose v)))"
proof -
  have p: "\<not> pl_closed p" "list_all slot_live (pl_slots p)" using assms(1) by (simp_all add: pool_ready_def)
  have q: "r = Return ()" "q = p\<lparr>pl_closed := True, pl_slots := []\<rparr>"
    "trace v = trace w @ replicate (length (filter (\<lambda>x. x \<noteq> None) (pl_slots p))) NetClose"
    using assms(2) p(1) close_slots_live [OF p(2), of w] by (auto simp: ConnectionPool_close_def)
  have "cn_sock c \<noteq> None \<Longrightarrow> ConnectionPool_release c (q, v) = (Return (), (q, record_event NetClose v))"
    using close_world_open [of c v] q(2)
    by (simp add: ConnectionPool_release_def pbind_def pget_def on_pool_world_def)
  moreover have "ConnectionPool_close (q, v) = (Return (), (q, v))"
    using q(2) by (simp add: ConnectionPool_close_def)
  moreover have "ConnectionPool_acquire factory dl body (q, v) = (Raise (Exc PoolClosedError), (q, v))"
    using q(2) by (simp add: ConnectionPool_acquire_def bracket_def ConnectionPool_enter_def pbind_def
        pget_def praise_def)
  ultimately show ?thesis using q by simp
qed

theorem close_is_final_witness:
  "\<exists>q v. ConnectionPool_close (sample_pool [Some (sample_connection (sample_sock [] [])), None],
      sample_world []) = (Return (), (q, v)) \<and> trace v = [NetClose]"
proof -
  let ?p = "sample_pool [Some (sample_connection (sample_sock [] [])), None]"
  obtain r q v where run: "ConnectionPool_close (?p, sample_world []) = (r, (q, v))"
    by (metis prod.exhaust)
  have "pool_ready ?p"
    by (simp add: pool_ready_def sample_pool_def slot_live_def Connection_closed_def sample_defs)
  from close_is_final [OF this run, where factory = sample_factory and body = "pret ()"] run show ?thesis
    by (simp add: sample_pool_def sample_world_def)
qed

theorem prefill_fills_or_loses_a_slot_witness:
  "\<exists>e q v. ConnectionPool_prefill sample_factory (sample_pool [None, None], sample_world [Refused 1]) =
     (Raise e, (q, v)) \<and> pl_slots q = [None]"
proof -
  let ?p = "sample_pool [None, None]" and ?w = "sample_world [Refused 1]"
  have new: "ConnectionPool_new 2 = Inr ?p"
    by (simp add: ConnectionPool_new_def sample_pool_def numeral_2_eq_2)
  have "\<exists>e q v. ConnectionPool_prefill sample_factory (?p, ?w) = (Raise e, (q, v))"
    by (simp add: ConnectionPool_prefill_def numeral_2_eq_2 slot_get_nowait_def on_pool_world_def
        sample_factory_def sample_pool_def sample_eval)
  then obtain e q v where run: "ConnectionPool_prefill sample_factory (?p, ?w) = (Raise e, (q, v))" by blast
  from prefill_fills_or_loses_a_slot [OF new run] run show ?thesis by simp
qed

end
