(* ===== verification/PoolThreads.thy ===== *)
theory PoolThreads
  imports Pool
begin

text \<open>
  The pool under threads: \<open>acquire\<close>, \<open>_release\<close> and \<open>close\<close> of \<open>fq/sync/pool.py\<close> as a step relation
  whose atomic steps are the operations of the thread-safe queue and the single reads and writes of
  \<open>_closed\<close>. Connections are numbered in the order they are opened; \<open>tp_live\<close> are the open ones. A thread
  is an entry of \<open>tp_phases\<close>; a new connection gets the number \<open>tp_next\<close>.
\<close>

datatype phase =
    Idle
  | Entered \<comment> \<open>read \<open>_closed\<close> as False in \<open>acquire\<close>\<close>
  | Taken "nat option" \<comment> \<open>holds a slot\<close>
  | Holding nat \<comment> \<open>inside the \<open>with\<close> block\<close>
  | Returning nat \<comment> \<open>read \<open>_closed\<close> as False in \<open>_release\<close>\<close>
  | Closing \<comment> \<open>read \<open>_closed\<close> as False in \<open>close\<close>\<close>
  | Draining \<comment> \<open>in the loop of \<open>close\<close>\<close>

record threads =
  tp_size :: nat
  tp_slots :: "nat option list"
  tp_closed :: bool
  tp_live :: "nat set"
  tp_next :: nat
  tp_phases :: "phase list"

definition threads_init :: "nat \<Rightarrow> nat \<Rightarrow> threads" where
  "threads_init n k = \<lparr>tp_size = n, tp_slots = replicate n None, tp_closed = False, tp_live = {},
     tp_next = 0, tp_phases = replicate k Idle\<rparr>"

text \<open>\<open>at ts ph ph' st\<close>: one thread, with \<open>ts\<close> before and after it, moves from \<open>ph\<close> to \<open>ph'\<close>.\<close>

definition moves :: "threads \<Rightarrow> phase \<Rightarrow> phase \<Rightarrow> threads \<Rightarrow> bool" where
  "moves st ph ph' st' \<longleftrightarrow>
     (\<exists>before after. tp_phases st = before @ ph # after \<and> tp_phases st' = before @ ph' # after)"

definition slot_of :: "threads \<Rightarrow> nat \<Rightarrow> nat option" where
  "slot_of st c = (if c \<in> tp_live st then Some c else None)"

inductive pool_step :: "threads \<Rightarrow> threads \<Rightarrow> bool" where
  enter: "\<not> tp_closed st \<Longrightarrow> moves st Idle Entered (st\<lparr>tp_phases := ps\<rparr>) \<Longrightarrow>
    pool_step st (st\<lparr>tp_phases := ps\<rparr>)"
| take_slot: "tp_slots st = x # rest \<Longrightarrow> moves st Entered (Taken x) (st\<lparr>tp_phases := ps\<rparr>) \<Longrightarrow>
    pool_step st (st\<lparr>tp_slots := rest, tp_phases := ps\<rparr>)"
| take_timeout: "tp_slots st = [] \<Longrightarrow> moves st Entered Idle (st\<lparr>tp_phases := ps\<rparr>) \<Longrightarrow>
    pool_step st (st\<lparr>tp_phases := ps\<rparr>)"
| reuse: "moves st (Taken (Some c)) (Holding c) (st\<lparr>tp_phases := ps\<rparr>) \<Longrightarrow>
    pool_step st (st\<lparr>tp_phases := ps\<rparr>)"
| opened: "moves st (Taken None) (Holding (tp_next st)) (st\<lparr>tp_phases := ps\<rparr>) \<Longrightarrow>
    pool_step st (st\<lparr>tp_phases := ps, tp_live := insert (tp_next st) (tp_live st), tp_next := Suc (tp_next st)\<rparr>)"
| open_failed: "moves st (Taken None) Idle (st\<lparr>tp_phases := ps\<rparr>) \<Longrightarrow> length (tp_slots st) < tp_size st \<Longrightarrow>
    pool_step st (st\<lparr>tp_phases := ps, tp_slots := None # tp_slots st\<rparr>)"
| lost: "Holding c \<in> set (tp_phases st) \<Longrightarrow> pool_step st (st\<lparr>tp_live := tp_live st - {c}\<rparr>)"
| reopened: "Holding c \<in> set (tp_phases st) \<Longrightarrow> pool_step st (st\<lparr>tp_live := insert c (tp_live st)\<rparr>)"
| release_closed: "tp_closed st \<Longrightarrow> moves st (Holding c) Idle (st\<lparr>tp_phases := ps\<rparr>) \<Longrightarrow>
    pool_step st (st\<lparr>tp_phases := ps, tp_live := tp_live st - {c}\<rparr>)"
| release_check: "\<not> tp_closed st \<Longrightarrow> moves st (Holding c) (Returning c) (st\<lparr>tp_phases := ps\<rparr>) \<Longrightarrow>
    pool_step st (st\<lparr>tp_phases := ps\<rparr>)"
| release_put: "moves st (Returning c) Idle (st\<lparr>tp_phases := ps\<rparr>) \<Longrightarrow> length (tp_slots st) < tp_size st \<Longrightarrow>
    pool_step st (st\<lparr>tp_phases := ps, tp_slots := slot_of st c # tp_slots st\<rparr>)"
| close_check: "\<not> tp_closed st \<Longrightarrow> moves st Idle Closing (st\<lparr>tp_phases := ps\<rparr>) \<Longrightarrow>
    pool_step st (st\<lparr>tp_phases := ps\<rparr>)"
| close_begin: "moves st Closing Draining (st\<lparr>tp_phases := ps\<rparr>) \<Longrightarrow>
    pool_step st (st\<lparr>tp_phases := ps, tp_closed := True\<rparr>)"
| drain_empty: "tp_slots st = None # rest \<Longrightarrow> Draining \<in> set (tp_phases st) \<Longrightarrow>
    pool_step st (st\<lparr>tp_slots := rest\<rparr>)"
| drain_conn: "tp_slots st = Some c # rest \<Longrightarrow> Draining \<in> set (tp_phases st) \<Longrightarrow>
    pool_step st (st\<lparr>tp_slots := rest, tp_live := tp_live st - {c}\<rparr>)"
| close_end: "tp_slots st = [] \<Longrightarrow> moves st Draining Idle (st\<lparr>tp_phases := ps\<rparr>) \<Longrightarrow>
    pool_step st (st\<lparr>tp_phases := ps\<rparr>)"

definition reachable :: "nat \<Rightarrow> nat \<Rightarrow> threads \<Rightarrow> bool" where
  "reachable n k st \<longleftrightarrow> pool_step\<^sup>*\<^sup>* (threads_init n k) st"

section \<open>Who owns a connection\<close>

fun held :: "phase \<Rightarrow> nat list" where
  "held (Taken (Some c)) = [c]"
| "held (Holding c) = [c]"
| "held (Returning c) = [c]"
| "held _ = []"

fun busy :: "phase \<Rightarrow> nat" where
  "busy (Taken x) = 1"
| "busy (Holding c) = 1"
| "busy (Returning c) = 1"
| "busy _ = 0"

fun slot_ids :: "nat option list \<Rightarrow> nat list" where
  "slot_ids [] = []"
| "slot_ids (None # xs) = slot_ids xs"
| "slot_ids (Some c # xs) = c # slot_ids xs"

definition held_count :: "phase list \<Rightarrow> nat \<Rightarrow> nat" where
  "held_count phs c = sum_list (map (\<lambda>ph. count_list (held ph) c) phs)"

definition busy_count :: "phase list \<Rightarrow> nat" where
  "busy_count phs = sum_list (map busy phs)"

definition owners :: "threads \<Rightarrow> nat \<Rightarrow> nat" where
  "owners st c = count_list (slot_ids (tp_slots st)) c + held_count (tp_phases st) c"

text \<open>
  The invariant. For every connection: at most one owner, which an open one has; the numbers not yet
  given out own nothing; what is in a slot is open. For the pool: slots and busy threads together never
  exceed the size, and make it up as long as the pool is not closed.
\<close>

definition conn_ok :: "threads \<Rightarrow> nat \<Rightarrow> bool" where
  "conn_ok st c \<longleftrightarrow> owners st c \<le> 1 \<and> (0 < owners st c \<longrightarrow> c < tp_next st) \<and>
     (c \<in> tp_live st \<longrightarrow> 0 < owners st c) \<and>
     (0 < count_list (slot_ids (tp_slots st)) c \<longrightarrow> c \<in> tp_live st)"

definition room_ok :: "threads \<Rightarrow> bool" where
  "room_ok st \<longleftrightarrow> length (tp_slots st) + busy_count (tp_phases st) \<le> tp_size st \<and>
     (\<not> tp_closed st \<longrightarrow> length (tp_slots st) + busy_count (tp_phases st) = tp_size st) \<and>
     (Draining \<in> set (tp_phases st) \<longrightarrow> tp_closed st)"

definition pool_inv :: "threads \<Rightarrow> bool" where
  "pool_inv st \<longleftrightarrow> (\<forall>c. conn_ok st c) \<and> room_ok st"

lemmas inv_defs = conn_ok_def room_ok_def owners_def slot_of_def

lemma moves_counts:
  assumes "moves st ph ph' (st\<lparr>tp_phases := ps\<rparr>)"
  shows "held_count ps c + count_list (held ph) c = held_count (tp_phases st) c + count_list (held ph') c"
    and "busy_count ps + busy ph = busy_count (tp_phases st) + busy ph'"
    and "count_list (held ph) c \<le> held_count (tp_phases st) c"
  using assms by (auto simp: moves_def held_count_def busy_count_def)

lemma moves_draining:
  "moves st ph ph' (st\<lparr>tp_phases := ps\<rparr>) \<Longrightarrow> Draining \<in> set ps \<Longrightarrow>
     ph' = Draining \<or> Draining \<in> set (tp_phases st)"
  "moves st Draining ph' (st\<lparr>tp_phases := ps\<rparr>) \<Longrightarrow> Draining \<in> set (tp_phases st)"
  by (auto simp: moves_def)

lemmas moves_room = moves_counts(2) moves_draining(1)

lemma holding_counts: "Holding c \<in> set phs \<Longrightarrow> 0 < held_count phs c"
  by (induction phs) (auto simp: held_count_def)

lemma slot_ids_replicate [simp]: "slot_ids (replicate n None) = []"
  by (induction n) simp_all

lemma pool_inv_init: "pool_inv (threads_init n k)"
  by (auto simp: pool_inv_def threads_init_def inv_defs held_count_def busy_count_def sum_list_replicate)

lemma conn_ok_step:
  assumes "pool_step st st'" and "\<forall>d. conn_ok st d"
  shows "conn_ok st' c"
proof -
  note ok = assms(2) [THEN spec, of c] assms(2) [THEN spec, of "tp_next st"]
  from assms(1) show ?thesis
  proof (cases rule: pool_step.cases)
    case (take_slot x rest ps)
    with moves_counts(1,3) [OF take_slot(3), of c] ok show ?thesis
      by (cases x) (auto simp: inv_defs split: if_splits)
  next
    case (opened ps)
    with moves_counts(1,3) [OF opened(2), of c] ok show ?thesis
      by (auto simp: inv_defs split: if_splits)
  next
    case (lost d)
    with holding_counts [OF lost(2)] ok assms(2) [THEN spec, of d] show ?thesis
      by (auto simp: inv_defs split: if_splits)
  next
    case (reopened d)
    with holding_counts [OF reopened(2)] ok assms(2) [THEN spec, of d] show ?thesis
      by (auto simp: inv_defs split: if_splits)
  next
    case (drain_conn d rest)
    with ok show ?thesis by (auto simp: inv_defs split: if_splits)
  next
    case (release_closed d ps)
    with moves_counts(1,3) [OF release_closed(3), of c] ok show ?thesis
      by (auto simp: inv_defs split: if_splits)
  next
    case (release_put d ps)
    with moves_counts(1,3) [OF release_put(2), of c] ok show ?thesis
      by (auto simp: inv_defs split: if_splits)
  next
    case (enter ps)
    with moves_counts(1,3) [OF enter(3), of c] ok show ?thesis by (auto simp: inv_defs)
  next
    case (take_timeout ps)
    with moves_counts(1,3) [OF take_timeout(3), of c] ok show ?thesis by (auto simp: inv_defs)
  next
    case (reuse d ps)
    with moves_counts(1,3) [OF reuse(2), of c] ok show ?thesis by (auto simp: inv_defs)
  next
    case (open_failed ps)
    with moves_counts(1,3) [OF open_failed(2), of c] ok show ?thesis by (auto simp: inv_defs)
  next
    case (release_check d ps)
    with moves_counts(1,3) [OF release_check(3), of c] ok show ?thesis by (auto simp: inv_defs)
  next
    case (close_check ps)
    with moves_counts(1,3) [OF close_check(3), of c] ok show ?thesis by (auto simp: inv_defs)
  next
    case (close_begin ps)
    with moves_counts(1,3) [OF close_begin(2), of c] ok show ?thesis by (auto simp: inv_defs)
  next
    case (drain_empty rest)
    with ok show ?thesis by (auto simp: inv_defs)
  next
    case (close_end ps)
    with moves_counts(1,3) [OF close_end(3), of c] ok show ?thesis by (auto simp: inv_defs)
  qed
qed

lemma room_ok_step:
  assumes "pool_step st st'" and "room_ok st"
  shows "room_ok st'"
  using assms(1)
proof (cases rule: pool_step.cases)
  case (enter ps)
  with moves_room [OF enter(3)] assms(2) show ?thesis by (auto simp: inv_defs)
next
  case (take_slot x rest ps)
  with moves_room [OF take_slot(3)] assms(2) show ?thesis by (auto simp: inv_defs)
next
  case (take_timeout ps)
  with moves_room [OF take_timeout(3)] assms(2) show ?thesis by (auto simp: inv_defs)
next
  case (reuse d ps)
  with moves_room [OF reuse(2)] assms(2) show ?thesis by (auto simp: inv_defs)
next
  case (opened ps)
  with moves_room [OF opened(2)] assms(2) show ?thesis by (auto simp: inv_defs)
next
  case (open_failed ps)
  with moves_room [OF open_failed(2)] assms(2) show ?thesis by (auto simp: inv_defs)
next
  case (release_closed d ps)
  with moves_room [OF release_closed(3)] assms(2) show ?thesis by (auto simp: inv_defs)
next
  case (release_check d ps)
  with moves_room [OF release_check(3)] assms(2) show ?thesis by (auto simp: inv_defs)
next
  case (release_put d ps)
  with moves_room [OF release_put(2)] assms(2) show ?thesis by (auto simp: inv_defs)
next
  case (close_check ps)
  with moves_room [OF close_check(3)] assms(2) show ?thesis by (auto simp: inv_defs)
next
  case (close_begin ps)
  with moves_room [OF close_begin(2)] assms(2) show ?thesis by (auto simp: inv_defs)
next
  case (close_end ps)
  with moves_room [OF close_end(3)] assms(2) show ?thesis by (auto simp: inv_defs)
qed (use assms(2) in \<open>auto simp: inv_defs\<close>)

text \<open>
  The interface between an invariant and a step relation: what holds at the start and is kept by every
  step holds of every reachable state.
\<close>

locale step_invariant =
  fixes init :: "'s \<Rightarrow> bool" and step :: "'s \<Rightarrow> 's \<Rightarrow> bool" and I :: "'s \<Rightarrow> bool"
  assumes I_init: "init s \<Longrightarrow> I s"
    and I_step: "step s t \<Longrightarrow> I s \<Longrightarrow> I t"
begin

lemma I_reachable: "init s \<Longrightarrow> step\<^sup>*\<^sup>* s t \<Longrightarrow> I t"
  by (rotate_tac, induction rule: rtranclp_induct) (auto intro: I_init I_step)

end

interpretation pool_threads: step_invariant "\<lambda>st. \<exists>n k. st = threads_init n k" pool_step pool_inv
  by unfold_locales (use pool_inv_init in blast, auto simp: pool_inv_def intro: conn_ok_step room_ok_step)

lemma reachable_inv: "reachable n k st \<Longrightarrow> pool_inv st"
  unfolding reachable_def by (rule pool_threads.I_reachable) blast+

lemma step_size: "pool_step st st' \<Longrightarrow> tp_size st' = tp_size st"
  by (cases rule: pool_step.cases) auto

lemma reachable_size: "reachable n k st \<Longrightarrow> tp_size st = n"
proof -
  have "pool_step\<^sup>*\<^sup>* s t \<Longrightarrow> tp_size t = tp_size s" for s t
    by (induction rule: rtranclp_induct) (auto dest: step_size)
  then show "reachable n k st \<Longrightarrow> tp_size st = n" by (auto simp: reachable_def threads_init_def)
qed

lemma owners_list: "owners st c = count_list (slot_ids (tp_slots st) @ concat (map held (tp_phases st))) c"
proof -
  have "held_count phs c = count_list (concat (map held phs)) c" for phs
    by (induction phs) (simp_all add: held_count_def)
  then show ?thesis by (simp add: owners_def)
qed

lemma count_pos: "0 < count_list xs c \<longleftrightarrow> c \<in> set xs"
  by (induction xs) auto

lemma live_bound:
  assumes "pool_inv st"
  shows "finite (tp_live st) \<and> card (tp_live st) \<le> tp_size st"
proof -
  let ?own = "slot_ids (tp_slots st) @ concat (map held (tp_phases st))"
  have sub: "tp_live st \<subseteq> set ?own"
  proof
    fix c assume "c \<in> tp_live st"
    then have "0 < count_list ?own c" using assms by (simp add: pool_inv_def conn_ok_def owners_list)
    then show "c \<in> set ?own" by (simp only: count_pos)
  qed
  have "length (slot_ids xs) \<le> length xs" for xs by (induction xs rule: slot_ids.induct) auto
  moreover have "length (held ph) \<le> busy ph" for ph by (cases ph rule: held.cases) auto
  then have "length (concat (map held phs)) \<le> busy_count phs" for phs
    by (induction phs) (auto simp: busy_count_def intro: add_mono)
  ultimately have "length ?own \<le> length (tp_slots st) + busy_count (tp_phases st)"
    by (simp add: add_mono)
  also have "\<dots> \<le> tp_size st" using assms by (simp add: pool_inv_def room_ok_def)
  finally have "length ?own \<le> tp_size st" .
  moreover have "card (set ?own) \<le> length ?own" by (rule card_length)
  moreover have "card (tp_live st) \<le> card (set ?own)" using sub by (intro card_mono) simp_all
  ultimately show ?thesis using finite_subset [OF sub] by simp
qed

lemma inv_one_owner:
  assumes inv: "pool_inv st" and "tp_size st = n"
  shows "(\<forall>xs ph ys ph' zs. tp_phases st = xs @ ph # ys @ ph' # zs \<longrightarrow> set (held ph) \<inter> set (held ph') = {}) \<and>
    (\<forall>ph \<in> set (tp_phases st). set (held ph) \<inter> set (slot_ids (tp_slots st)) = {}) \<and>
    card (tp_live st) \<le> n \<and>
    (\<forall>ph \<in> set (tp_phases st). busy ph = 1 \<longrightarrow> length (tp_slots st) < n)"
proof -
  have one: "owners st c \<le> 1" for c using inv by (simp add: pool_inv_def conn_ok_def)
  have two: "False" if "tp_phases st = xs @ ph # ys @ ph' # zs" "c \<in> set (held ph)" "c \<in> set (held ph')"
    for xs ph ys ph' zs c
  proof -
    have "0 < count_list (held ph) c" "0 < count_list (held ph') c"
      using that(2,3) by (simp_all add: count_pos)
    with one [of c] that(1) show False by (simp add: owners_def held_count_def)
  qed
  have slot: "False" if "ph \<in> set (tp_phases st)" "c \<in> set (held ph)" "c \<in> set (slot_ids (tp_slots st))"
    for ph c
  proof -
    from that(1) obtain xs ys where "tp_phases st = xs @ ph # ys" by (meson split_list)
    moreover have "0 < count_list (held ph) c" "0 < count_list (slot_ids (tp_slots st)) c"
      using that(2,3) by (simp_all add: count_pos)
    ultimately show False using one [of c] by (simp add: owners_def held_count_def)
  qed
  have room: "length (tp_slots st) < n" if "ph \<in> set (tp_phases st)" "busy ph = 1" for ph
  proof -
    from that(1) obtain xs ys where "tp_phases st = xs @ ph # ys" by (meson split_list)
    then have "0 < busy_count (tp_phases st)" using that(2) by (simp add: busy_count_def)
    then show ?thesis using inv assms(2) by (simp add: pool_inv_def room_ok_def)
  qed
  have "\<forall>xs ph ys ph' zs. tp_phases st = xs @ ph # ys @ ph' # zs \<longrightarrow> set (held ph) \<inter> set (held ph') = {}"
    by (intro allI impI equals0I) (use two in blast)
  moreover have "\<forall>ph \<in> set (tp_phases st). set (held ph) \<inter> set (slot_ids (tp_slots st)) = {}"
    by (intro ballI equals0I) (use slot in blast)
  moreover have "card (tp_live st) \<le> n" using live_bound [OF inv] assms(2) by simp
  moreover have "\<forall>ph \<in> set (tp_phases st). busy ph = 1 \<longrightarrow> length (tp_slots st) < n"
    by (intro ballI impI) (rule room)
  ultimately show ?thesis by (rule conjI [OF _ conjI [OF _ conjI]])
qed

text \<open>
  C7. Exclusive use: in every state that any interleaving of calls, failures, reconnects and \<open>close\<close>
  can reach, no connection is held by two threads, none that is held is also in the queue, at most
  \<open>pool_size\<close> connections are open, and a thread that is about to put its slot back finds room, so the
  \<open>put\<close> never waits.
\<close>

theorem connections_have_one_owner:
  assumes "reachable n k st"
  shows "(\<forall>xs ph ys ph' zs. tp_phases st = xs @ ph # ys @ ph' # zs \<longrightarrow> set (held ph) \<inter> set (held ph') = {}) \<and>
    (\<forall>ph \<in> set (tp_phases st). set (held ph) \<inter> set (slot_ids (tp_slots st)) = {}) \<and>
    card (tp_live st) \<le> n \<and>
    (\<forall>ph \<in> set (tp_phases st). busy ph = 1 \<longrightarrow> length (tp_slots st) < n)"
  using inv_one_owner [OF reachable_inv [OF assms] reachable_size [OF assms]] .

section \<open>Closing while others are busy\<close>

lemma moves_first: "tp_phases st = ph # rest \<Longrightarrow> moves st ph ph' (st\<lparr>tp_phases := ph' # rest\<rparr>)"
  unfolding moves_def by (intro exI [of _ "[]"] exI [of _ rest]) simp

lemma moves_second: "tp_phases st = x # ph # rest \<Longrightarrow> moves st ph ph' (st\<lparr>tp_phases := x # ph' # rest\<rparr>)"
  unfolding moves_def by (intro exI [of _ "[x]"] exI [of _ rest]) simp

lemma moves_two:
  "moves st ph ph' st' \<Longrightarrow> tp_phases st = [a, b] \<Longrightarrow>
     ph = a \<and> tp_phases st' = [ph', b] \<or> ph = b \<and> tp_phases st' = [a, ph']"
  by (auto simp: moves_def Cons_eq_append_conv)

definition ts :: "nat option list \<Rightarrow> bool \<Rightarrow> nat set \<Rightarrow> nat \<Rightarrow> phase list \<Rightarrow> threads" where
  "ts slots shut live n phases = \<lparr>tp_size = 1, tp_slots = slots, tp_closed = shut, tp_live = live,
     tp_next = n, tp_phases = phases\<rparr>"

lemma race_steps:
  "pool_step (ts [None] False {} 0 [Idle, Idle]) (ts [None] False {} 0 [Entered, Idle])"
  "pool_step (ts [None] False {} 0 [Entered, Idle]) (ts [] False {} 0 [Taken None, Idle])"
  "pool_step (ts [] False {} 0 [Taken None, Idle]) (ts [] False {0} 1 [Holding 0, Idle])"
  "pool_step (ts [] False {0} 1 [Holding 0, Idle]) (ts [] False {0} 1 [Returning 0, Idle])"
  "pool_step (ts [] False {0} 1 [Returning 0, Idle]) (ts [] False {0} 1 [Returning 0, Closing])"
  "pool_step (ts [] False {0} 1 [Returning 0, Closing]) (ts [] True {0} 1 [Returning 0, Draining])"
  "pool_step (ts [] True {0} 1 [Returning 0, Draining]) (ts [] True {0} 1 [Returning 0, Idle])"
  "pool_step (ts [] True {0} 1 [Returning 0, Idle]) (ts [Some 0] True {0} 1 [Idle, Idle])"
  "pool_step (ts [None] False {} 0 [Entered, Idle]) (ts [None] False {} 0 [Entered, Closing])"
  "pool_step (ts [None] False {} 0 [Entered, Closing]) (ts [None] True {} 0 [Entered, Draining])"
  "pool_step (ts [None] True {} 0 [Entered, Draining]) (ts [] True {} 0 [Entered, Draining])"
  "pool_step (ts [] True {} 0 [Entered, Draining]) (ts [] True {} 0 [Entered, Idle])"
  using pool_step.enter [OF _ moves_first, of "ts [None] False {} 0 [Idle, Idle]"]
    pool_step.take_slot [OF _ moves_first, of "ts [None] False {} 0 [Entered, Idle]"]
    pool_step.opened [OF moves_first, of "ts [] False {} 0 [Taken None, Idle]"]
    pool_step.release_check [OF _ moves_first, of "ts [] False {0} 1 [Holding 0, Idle]"]
    pool_step.close_check [OF _ moves_second, of "ts [] False {0} 1 [Returning 0, Idle]"]
    pool_step.close_begin [OF moves_second, of "ts [] False {0} 1 [Returning 0, Closing]"]
    pool_step.close_end [OF _ moves_second, of "ts [] True {0} 1 [Returning 0, Draining]"]
    pool_step.release_put [OF moves_first, of "ts [] True {0} 1 [Returning 0, Idle]"]
    pool_step.close_check [OF _ moves_second, of "ts [None] False {} 0 [Entered, Idle]"]
    pool_step.close_begin [OF moves_second, of "ts [None] False {} 0 [Entered, Closing]"]
    pool_step.drain_empty [of "ts [None] True {} 0 [Entered, Draining]"]
    pool_step.close_end [OF _ moves_second, of "ts [] True {} 0 [Entered, Draining]"]
  by (simp_all add: ts_def slot_of_def)

text \<open>
  C27. \<open>close\<close> races with calls in progress. (1) A thread that has read \<open>_closed\<close> as False in \<open>_release\<close>
  puts its connection into the queue after another thread's \<open>close\<close> has emptied it: all threads are
  done, the pool is closed, the connection is open, and no step is left that would ever close it.
  (2) A thread that has passed the check in \<open>acquire\<close> waits for a slot of the emptied queue: nothing
  but its own deadline can end that wait, so without one it hangs.
\<close>

theorem close_races_with_calls:
  "(\<exists>st. reachable 1 2 st \<and> tp_closed st \<and> set (tp_phases st) = {Idle} \<and> tp_live st = {0} \<and>
      (\<forall>st'. \<not> pool_step st st')) \<and>
   (\<exists>st. reachable 1 2 st \<and> tp_closed st \<and> tp_phases st = [Entered, Idle] \<and> tp_slots st = [] \<and>
      \<not> (\<exists>st'. pool_step st st' \<and> Entered \<in> set (tp_phases st')) \<and>
      \<not> (\<exists>st'. pool_step st st' \<and> (\<exists>x. Taken x \<in> set (tp_phases st'))))"
proof -
  let ?leak = "ts [Some 0] True {0} 1 [Idle, Idle]" and ?hang = "ts [] True {} 0 [Entered, Idle]"
  have start: "threads_init 1 2 = ts [None] False {} 0 [Idle, Idle]"
    by (simp add: threads_init_def ts_def numeral_2_eq_2)
  note step = converse_rtranclp_into_rtranclp [of pool_step]
  have leak: "reachable 1 2 ?leak"
    unfolding reachable_def start
    by (rule step, rule race_steps(1), rule step, rule race_steps(2), rule step, rule race_steps(3),
        rule step, rule race_steps(4), rule step, rule race_steps(5), rule step, rule race_steps(6),
        rule step, rule race_steps(7), rule step, rule race_steps(8), rule rtranclp.rtrancl_refl)
  have hang: "reachable 1 2 ?hang"
    unfolding reachable_def start
    by (rule step, rule race_steps(1), rule step, rule race_steps(9), rule step, rule race_steps(10),
        rule step, rule race_steps(11), rule step, rule race_steps(12), rule rtranclp.rtrancl_refl)
  have stuck: "\<not> pool_step ?leak st'" for st'
  proof
    assume "pool_step ?leak st'"
    then show False by (cases rule: pool_step.cases) (auto simp: ts_def dest!: moves_two)
  qed
  have idle: "tp_phases st' = [Idle, Idle]" if "pool_step ?hang st'" for st'
    using that by (cases rule: pool_step.cases) (auto simp: ts_def dest!: moves_two)
  have facts: "set (tp_phases ?leak) = {Idle}" "tp_live ?leak = {0}" "tp_closed ?leak" "tp_closed ?hang"
    "tp_phases ?hang = [Entered, Idle]" "tp_slots ?hang = []" by (auto simp: ts_def)
  show ?thesis
  proof (rule conjI, goal_cases)
    case 1
    show ?case by (rule exI [of _ ?leak]) (intro conjI allI leak facts stuck)
  next
    case 2
    have "\<not> (pool_step ?hang st' \<and> Entered \<in> set (tp_phases st'))"
      "\<not> (pool_step ?hang st' \<and> (\<exists>x. Taken x \<in> set (tp_phases st')))" for st'
      using idle [of st'] by auto
    then show ?case
      by (intro exI [of _ ?hang] conjI hang facts) blast+
  qed
qed

theorem connections_have_one_owner_witness:
  "reachable 1 2 (ts [] False {0} 1 [Holding 0, Idle]) \<and> card (tp_live (ts [] False {0} 1 [Holding 0, Idle])) \<le> 1"
proof -
  have start: "threads_init 1 2 = ts [None] False {} 0 [Idle, Idle]"
    by (simp add: threads_init_def ts_def numeral_2_eq_2)
  note step = converse_rtranclp_into_rtranclp [of pool_step]
  have r: "reachable 1 2 (ts [] False {0} 1 [Holding 0, Idle])"
    unfolding reachable_def start
    by (rule step, rule race_steps(1), rule step, rule race_steps(2), rule step, rule race_steps(3),
        rule rtranclp.rtrancl_refl)
  with connections_have_one_owner [OF r] show ?thesis by blast
qed

end
