(* ===== verification/Client.thy ===== *)
theory Client
  imports Pool
begin

text \<open>
  \<open>fq/sync/client.py\<close>: the client of one server, without its streams. The record holds the attributes
  of the class; \<open>cl_template\<close> is the connection the factory's closure builds before it connects it.
  \<open>parse_inspect\<close> is an argument here (its model is in \<open>InspectTypes\<close>).
\<close>

datatype timeout = DEFAULT | Timeout "real option"

record Client =
  cl_timeout :: "real option"
  cl_connect_timeout :: real
  cl_reconnect :: ReconnectPolicy
  cl_template :: connection
  cl_pool :: pool
  cl_server_role :: pystr
  cl_auth_required :: bool

type_synonym clstate = "Client \<times> world"

definition STREAM_POLL_INTERVAL :: real where
  "STREAM_POLL_INTERVAL = 1 / 4"

section \<open>Construction\<close>

text \<open>\<open>factory()\<close>: a new connection, connected.\<close>

definition Client_factory :: "connection \<Rightarrow> (world, connection) prog" where
  "Client_factory template w = (case Connection_connect (template, w) of
      (Return u, (c, w')) \<Rightarrow> (Return c, w')
    | (Raise e, (c, w')) \<Rightarrow> (Raise e, w')
    | (Blocked, (c, w')) \<Rightarrow> (Blocked, w'))"

text \<open>A program over the pool, run on the client's own.\<close>

definition on_pool :: "(pstate, 'a) prog \<Rightarrow> (clstate, 'a) prog" where
  "on_pool m = (\<lambda>(cl, w). case m (cl_pool cl, w) of
      (r, (p, w')) \<Rightarrow> (r, (cl\<lparr>cl_pool := p\<rparr>, w')))"

text \<open>\<open>server_hostname or (tls.server_name if tls is not None else None) or None\<close>\<close>

definition client_hostname :: "pystr option \<Rightarrow> TLSConfig option \<Rightarrow> pystr option" where
  "client_hostname server_hostname tls =
     (let truthy = (\<lambda>x. if x = Some [] then None else x) in
      case truthy server_hostname of
        Some h \<Rightarrow> Some h
      | None \<Rightarrow> truthy (map_option server_name tls))"

definition client_context ::
  "(TLSConfig \<Rightarrow> SSLContext result) \<Rightarrow> TLSConfig option \<Rightarrow> SSLContext option \<Rightarrow> SSLContext option result"
where
  "client_context build tls ssl_context =
     (if tls \<noteq> None \<and> ssl_context \<noteq> None then Inl (Exc PyValueError)
      else case tls of
        Some cfg \<Rightarrow> sbind (build cfg) (\<lambda>c. Inr (Some c))
      | None \<Rightarrow> Inr ssl_context)"

definition Client_new ::
  "(TLSConfig \<Rightarrow> SSLContext result) \<Rightarrow> pystr \<Rightarrow> int \<Rightarrow> real option \<Rightarrow> real \<Rightarrow> pystr option \<Rightarrow>
   TLSConfig option \<Rightarrow> SSLContext option \<Rightarrow> pystr option \<Rightarrow> ReconnectPolicy option \<Rightarrow>
   (world, Client) prog" where
  "Client_new build address pool_size timeout connect_timeout token tls ssl_context server_hostname
     reconnect w =
   (case sbind (client_context build tls ssl_context) (\<lambda>context.
           sbind (ConnectionPool_new pool_size) (\<lambda>pool. Inr (context, pool))) of
      Inl e \<Rightarrow> (Raise e, w)
    | Inr (context, pool) \<Rightarrow>
        let template = Connection_new address token context (client_hostname server_hostname tls) connect_timeout;
            factory = Client_factory template;
            policy = (case reconnect of None \<Rightarrow> default_policy | Some p \<Rightarrow> p) in
        (case pbind (ConnectionPool_prefill factory) (\<lambda>_.
                pbind (pget (\<lambda>(p, w). now w)) (\<lambda>t.
                ConnectionPool_acquire factory (Deadline_new (Some connect_timeout) t)
                  (pget (\<lambda>(c, w). (cn_role c, cn_auth_required c))))) (pool, w) of
           (Return (role, auth), (p, w')) \<Rightarrow>
             (Return \<lparr>cl_timeout = timeout, cl_connect_timeout = connect_timeout, cl_reconnect = policy,
                cl_template = template, cl_pool = p, cl_server_role = role, cl_auth_required = auth\<rparr>, w')
         | (Raise e, (p, w')) \<Rightarrow> (Raise e, w')
         | (Blocked, (p, w')) \<Rightarrow> (Blocked, w')))"

definition Client_close :: "(clstate, unit) prog" where
  "Client_close = on_pool ConnectionPool_close"

section \<open>Calls\<close>

definition Client_deadline :: "timeout \<Rightarrow> (clstate, Deadline) prog" where
  "Client_deadline timeout = pget (\<lambda>(cl, w). Deadline_new
     (case timeout of DEFAULT \<Rightarrow> cl_timeout cl | Timeout v \<Rightarrow> v) (now w))"

definition Client_acquire :: "Deadline \<Rightarrow> (Client \<Rightarrow> (cstate, 'a) prog) \<Rightarrow> (clstate, 'a) prog" where
  "Client_acquire dl body = (\<lambda>(cl, w).
     on_pool (ConnectionPool_acquire (Client_factory (cl_template cl)) dl (body cl)) (cl, w))"

definition Client_execute :: "Command \<Rightarrow> (bytes \<Rightarrow> 'a result) \<Rightarrow> timeout \<Rightarrow> (clstate, 'a) prog" where
  "Client_execute command parse timeout = pbind (Client_deadline timeout) (\<lambda>dl.
     pbind (Client_acquire dl (\<lambda>cl. Client_with_retry (cl_reconnect cl) Connection_send command dl)) (\<lambda>payload.
     plift (parse payload)))"

text \<open>The arguments of a call are evaluated first: an encoder that raises stops it before anything else.\<close>

definition client_call :: "Command result \<Rightarrow> (bytes \<Rightarrow> 'a result) \<Rightarrow> timeout \<Rightarrow> (clstate, 'a) prog" where
  "client_call command parse timeout = pbind (plift command) (\<lambda>c. Client_execute c parse timeout)"

definition Client_incr :: "CappingKey \<Rightarrow> timeout \<Rightarrow> (clstate, int) prog" where
  "Client_incr k = client_call (incr k) parse_value"

definition Client_incrby :: "CappingKey \<Rightarrow> int \<Rightarrow> timeout \<Rightarrow> (clstate, int) prog" where
  "Client_incrby k value = client_call (incrby k value) parse_value"

definition Client_get :: "CappingKey \<Rightarrow> timeout \<Rightarrow> (clstate, int) prog" where
  "Client_get k = client_call (get k) parse_value"

definition Client_watch :: "CappingKey \<Rightarrow> timeout \<Rightarrow> (clstate, int) prog" where
  "Client_watch k = client_call (watch k) parse_value"

definition Client_delete :: "CappingKey \<Rightarrow> timeout \<Rightarrow> (clstate, bool) prog" where
  "Client_delete k = client_call (delete k) parse_bool"

definition Client_mdelete :: "CappingKey list \<Rightarrow> timeout \<Rightarrow> (clstate, bool list) prog" where
  "Client_mdelete ks = client_call (mdelete ks) parse_bools"

definition Client_rlimit_fixed_window :: "LimitKey \<Rightarrow> int \<Rightarrow> timeout \<Rightarrow> (clstate, RateLimitResult) prog" where
  "Client_rlimit_fixed_window k limit = client_call (rlimit_fixed_window k limit) parse_rate_limit"

definition Client_rlimit_sliding_window :: "LimitKey \<Rightarrow> int \<Rightarrow> timeout \<Rightarrow> (clstate, RateLimitResult) prog" where
  "Client_rlimit_sliding_window k limit = client_call (rlimit_sliding_window k limit) parse_rate_limit"

definition Client_rlimit_token_bucket ::
  "LimitKey \<Rightarrow> int \<Rightarrow> int \<Rightarrow> timeout \<Rightarrow> (clstate, RateLimitResult) prog" where
  "Client_rlimit_token_bucket k capacity refill_amount =
     client_call (rlimit_token_bucket k capacity refill_amount) parse_rate_limit"

definition Client_quota_set :: "pystr \<Rightarrow> int \<Rightarrow> timeout \<Rightarrow> (clstate, bool) prog" where
  "Client_quota_set name limit = client_call (quota_set name limit) parse_bool"

definition Client_quota_set_n :: "pystr \<Rightarrow> int \<Rightarrow> int \<Rightarrow> timeout \<Rightarrow> (clstate, bool) prog" where
  "Client_quota_set_n name limit clients = client_call (quota_set_n name limit clients) parse_bool"

definition Client_quota_acquire ::
  "pystr \<Rightarrow> int \<Rightarrow> pystr \<Rightarrow> int option \<Rightarrow> timeout \<Rightarrow> (clstate, QuotaAcquireResult) prog" where
  "Client_quota_acquire name amount client_id ttl =
     client_call (quota_acquire name amount client_id ttl) parse_quota_acquire"

definition Client_quota_acquire_n ::
  "pystr \<Rightarrow> pystr \<Rightarrow> int option \<Rightarrow> timeout \<Rightarrow> (clstate, QuotaAcquireResult) prog" where
  "Client_quota_acquire_n name client_id ttl =
     client_call (quota_acquire_n name client_id ttl) parse_quota_acquire"

definition Client_quota_acquire_lease ::
  "pystr \<Rightarrow> int \<Rightarrow> int \<Rightarrow> pystr \<Rightarrow> int option \<Rightarrow> timeout \<Rightarrow> (clstate, QuotaAcquireResult) prog" where
  "Client_quota_acquire_lease name limit amount client_id ttl =
     client_call (quota_acquire_lease name limit amount client_id ttl) parse_quota_acquire"

definition Client_quota_release :: "pystr \<Rightarrow> pystr \<Rightarrow> timeout \<Rightarrow> (clstate, bool) prog" where
  "Client_quota_release name client_id = client_call (quota_release name client_id) parse_bool"

definition Client_quota_delete :: "pystr \<Rightarrow> timeout \<Rightarrow> (clstate, bool) prog" where
  "Client_quota_delete name = client_call (quota_delete name) parse_bool"

definition Client_quota_info :: "pystr \<Rightarrow> timeout \<Rightarrow> (clstate, QuotaInfo) prog" where
  "Client_quota_info name = client_call (quota_info name) parse_quota_info"

definition Client_scan :: "int \<Rightarrow> pystr \<Rightarrow> timeout \<Rightarrow> (clstate, ScanResult) prog" where
  "Client_scan count cursor = client_call (scan count cursor) parse_scan"

definition Client_pscan :: "pystr \<Rightarrow> int \<Rightarrow> pystr \<Rightarrow> timeout \<Rightarrow> (clstate, ScanResult) prog" where
  "Client_pscan pfx count cursor = client_call (pscan pfx count cursor) parse_scan"

definition Client_flushdb :: "timeout \<Rightarrow> (clstate, bool) prog" where
  "Client_flushdb = client_call flushdb parse_bool"

definition Client_truncate :: "timeout \<Rightarrow> (clstate, bool) prog" where
  "Client_truncate = client_call truncate_cmd parse_bool"

text \<open>\<open>inspect\<close> encodes inside the \<open>with\<close> block and reads a split answer.\<close>

definition Client_inspect ::
  "(bytes \<Rightarrow> 'report result) \<Rightarrow> InspectSection \<Rightarrow> timeout \<Rightarrow> (clstate, 'report) prog" where
  "Client_inspect parse_inspect section timeout = pbind (Client_deadline timeout) (\<lambda>dl.
     pbind (Client_acquire dl (\<lambda>cl. pbind (plift (inspect section)) (\<lambda>command.
       Client_with_retry (cl_reconnect cl) Connection_send_chunked command dl))) (\<lambda>payload.
     plift (parse_inspect payload)))"

end
