(* ===== verification/PoolCalls.thy ===== *)
theory PoolCalls
  imports Pool
begin

text \<open>
  What a call on a pooled connection puts on the wire, for both pools: entering the pool may dial and
  greet a server, releasing sends nothing, and in between the body runs once. The locale
  \<open>dialing_pool\<close> extends \<open>slot_pool\<close> by these two laws; its theorem is that a mutating command reaches
  the server at most once whichever connection the pool hands out.
\<close>

definition greeted :: "world \<Rightarrow> world \<Rightarrow> bool" where
  "greeted w v \<longleftrightarrow> sends v = sends w \<or>
     (\<exists>h frame rest. sends v = sends w @ [h] \<and> prefix h frame \<and> encode_frame (CHR ''H'' # rest) = Inr frame)"

lemma greeted_greets: "greeted w v \<longleftrightarrow> greets (c, w) (c', v)"
  by (simp add: greeted_def greets_def)

lemma greeted_count:
  "greeted w v \<Longrightarrow> client_command c \<Longrightarrow> delivered c (x, v) = delivered c (y, w)"
  using delivered_greets [of "(y, w)" "(x, v)" c] by (simp add: greeted_greets [of w v y x])

text \<open>\<open>fresh\<close>: the connections the pool opens start closed.\<close>

locale dialing_pool = slot_pool +
  fixes fresh :: bool
  assumes enter_greets: "fresh \<Longrightarrow> enter dl (p, w) = (r, (q, v)) \<Longrightarrow> greeted w v"
    and release_sends: "release c (p, w) = (z, (q, v)) \<Longrightarrow> sends v = sends w"
begin

text \<open>The two ways through \<open>acquire\<close>: it was never entered, or the body ran once.\<close>

lemma bracket_runs_body:
  assumes "bracket (enter dl) release (\<lambda>c. run_body c body) (p, w) = (r, (q, v))"
    and fresh and "r \<noteq> Blocked" and "pool_ready p"
  shows "(greeted w v \<and> (\<exists>e. r = Raise e)) \<or>
    (\<exists>c u c' u'. greeted w u \<and> body (c, u) = (r, (c', u')) \<and> sends v = sends u')"
proof -
  obtain a p1 w1 where e: "enter dl (p, w) = (a, (p1, w1))" by (metis prod.exhaust)
  note g = enter_greets [OF assms(2) e]
  show ?thesis
  proof (cases a)
    case (Return c)
    obtain b c' w2 where b: "body (c, w1) = (b, (c', w2))" by (metis prod.exhaust)
    obtain z p3 w3 where rel: "release c' (p1, w2) = (z, (p3, w3))" by (metis prod.exhaust)
    have "z = Return ()"
      using release_home [OF assms(4) _ rel] enter_lends [OF assms(4)] e Return by blast
    then have "b = r \<and> v = w3"
      using assms(1,3) e Return b rel
      by (cases b) (auto simp: bracket_def run_body_def pbind_def pret_def praise_def)
    then show ?thesis using g b release_sends [OF rel] by blast
  qed (use assms(1,3) e g in \<open>auto simp: bracket_def pbind_def\<close>)
qed

lemma bracket_at_most_once:
  assumes "bracket (enter dl) release (\<lambda>c. run_body c body) (p, w) = (r, (q, v))"
    and fresh and "r \<noteq> Blocked" and "pool_ready p" and "client_command command"
    and "\<And>s t b. body s = (b, t) \<Longrightarrow> b \<noteq> Blocked \<Longrightarrow> delivered command t \<le> delivered command s + 1 \<and>
      (\<forall>x. b = Return x \<longrightarrow> delivered command t = delivered command s + 1)"
  shows "delivered command (c, v) \<le> delivered command (c, w) + 1 \<and>
    (\<forall>x. r = Return x \<longrightarrow> delivered command (c, v) = delivered command (c, w) + 1)"
  using bracket_runs_body [OF assms(1-4)]
proof (elim disjE exE conjE)
  fix e assume "greeted w v" "r = Raise e"
  with greeted_count [OF _ assms(5), of w v c c] show ?thesis by simp
next
  fix c1 u c' u' assume g: "greeted w u" and b: "body (c1, u) = (r, (c', u'))" and s: "sends v = sends u'"
  have any: "delivered command (c1, x) = delivered command (c, x)"
    "delivered command (c', u') = delivered command (c, v)" for x
    using s by (simp_all add: delivered_def split: sum.split)
  from assms(6) [OF b assms(3)] greeted_count [OF g assms(5), of c c] show ?thesis by (simp add: any)
qed

end

end
