(* ===== verification/ClientFacts.thy ===== *)
theory ClientFacts
  imports Client PoolCalls
begin

text \<open>
  What the client promises: the pool is ready from the constructor on and after every call, a call
  returns the decoded answer to its own request, and a mutating request is delivered at most once,
  all retries, reconnects and freshly opened connections included.
\<close>

section \<open>The pool stays ready\<close>

lemma factory_opens: "Client_factory template w = (Return c, v) \<Longrightarrow> cn_sock template = None \<Longrightarrow>
    \<not> Connection_closed c \<and> \<not> cn_request_in_flight c"
  by (auto simp: Client_factory_def Connection_closed_def split: prod.splits outcome.splits
      dest: sync_conn.connect_outcome)

lemma prefill_full:
  assumes "ConnectionPool_new n = Inr p"
    and "ConnectionPool_prefill (Client_factory template) (p, w) = (Return (), (q, v))"
    and "cn_sock template = None"
  shows "pool_full n q"
proof -
  have p: "0 < n" "pl_size p = n" "\<not> pl_closed p"
    using assms(1) by (auto simp: ConnectionPool_new_def split: if_splits)
  have q: "int (length (pl_slots q)) = n" "same_frame p q"
    "\<forall>x \<in> set (pl_slots q). \<exists>c u u'. x = Some c \<and> Client_factory template u = (Return c, u')"
    using prefill_outcome [OF assms(1,2)] by simp_all
  have "list_all slot_idle (pl_slots q)"
    using q(3) factory_opens [OF _ assms(3)] by (fastforce simp: list_all_iff slot_idle_def)
  then show ?thesis using p q by (auto simp: pool_full_def same_frame_def)
qed

text \<open>Looking at a pooled connection: it is taken and put back.\<close>

lemma acquire_peek:
  assumes "pool_full n q"
  shows "ConnectionPool_acquire factory dl (pget f) (q, v) = (Return (f (the (hd (pl_slots q)), v)), (q, v))"
proof -
  obtain c rest where c: "pl_slots q = Some c # rest" "\<not> Connection_closed c"
    using pool_full_top [OF assms] .
  have q: "pool_ready q" "\<not> pl_closed q" "int (length rest) < pl_size q"
    using assms c(1) pool_full_ready by (auto simp: pool_full_def)
  have "ConnectionPool_enter factory dl (q, v) = (Return c, (q\<lparr>pl_slots := rest\<rparr>, v))"
    using q c by (simp add: ConnectionPool_enter_def ConnectionPool_take_def slot_get_def
        pbind_def pget_def pret_def pwrap_def pcatch_def)
  moreover have "ConnectionPool_release c (q\<lparr>pl_slots := rest\<rparr>, v) = (Return (), (q, v))"
    using q c by (simp add: ConnectionPool_release_def slot_put_def pbind_def pget_def)
  ultimately show ?thesis
    using c(1) by (simp add: ConnectionPool_acquire_def bracket_def run_body_def pbind_def pret_def pget_def)
qed

lemma on_pool_run:
  "on_pool m (cl, w) = (r, (cl', w')) \<Longrightarrow>
     m (cl_pool cl, w) = (r, (cl_pool cl', w')) \<and> cl' = cl\<lparr>cl_pool := cl_pool cl'\<rparr>"
  by (auto simp: on_pool_def split: prod.splits)

lemma acquire_home:
  assumes "pool_ready (cl_pool cl)" and "Client_acquire dl body (cl, w) = (r, (cl', w'))" and "r \<noteq> Blocked"
  shows "home (cl_pool cl) (cl_pool cl') \<and> cl' = cl\<lparr>cl_pool := cl_pool cl'\<rparr>"
proof -
  from on_pool_run assms(2) have run:
    "ConnectionPool_acquire (Client_factory (cl_template cl)) dl (body cl) (cl_pool cl, w) = (r, (cl_pool cl', w'))"
    and "cl' = cl\<lparr>cl_pool := cl_pool cl'\<rparr>"
    unfolding Client_acquire_def by (simp_all add: case_prod_unfold) blast+
  with sync_pool.bracket_home [OF assms(1) run [unfolded ConnectionPool_acquire_def] assms(3)] show ?thesis by simp
qed

lemma home_refl_call:
  assumes "pool_ready (cl_pool cl)" and "client_call command parse timeout (cl, w) = (r, (cl', w'))"
    and "r \<noteq> Blocked"
  shows "home (cl_pool cl) (cl_pool cl') \<and> cl' = cl\<lparr>cl_pool := cl_pool cl'\<rparr>"
proof (cases command)
  case (Inl e)
  then show ?thesis
    using assms pool_ready_home by (simp add: client_call_def pbind_def)
next
  case (Inr c)
  obtain dl where dl: "Client_deadline timeout (cl, w) = (Return dl, (cl, w))"
    by (simp add: Client_deadline_def pget_def)
  let ?body = "\<lambda>cl. Client_with_retry (cl_reconnect cl) Connection_send c dl"
  obtain q cl1 w1 where q: "Client_acquire dl ?body (cl, w) = (q, (cl1, w1))" by (metis prod.exhaust)
  have "cl' = cl1 \<and> (q = Blocked \<longrightarrow> r = Blocked)"
    using assms(2) Inr dl q
    by (cases q) (auto simp: client_call_def Client_execute_def pbind_def plift_def split: sum.splits)
  then show ?thesis using acquire_home [OF assms(1) q] assms(3) by auto
qed

text \<open>
  C3. The client's invariant: when the constructor returns, the pool is open and full: each of its
  \<open>pool_size\<close> slots holds a connection that is open and has no request under way. And every call on a
  ready pool, whatever its command and however it ends, leaves the pool ready, with as many slots as
  before, changes no other attribute of the client, and touches only the slot on top. A client
  therefore never runs out of connections by failing calls.
\<close>

theorem client_pool_invariant:
  "(Client_new build address n timeout connect_timeout token tls ctx hostname policy w = (Return cl, v) \<longrightarrow>
      pool_full n (cl_pool cl)) \<and>
   (pool_ready (cl_pool cl) \<and> client_call command parse t (cl, u) = (r, (cl', u')) \<and> r \<noteq> Blocked \<longrightarrow>
      home (cl_pool cl) (cl_pool cl') \<and> pool_ready (cl_pool cl') \<and> cl' = cl\<lparr>cl_pool := cl_pool cl'\<rparr> \<and>
      length (pl_slots (cl_pool cl')) = length (pl_slots (cl_pool cl)))"
proof (intro conjI impI)
  assume new: "Client_new build address n timeout connect_timeout token tls ctx hostname policy w = (Return cl, v)"
  then obtain sslc p where c: "client_context build tls ctx = Inr sslc" "ConnectionPool_new n = Inr p"
    by (auto simp: Client_new_def sbind_eq_Inr sbind_eq_Inl split: sum.splits)
  let ?template = "Connection_new address token sslc (client_hostname hostname tls) connect_timeout"
  let ?acquire = "\<lambda>t. ConnectionPool_acquire (Client_factory ?template) (Deadline_new (Some connect_timeout) t)
    (pget (\<lambda>(c, w). (cn_role c, cn_auth_required c)))"
  have closed: "cn_sock ?template = None" by (simp add: Connection_new_def)
  from new c obtain q x y v' where run: "ConnectionPool_prefill (Client_factory ?template) (p, w) = (Return (), (q, x))"
    and acq: "?acquire (now x) (q, x) = (Return y, (cl_pool cl, v'))"
    by (auto simp: Client_new_def Let_def pbind_def pget_def split: prod.splits outcome.splits)
  have q: "pool_full n q" by (rule prefill_full [OF c(2) run closed])
  from acq have "cl_pool cl = q" by (simp add: acquire_peek [OF q])
  with q show "pool_full n (cl_pool cl)" by simp
next
  assume a: "pool_ready (cl_pool cl) \<and> client_call command parse t (cl, u) = (r, (cl', u')) \<and> r \<noteq> Blocked"
  then have out: "home (cl_pool cl) (cl_pool cl')" "cl' = cl\<lparr>cl_pool := cl_pool cl'\<rparr>"
    using home_refl_call [of cl command parse t u r cl' u'] by blast+
  from out show "home (cl_pool cl) (cl_pool cl')" "cl' = cl\<lparr>cl_pool := cl_pool cl'\<rparr>" .
  show "pool_ready (cl_pool cl')" using home_ready [OF _ out(1)] a by simp
  show "length (pl_slots (cl_pool cl')) = length (pl_slots (cl_pool cl))" by (rule home_length [OF out(1)])
qed

section \<open>What a call puts on the wire\<close>

lemma factory_greets:
  "Client_factory template w = (r, v) \<Longrightarrow> cn_sock template = None \<Longrightarrow> greeted w v"
  by (auto simp: Client_factory_def greeted_def greets_def split: prod.splits outcome.splits
      dest!: sync_conn.connect_outcome)

lemma take_sends: "ConnectionPool_take dl (p, w) = (r, (q, v)) \<Longrightarrow> sends v = sends w"
  by (auto simp: ConnectionPool_take_def prog_defs slot_get_def
      split: prod.splits outcome.splits list.splits option.splits)

lemma put_sends: "slot_put x (p, w) = (r, (q, v)) \<Longrightarrow> v = w"
  by (auto simp: slot_put_def split: if_splits)

lemma enter_greets:
  assumes "ConnectionPool_enter (Client_factory template) dl (p, w) = (r, (q, v))" and "cn_sock template = None"
  shows "greeted w v"
proof -
  obtain a p1 w1 where t: "ConnectionPool_take dl (p, w) = (a, (p1, w1))" by (metis prod.exhaust)
  obtain f w2 where f: "Client_factory template w1 = (f, w2)" by (cases "Client_factory template w1")
  have "greeted w1 w2" "sends w1 = sends w" using factory_greets [OF f assms(2)] take_sends [OF t] .
  moreover have "v \<in> {w, w1, w2}"
    using assms(1) t f
    by (auto simp: ConnectionPool_enter_def pbind_def pget_def praise_def pret_def pcatch_def on_pool_world_def
        dest: put_sends split: prod.splits outcome.splits option.splits if_splits)
  ultimately show ?thesis by (auto simp: greeted_def)
qed

lemma release_sends: "ConnectionPool_release c (p, w) = (r, (q, v)) \<Longrightarrow> sends v = sends w"
  by (auto simp: ConnectionPool_release_def pbind_def pget_def on_pool_world_def close_world_def
      Connection_close_def dest: put_sends split: prod.splits option.splits if_splits)

interpretation sync_calls: dialing_pool "ConnectionPool_enter (Client_factory template)" ConnectionPool_release
  "cn_sock template = None" for template
  by unfold_locales (erule (1) enter_greets [rotated], erule release_sends)

lemma with_retry_delivers:
  assumes "client_command command" and "\<not> read_only command"
    and "Client_with_retry p Connection_send command dl s = (r, t)" and "r \<noteq> Blocked"
  shows "delivered command t \<le> delivered command s + 1 \<and>
    (\<forall>x. r = Return x \<longrightarrow> delivered command t = delivered command s + 1)"
proof -
  have "with_retry p Connection_send command dl s = Some (r, t)"
    using assms(3,4) by (auto simp: Client_with_retry_def split: option.splits)
  then show ?thesis
    using plain.at_most_once [OF assms(1), of _ dl p 0 s r t] assms(2) by (auto simp: with_retry_def)
qed

text \<open>
  C1. A mutating request is executed at most once, end to end: whatever the pool hands out (a reused
  connection or one opened for this call), whatever the network does and however often the call
  reconnects and tries again, its frame is handed over complete at most once, and exactly once when
  the call returns a result.
\<close>

theorem client_call_at_most_once:
  assumes "encode_request q = Inr command" and "\<forall>token. q \<noteq> Hello token" and "\<not> request_read_only q"
    and "pool_ready (cl_pool cl)" and "cn_sock (cl_template cl) = None"
    and "client_call (encode_request q) parse timeout (cl, w) = (r, (cl', v))" and "r \<noteq> Blocked"
    and "encode_frame (payload command) = Inr frame"
  shows "count_list (sends v) frame \<le> count_list (sends w) frame + 1 \<and>
    (\<forall>x. r = Return x \<longrightarrow> count_list (sends v) frame = count_list (sends w) frame + 1)"
proof -
  have client: "client_command command" using assms(1,2) by (blast intro: encode_request_client)
  have mutating: "\<not> read_only command" using assms(1,3) by (auto simp: encode_request_eq sbind_eq_Inr)
  have count: "delivered command (c, u) = count_list (sends u) frame" for c u
    using assms(8) by (simp add: delivered_def)
  obtain dl where dl: "Client_deadline timeout (cl, w) = (Return dl, (cl, w))"
    by (simp add: Client_deadline_def pget_def)
  let ?body = "Client_with_retry (cl_reconnect cl) Connection_send command dl"
  obtain a p1 w1 where run: "ConnectionPool_acquire (Client_factory (cl_template cl)) dl ?body (cl_pool cl, w) = (a, (p1, w1))"
    by (metis prod.exhaust)
  have out: "v = w1" "a \<noteq> Blocked" "\<And>x. r = Return x \<Longrightarrow> \<exists>y. a = Return y"
    using assms(1,6,7) dl run
    by (cases a; auto simp: client_call_def Client_execute_def Client_acquire_def on_pool_def pbind_def
        plift_def split: sum.splits)+
  have "delivered command (undefined, w1) \<le> delivered command (undefined, w) + 1 \<and>
    (\<forall>x. a = Return x \<longrightarrow> delivered command (undefined, w1) = delivered command (undefined, w) + 1)"
    using sync_calls.bracket_at_most_once [OF run [unfolded ConnectionPool_acquire_def] assms(5) out(2) assms(4) client]
      with_retry_delivers [OF client mutating] by blast
  with out show ?thesis by (auto simp: count)
qed

section \<open>What a call returns\<close>

lemma with_retry_first: "Connection_send c dl s = (Return x, t) \<Longrightarrow> Client_with_retry p Connection_send c dl s = (Return x, t)"
  by (simp add: Client_with_retry_def with_retry_def retry_loop.simps retry_step_def)

lemma call_answer:
  assumes "encode_request q = Inr command" and "pool_ready (cl_pool cl)"
    and "pl_slots (cl_pool cl) = Some c # others"
    and "Client_deadline timeout (cl, w) = (Return dl, (cl, w))"
    and "can_send command dl (c, w)" and "framed [answer] (cn_max_message_size c)"
    and "incoming (c, w) = wire [answer] @ rest"
  shows "\<exists>c' v. client_call (encode_request q) parse timeout (cl, w) =
      (case parse answer of Inl e \<Rightarrow> Raise e | Inr x \<Rightarrow> Return x, (cl\<lparr>cl_pool := (cl_pool cl)\<lparr>pl_slots := Some c' # others\<rparr>\<rparr>, v)) \<and>
    incoming (c', v) = rest \<and> sends v = sends w @ [wire [payload command]] \<and> readable dl (c', v) \<and>
    \<not> cn_request_in_flight c'"
proof -
  from sync_conn.send_stream [OF assms(5) can_send_readable [OF assms(5)] _ assms(7)] assms(6) obtain t where
    t: "Connection_send command dl (c, w) = (Return answer, t)" "incoming t = rest"
      "sends (snd t) = sends w @ [wire [payload command]]" "readable dl t" "\<not> cn_request_in_flight (fst t)"
    by auto
  obtain c' v where "t = (c', v)" by (cases t)
  with t have send: "Connection_send command dl (c, w) = (Return answer, (c', v))" and
    after: "incoming (c', v) = rest" "sends v = sends w @ [wire [payload command]]" "readable dl (c', v)"
      "\<not> cn_request_in_flight c'"
    by simp_all
  note retry = with_retry_first [OF send, of "cl_reconnect cl"]
  have open': "\<not> Connection_closed c'"
    using after(3) by (auto simp: readable_def Connection_closed_def split: option.splits)
  have pool: "\<not> pl_closed (cl_pool cl)" "int (length others) < pl_size (cl_pool cl)"
    using assms(2,3) by (auto simp: pool_ready_def)
  have "ConnectionPool_take dl (cl_pool cl, w) = (Return (Some c), ((cl_pool cl)\<lparr>pl_slots := others\<rparr>, w))"
    using assms(3) by (simp add: ConnectionPool_take_def slot_get_def prog_defs)
  then have "ConnectionPool_acquire (Client_factory (cl_template cl)) dl
      (Client_with_retry (cl_reconnect cl) Connection_send command dl) (cl_pool cl, w) =
      (Return answer, ((cl_pool cl)\<lparr>pl_slots := Some c' # others\<rparr>, v))"
    using pool retry open'
    by (simp add: ConnectionPool_acquire_def bracket_def ConnectionPool_enter_def run_body_def
        ConnectionPool_release_def slot_put_def pbind_def pget_def pret_def)
  then show ?thesis
    using assms(1,4) after
    by (intro exI [of _ c'] exI [of _ v])
       (simp add: client_call_def Client_execute_def Client_acquire_def on_pool_def pbind_def plift_def split: sum.split)
qed

text \<open>
  C2. End to end: when the pool's top slot holds a connection that can carry the call, a request
  returns the decoding of the answer the server sent to it, after handing over exactly one frame, the
  encoded request, on that connection; the connection goes back on top with its stream right after
  the answer, ready for the next call.
\<close>

theorem call_returns_decoded_answer:
  assumes "encode_request q = Inr command" and "pool_ready (cl_pool cl)"
    and "pl_slots (cl_pool cl) = Some c # others"
    and "Client_deadline timeout (cl, w) = (Return dl, (cl, w))"
    and "can_send command dl (c, w)" and "framed [answer] (cn_max_message_size c)"
    and "incoming (c, w) = wire [answer] @ rest" and "parse answer = Inr x"
  shows "\<exists>c' v. client_call (encode_request q) parse timeout (cl, w) =
      (Return x, (cl\<lparr>cl_pool := (cl_pool cl)\<lparr>pl_slots := Some c' # others\<rparr>\<rparr>, v)) \<and>
    incoming (c', v) = rest \<and> sends v = sends w @ [wire [payload command]] \<and> readable dl (c', v) \<and>
    \<not> cn_request_in_flight c'"
  using call_answer [OF assms(1-7), of parse] assms(8) by simp

lemma acquire_ends:
  assumes "pool_ready p" and "\<And>u. fst (factory u) \<noteq> Blocked" and "\<And>s. fst (body s) \<noteq> Blocked"
  shows "fst (ConnectionPool_acquire factory dl body (p, w)) \<noteq> Blocked"
proof -
  have slots: "pl_slots p \<noteq> []" "\<not> pl_closed p" using assms(1) by (simp_all add: pool_ready_def)
  obtain r p1 w1 where t: "ConnectionPool_take dl (p, w) = (r, (p1, w1))" by (metis prod.exhaust)
  note got = take_ready [OF t slots(1)]
  obtain u p3 w3 where put: "slot_put None (p1, snd (factory w1)) = (u, (p3, w3))" by (metis prod.exhaust)
  have "u = Return ()" using put_home [OF assms(1) _ _ put] got by (simp add: slot_live_def)
  then have ent: "fst (ConnectionPool_enter factory dl (p, w)) \<noteq> Blocked"
    using t got slots put assms(2) [of w1]
    by (auto simp: ConnectionPool_enter_def pbind_def pget_def pret_def pcatch_def praise_def on_pool_world_def
        split: option.split outcome.split prod.split)
  obtain a p2 w2 where a: "ConnectionPool_enter factory dl (p, w) = (a, (p2, w2))" by (metis prod.exhaust)
  show ?thesis
  proof (cases a)
    case (Return c)
    obtain b c' w3 where b: "body (c, w2) = (b, (c', w3))" by (metis prod.exhaust)
    obtain z p4 w4 where rel: "ConnectionPool_release c' (p2, w3) = (z, (p4, w4))" by (metis prod.exhaust)
    have "z = Return ()"
      using sync_pool.release_home [OF assms(1) _ rel] sync_pool.enter_lends [OF assms(1)] a Return by blast
    then show ?thesis
      using a Return b rel assms(3) [of "(c, w2)"]
      by (cases b) (auto simp: ConnectionPool_acquire_def bracket_def run_body_def pbind_def pret_def praise_def)
  qed (use a ent in \<open>auto simp: ConnectionPool_acquire_def bracket_def pbind_def\<close>)
qed

text \<open>
  C8. Every call with a timeout comes back: on a ready pool, with a timeout and with a policy whose
  attempts are limited or whose delays grow, a call ends with a result or an exception, whatever the
  network does.
\<close>

theorem client_call_comes_back:
  assumes "pool_ready (cl_pool cl)" and "cn_sock (cl_template cl) = None"
    and "timeout = Timeout (Some d) \<or> timeout = DEFAULT \<and> cl_timeout cl = Some d"
    and "rp_max_attempts (cl_reconnect cl) = Some m \<or> 1 < rp_multiplier (cl_reconnect cl)"
  shows "fst (client_call command parse timeout (cl, w)) \<noteq> Blocked"
proof (cases command)
  case (Inr c)
  obtain dl where dl: "Client_deadline timeout (cl, w) = (Return dl, (cl, w))" "dl_at dl \<noteq> None"
    using assms(3) by (auto simp: Client_deadline_def pget_def Deadline_new_def)
  have body: "fst (Client_with_retry (cl_reconnect cl) Connection_send c dl s) \<noteq> Blocked" for s
    using with_retry_returns [OF assms(4) dl(2), of Connection_send c s]
    by (auto simp: Client_with_retry_def)
  have factory: "fst (Client_factory (cl_template cl) u) \<noteq> Blocked" for u
    using unblockedD [OF sync_conn.connect_back TrueI, of "(cl_template cl, u)"]
    by (cases "Connection_connect (cl_template cl, u)")
       (auto simp: Client_factory_def split: outcome.split)
  obtain a p1 w1 where a: "ConnectionPool_acquire (Client_factory (cl_template cl)) dl
      (Client_with_retry (cl_reconnect cl) Connection_send c dl) (cl_pool cl, w) = (a, (p1, w1))"
    by (metis prod.exhaust)
  moreover have "fst (ConnectionPool_acquire (Client_factory (cl_template cl)) dl
      (Client_with_retry (cl_reconnect cl) Connection_send c dl) (cl_pool cl, w)) \<noteq> Blocked"
    by (rule acquire_ends [OF assms(1)]) (rule factory, rule body)
  ultimately have "fst (Client_acquire dl (\<lambda>cl. Client_with_retry (cl_reconnect cl) Connection_send c dl) (cl, w)) \<noteq> Blocked"
    by (simp add: Client_acquire_def on_pool_def split: prod.split)
  then show ?thesis
    using Inr dl(1)
    by (auto simp: client_call_def Client_execute_def pbind_def plift_def split: prod.split outcome.split sum.split)
qed (simp add: client_call_def pbind_def)

section \<open>Concrete instances\<close>

definition sample_client :: "connection option list \<Rightarrow> Client" where
  "sample_client slots = \<lparr>cl_timeout = Some 5, cl_connect_timeout = 5, cl_reconnect = default_policy,
     cl_template = sample_closed, cl_pool = sample_pool slots, cl_server_role = [],
     cl_auth_required = False\<rparr>"

text \<open>A client with one usable connection, on which two answers are about to arrive.\<close>

definition sample_ready :: Client where
  "sample_ready = sample_client [Some (sample_connection (sample_sock (sample_answers 1) []))]"

lemma sample_ready_pool: "pool_ready (cl_pool sample_ready)"
  by (simp add: sample_ready_def sample_client_def sample_pool_def pool_ready_def slot_live_def
      Connection_closed_def sample_defs)

lemma sample_deadline:
  "Client_deadline DEFAULT (sample_ready, sample_world []) = (Return \<lparr>dl_at = Some 5\<rparr>, (sample_ready, sample_world []))"
  by (simp add: Client_deadline_def pget_def sample_ready_def sample_client_def sample_world_def Deadline_new_def)

lemma sample_parse: "parse_value ''ok|7'' = Inr 7"
  by (simp add: parse_value_def answer_eval)

theorem call_returns_decoded_answer_witness:
  "\<exists>s. Client_incr sample_key DEFAULT (sample_ready, sample_world []) = (Return 7, s)"
proof -
  let ?c = "sample_connection (sample_sock (sample_answers 1) [])"
  have "pl_slots (cl_pool sample_ready) = Some ?c # []"
    by (simp add: sample_ready_def sample_client_def sample_pool_def)
  moreover have "can_send sample_command \<lparr>dl_at = Some 5\<rparr> (?c, sample_world [])"
    "framed [''ok|7''] (cn_max_message_size ?c)"
    "incoming (?c, sample_world []) = wire [''ok|7''] @ map byte_of [0, 0, 0, 4] @ ''ok|8''"
    by (simp_all add: sample_call_eval)
  ultimately show ?thesis
    using call_returns_decoded_answer [OF sample_incr sample_ready_pool _ sample_deadline] sample_parse
    by (fastforce simp: Client_incr_def)
qed

theorem client_call_comes_back_witness:
  "fst (Client_incr sample_key DEFAULT (sample_ready, sample_world [])) \<noteq> Blocked"
  unfolding Client_incr_def
  by (rule client_call_comes_back [where d = 5 and m = 0, OF sample_ready_pool])
     (simp_all add: sample_ready_def sample_client_def sample_closed_def Connection_new_def default_policy_def)

lemma sample_call:
  "\<exists>v. Client_incr sample_key DEFAULT (sample_client [None], sample_world [Accepted 0 (TlsOk 0)
     (sample_server (sample_answers 1))]) = (Return 7, v)"
  by (simp add: Client_incr_def client_call_def sample_incr [simplified] Client_execute_def Client_deadline_def
      Client_acquire_def on_pool_def ConnectionPool_acquire_def bracket_def ConnectionPool_enter_def
      ConnectionPool_take_def slot_get_def on_pool_world_def Client_factory_def run_body_def
      ConnectionPool_release_def slot_put_def Client_with_retry_def with_retry_def retry_loop.simps
      retry_step_def sample_client_def sample_pool_def sample_eval sample_command_def sample_answers_def
      sample_parse Connection_closed_def)

lemma sample_construction:
  "\<exists>cl v. Client_new (\<lambda>cfg. Inl (Exc PyOSError)) (ustr ''fq:1'') 1 (Some 5) 5 None None None None None
      (sample_world [Accepted 0 (TlsOk 0) (sample_server [])]) = (Return cl, v)"
  by (simp add: Client_new_def client_context_def client_hostname_def ConnectionPool_new_def Let_def
      ConnectionPool_prefill_def slot_get_nowait_def
      ConnectionPool_acquire_def bracket_def ConnectionPool_enter_def
      ConnectionPool_take_def slot_get_def on_pool_world_def Client_factory_def run_body_def
      ConnectionPool_release_def slot_put_def sample_eval Connection_closed_def)

theorem client_pool_invariant_witness:
  "\<exists>cl v. Client_new (\<lambda>cfg. Inl (Exc PyOSError)) (ustr ''fq:1'') 1 (Some 5) 5 None None None None None
      (sample_world [Accepted 0 (TlsOk 0) (sample_server [])]) = (Return cl, v) \<and>
    pool_full 1 (cl_pool cl) \<and>
    (\<exists>cl' v'. Client_incr sample_key DEFAULT (sample_client [None], sample_world [Accepted 0 (TlsOk 0)
       (sample_server (sample_answers 1))]) = (Return 7, (cl', v')) \<and> pool_ready (cl_pool cl'))"
proof -
  obtain cl v where new: "Client_new (\<lambda>cfg. Inl (Exc PyOSError)) (ustr ''fq:1'') 1 (Some 5) 5 None None None None None
      (sample_world [Accepted 0 (TlsOk 0) (sample_server [])]) = (Return cl, v)"
    using sample_construction by blast
  obtain cl' v' where call: "client_call (incr sample_key) parse_value DEFAULT (sample_client [None],
      sample_world [Accepted 0 (TlsOk 0) (sample_server (sample_answers 1))]) = (Return 7, (cl', v'))"
    using sample_call by (auto simp: Client_incr_def)
  have "pool_ready (cl_pool (sample_client [None]))"
    by (simp add: sample_client_def sample_pool_def pool_ready_def slot_live_def)
  then have "pool_ready (cl_pool cl')"
    using client_pool_invariant [of undefined undefined undefined undefined undefined undefined undefined
        undefined undefined undefined undefined "sample_client [None]" undefined] call by blast
  moreover have "pool_full 1 (cl_pool cl)"
    using client_pool_invariant new by blast
  ultimately show ?thesis using new call by (auto simp: Client_incr_def)
qed

theorem client_call_at_most_once_witness:
  "\<exists>cl v frame. Client_incr sample_key DEFAULT (sample_client [None], sample_world [Accepted 0 (TlsOk 0)
       (sample_server (sample_answers 1))]) = (Return 7, (cl, v)) \<and>
    encode_frame (payload sample_command) = Inr frame \<and> count_list (sends v) frame = 1"
proof -
  let ?w = "sample_world [Accepted 0 (TlsOk 0) (sample_server (sample_answers 1))]"
  obtain cl v where call: "client_call (encode_request (Incr sample_key)) parse_value DEFAULT
      (sample_client [None], ?w) = (Return 7, (cl, v))"
    using sample_call by (auto simp: Client_incr_def)
  obtain frame where frame: "encode_frame (payload sample_command) = Inr frame"
    by (simp add: sample_command_def encode_frame_def to_bytes4_def)
  have "pool_ready (cl_pool (sample_client [None]))" "cn_sock (cl_template (sample_client [None])) = None"
    by (simp_all add: sample_client_def sample_pool_def pool_ready_def slot_live_def sample_closed_def
        Connection_new_def)
  with client_call_at_most_once [OF sample_incr _ _ _ _ call _ frame]
  have "count_list (sends v) frame = 1" by (simp add: sends_def sample_world_def)
  with call frame show ?thesis by (auto simp: Client_incr_def)
qed

end
