(* ===== verification/Streams.thy ===== *)
theory Streams
  imports Retry
begin

text \<open>
  The loop of a stream (\<open>Client._stream\<close>, \<open>AsyncClient._iter_stream\<close>) as a machine over the operations
  it uses. A generator is run from one \<open>yield\<close> to the next; \<open>Opening n\<close> is the top of \<open>while True\<close> with
  \<open>attempt = n\<close>, \<open>Reading n\<close> is the inner \<open>for\<close> about to ask for a frame. One step is one operation of
  the connection, with the handler of its exception.
\<close>

datatype stream_mode = Opening nat | Reading nat

datatype 'a stream_event = Yields 'a | Stops

record ('s, 'a) stream_ops =
  op_stop :: "('s, bool) prog"
  op_open :: "('s, unit) prog"
  op_next :: "('s, bytes option) prog"
  op_parse :: "bytes \<Rightarrow> 'a result"
  op_exhausted :: "nat \<Rightarrow> bool"
  op_pause :: "nat \<Rightarrow> ('s, unit) prog"
  op_reconnect :: "('s, unit) prog"

text \<open>The \<open>except FQConnectionError\<close> block.\<close>

definition stream_recover ::
  "('s, 'a) stream_ops \<Rightarrow> nat \<Rightarrow> exc \<Rightarrow> 's \<Rightarrow> ('a stream_event outcome \<times> 's) + (stream_mode \<times> 's)" where
  "stream_recover ops attempt e s =
     (if \<not> catches FQConnectionError e then Inl (Raise e, s)
      else if op_exhausted ops (attempt + 1) then Inl (Raise e, s)
      else case op_pause ops (attempt + 1) s of
          (Raise e', s1) \<Rightarrow> Inl (Raise e', s1)
        | (Blocked, s1) \<Rightarrow> Inl (Blocked, s1)
        | (Return u, s1) \<Rightarrow> (case op_reconnect ops s1 of
              (Return u, s2) \<Rightarrow> Inr (Opening (attempt + 1), s2)
            | (Blocked, s2) \<Rightarrow> Inl (Blocked, s2)
            | (Raise e', s2) \<Rightarrow>
                if catches FQConnectionError e' then Inr (Opening (attempt + 1), s2)
                else Inl (Raise e', s2)))"

fun stream_step ::
  "('s, 'a) stream_ops \<Rightarrow> stream_mode \<Rightarrow> 's \<Rightarrow> ('a stream_event outcome \<times> 's) + (stream_mode \<times> 's)" where
  "stream_step ops (Opening n) s = (case op_stop ops s of
      (Raise e, s1) \<Rightarrow> Inl (Raise e, s1)
    | (Blocked, s1) \<Rightarrow> Inl (Blocked, s1)
    | (Return stop, s1) \<Rightarrow>
        if stop then Inl (Return Stops, s1)
        else case op_open ops s1 of
            (Return u, s2) \<Rightarrow> Inr (Reading n, s2)
          | (Raise e, s2) \<Rightarrow> stream_recover ops n e s2
          | (Blocked, s2) \<Rightarrow> Inl (Blocked, s2))"
| "stream_step ops (Reading n) s = (case op_next ops s of
      (Raise e, s1) \<Rightarrow> stream_recover ops n e s1
    | (Blocked, s1) \<Rightarrow> Inl (Blocked, s1)
    | (Return (Some frame), s1) \<Rightarrow> (case op_parse ops frame of
          Inr event \<Rightarrow> Inl (Return (Yields event), s1)
        | Inl e \<Rightarrow> stream_recover ops n e s1)
    | (Return None, s1) \<Rightarrow> (case op_stop ops s1 of
          (Return stop, s2) \<Rightarrow> if stop then Inl (Return Stops, s2) else Inr (Reading n, s2)
        | (Raise e, s2) \<Rightarrow> stream_recover ops n e s2
        | (Blocked, s2) \<Rightarrow> Inl (Blocked, s2)))"

text \<open>Running to the next \<open>yield\<close>, the end or an exception; \<open>None\<close> is going round for ever.\<close>

partial_function (option) stream_loop ::
  "('s, 'a) stream_ops \<Rightarrow> stream_mode \<Rightarrow> 's \<Rightarrow> ('a stream_event outcome \<times> 's) option" where
  "stream_loop ops mode s = (case stream_step ops mode s of
      Inl r \<Rightarrow> Some r
    | Inr (mode', s') \<Rightarrow> stream_loop ops mode' s')"

fun attempt_of :: "stream_mode \<Rightarrow> nat" where
  "attempt_of (Opening n) = n"
| "attempt_of (Reading n) = n"

section \<open>Running to the next event ends\<close>

text \<open>
  Without polling every step leads on: an opened stream yields, fails or stays blocked, and the
  number of failures in a row is bounded when the attempts are limited or pausing fails in the end.
\<close>

lemma recover_Inr:
  "stream_recover ops n e s = Inr (mode', s') \<Longrightarrow>
     mode' = Opening (n + 1) \<and> \<not> op_exhausted ops (n + 1) \<and> (\<exists>u. fst (op_pause ops (n + 1) u) = Return ())"
  by (auto simp: stream_recover_def split: if_splits prod.splits outcome.splits) (metis fst_conv)+

lemma step_mode:
  assumes "stream_step ops mode s = Inr (mode', s')" and "\<And>u. fst (op_next ops u) \<noteq> Return None"
  shows "(\<exists>n. mode = Opening n \<and> mode' = Reading n) \<or>
    (mode' = Opening (attempt_of mode + 1) \<and> \<not> op_exhausted ops (attempt_of mode + 1) \<and>
     (\<exists>u. fst (op_pause ops (attempt_of mode + 1) u) = Return ()))"
proof (cases mode)
  case (Opening n)
  with assms(1) show ?thesis
    by (auto split: prod.splits outcome.splits if_splits dest!: recover_Inr)
next
  case (Reading n)
  obtain r s1 where r: "op_next ops s = (r, s1)" by (cases "op_next ops s")
  have "r \<noteq> Return None" using assms(2) [of s] r by simp
  with assms(1) Reading r show ?thesis
    by (auto split: outcome.splits option.splits sum.splits dest!: recover_Inr)
qed

lemma stream_loop_ends:
  assumes "\<And>n. N \<le> n \<Longrightarrow> op_exhausted ops n \<or> (\<forall>u. fst (op_pause ops n u) \<noteq> Return ())"
    and "\<And>u. fst (op_next ops u) \<noteq> Return None"
  shows "\<exists>r. stream_loop ops mode s = Some r"
proof (induction "2 * (N - attempt_of mode) + (case mode of Opening n \<Rightarrow> 1 | Reading n \<Rightarrow> 0)"
    arbitrary: mode s rule: less_induct)
  case less
  show ?case
  proof (cases "stream_step ops mode s")
    case (Inl r)
    then show ?thesis by (subst stream_loop.simps) simp
  next
    case (Inr y)
    obtain mode' s' where y: "y = (mode', s')" by (cases y)
    from step_mode [OF Inr [unfolded y] assms(2)]
    have "2 * (N - attempt_of mode') + (case mode' of Opening n \<Rightarrow> 1 | Reading n \<Rightarrow> 0) <
        2 * (N - attempt_of mode) + (case mode of Opening n \<Rightarrow> 1 | Reading n \<Rightarrow> 0)"
    proof (elim disjE exE conjE)
      fix u assume m: "mode' = Opening (attempt_of mode + 1)" and "\<not> op_exhausted ops (attempt_of mode + 1)"
        "fst (op_pause ops (attempt_of mode + 1) u) = Return ()"
      then have "attempt_of mode + 1 < N" using assms(1) [of "attempt_of mode + 1"] by (metis not_le)
      with m show ?thesis by (auto split: stream_mode.split)
    qed simp
    from less [OF this, of s'] Inr y show ?thesis by (subst stream_loop.simps) simp
  qed
qed

text \<open>Induction on the steps: what every step keeps holds when the loop is left.\<close>

definition stream_passes ::
  "(stream_mode \<Rightarrow> 's \<Rightarrow> bool) \<Rightarrow> ('s, 'a) stream_ops \<Rightarrow> ('a stream_event outcome \<times> 's \<Rightarrow> bool) \<Rightarrow> bool" where
  "stream_passes I ops Q \<longleftrightarrow>
     (\<forall>mode s. I mode s \<longrightarrow> (case stream_step ops mode s of Inl y \<Rightarrow> Q y | Inr (m, t) \<Rightarrow> I m t))"

lemma stream_passes_Inl: "stream_passes I ops Q \<Longrightarrow> I m s \<Longrightarrow> stream_step ops m s = Inl y \<Longrightarrow> Q y"
  and stream_passes_Inr: "stream_passes I ops Q \<Longrightarrow> I m s \<Longrightarrow> stream_step ops m s = Inr (m', t) \<Longrightarrow> I m' t"
  unfolding stream_passes_def by (metis sum.case case_prod_conv)+

lemma stream_loop_induct:
  assumes "stream_loop ops mode s = Some y" and "stream_passes I ops Q" and "I mode s"
  shows "Q y"
proof -
  have "stream_passes I ops Q \<longrightarrow> I mode s \<longrightarrow> Q y"
  proof (rule stream_loop.raw_induct [where P = "\<lambda>ops m s y. stream_passes I ops Q \<longrightarrow> I m s \<longrightarrow> Q y", OF _ assms(1)])
    fix loop and ops :: "('b, 'a) stream_ops" and m s y
    assume IH: "\<And>(ops :: ('b, 'a) stream_ops) m s y. loop ops m s = Some y \<Longrightarrow> stream_passes I ops Q \<longrightarrow> I m s \<longrightarrow> Q y"
      and run: "(case stream_step ops m s of Inl r \<Rightarrow> Some r | Inr (m', s') \<Rightarrow> loop ops m' s') = Some y"
    show "stream_passes I ops Q \<longrightarrow> I m s \<longrightarrow> Q y"
    proof (intro impI)
      assume pass: "stream_passes I ops Q" and I: "I m s"
      show "Q y"
      proof (cases "stream_step ops m s")
        case (Inl z)
        with run stream_passes_Inl [OF pass I] show ?thesis by simp
      next
        case (Inr z)
        obtain m' t where z: "z = (m', t)" by (cases z)
        with Inr stream_passes_Inr [OF pass I] have "I m' t" by simp
        with IH [of ops m' t y] run Inr z pass show ?thesis by simp
      qed
    qed
  qed
  with assms show ?thesis by blast
qed

section \<open>Attempts are counted from the last event\<close>

text \<open>
  \<open>count\<close> is how often the state has been reconnected. Started with no attempt made, the loop has
  reconnected as often as its attempt number says, and gives up with the error of the connection only
  when the next attempt would be over the limit.
\<close>

definition attempts_made :: "('s, 'a) stream_ops \<Rightarrow> ('s \<Rightarrow> nat) \<Rightarrow> nat \<Rightarrow> stream_mode \<Rightarrow> 's \<Rightarrow> bool" where
  "attempts_made ops count start m u \<longleftrightarrow> count u = start + attempt_of m \<and>
     (\<forall>j. 0 < j \<and> j \<le> attempt_of m \<longrightarrow> \<not> op_exhausted ops j)"

definition attempts_ended ::
  "('s, 'a) stream_ops \<Rightarrow> ('s \<Rightarrow> nat) \<Rightarrow> nat \<Rightarrow> 'a stream_event outcome \<times> 's \<Rightarrow> bool" where
  "attempts_ended ops count start y \<longleftrightarrow> (\<exists>k. (\<forall>j. 0 < j \<and> j \<le> k \<longrightarrow> \<not> op_exhausted ops j) \<and>
     count (snd y) \<le> start + k \<and>
     (\<forall>e. fst y = Raise e \<and> catches FQConnectionError e \<longrightarrow>
        op_exhausted ops (Suc k) \<and> count (snd y) = start + k))"

definition counts_dials :: "('s, 'a) stream_ops \<Rightarrow> ('s \<Rightarrow> nat) \<Rightarrow> bool" where
  "counts_dials ops count \<longleftrightarrow> (\<forall>u. op_stop ops u = (Return False, u)) \<and>
     (\<forall>u. count (snd (op_open ops u)) = count u) \<and> (\<forall>u. count (snd (op_next ops u)) = count u) \<and>
     (\<forall>n u. count (snd (op_pause ops n u)) = count u \<and>
        (\<forall>e. fst (op_pause ops n u) = Raise e \<longrightarrow> \<not> catches FQConnectionError e)) \<and>
     (\<forall>u. count (snd (op_reconnect ops u)) = Suc (count u) \<or> count (snd (op_reconnect ops u)) = count u \<and>
        (\<exists>e. fst (op_reconnect ops u) = Raise e \<and> \<not> catches FQConnectionError e))"

lemma recover_counts:
  assumes "counts_dials ops count" and "attempts_made ops count start m u"
  shows "case stream_recover ops (attempt_of m) e u of
      Inl y \<Rightarrow> attempts_ended ops count start y | Inr (m', t) \<Rightarrow> attempts_made ops count start m' t"
proof -
  let ?n = "attempt_of m"
  have u: "count u = start + ?n" "\<And>j. 0 < j \<and> j \<le> ?n \<Longrightarrow> \<not> op_exhausted ops j"
    using assms(2) by (simp_all add: attempts_made_def)
  obtain q v where q: "op_pause ops (Suc ?n) u = (q, v)" by fastforce
  obtain r t where r: "op_reconnect ops v = (r, t)" by fastforce
  have v: "count v = count u" "\<And>e. q = Raise e \<Longrightarrow> \<not> catches FQConnectionError e"
    using assms(1) q by (auto simp: counts_dials_def) (metis fst_conv snd_conv)+
  have t: "count t = Suc (count v) \<or> count t = count v \<and> (\<exists>e. r = Raise e \<and> \<not> catches FQConnectionError e)"
    using assms(1) r by (auto simp: counts_dials_def) (metis fst_conv snd_conv)+
  have same: "attempts_ended ops count start (x, y)"
    if "count y = count u" "\<And>e. x = Raise e \<Longrightarrow> catches FQConnectionError e \<Longrightarrow> op_exhausted ops (Suc ?n)" for x y
    unfolding attempts_ended_def using that u by (intro exI [of _ ?n]) auto
  have more: "attempts_ended ops count start (x, y)"
    if "count y \<le> Suc (count u)" "\<not> op_exhausted ops (Suc ?n)" "\<And>e. x = Raise e \<Longrightarrow> \<not> catches FQConnectionError e" for x y
    unfolding attempts_ended_def using that u by (intro exI [of _ "Suc ?n"]) (auto simp: le_Suc_eq)
  have made: "attempts_made ops count start (Opening (Suc ?n)) y"
    if "count y = Suc (count u)" "\<not> op_exhausted ops (Suc ?n)" for y
    using that u by (auto simp: attempts_made_def le_Suc_eq)
  show ?thesis
  proof (cases "catches FQConnectionError e \<and> \<not> op_exhausted ops (Suc ?n) \<and> q = Return ()")
    case True
    then have step: "stream_recover ops ?n e u = (case r of
        Return u \<Rightarrow> Inr (Opening (Suc ?n), t) | Blocked \<Rightarrow> Inl (Blocked, t)
      | Raise e' \<Rightarrow> if catches FQConnectionError e' then Inr (Opening (Suc ?n), t) else Inl (Raise e', t))"
      using q r by (cases r) (simp_all add: stream_recover_def)
    have le: "count t \<le> Suc (count u)" using t v(1) by auto
    show ?thesis
    proof (cases r)
      case (Raise x)
      then show ?thesis using step more [OF le, of "Raise x"] made [of t] t v(1) True by (cases "catches FQConnectionError x") auto
    qed (use step more [OF le, of Blocked] made [of t] t v(1) True in auto)
  next
    case False
    then have "stream_recover ops ?n e u = Inl (Raise e, u) \<and> (catches FQConnectionError e \<longrightarrow> op_exhausted ops (Suc ?n)) \<or>
        stream_recover ops ?n e u = Inl (Blocked, v) \<or> (\<exists>x. stream_recover ops ?n e u = Inl (Raise x, v) \<and> q = Raise x)"
      using q by (cases q) (auto simp: stream_recover_def)
    then show ?thesis
    proof (elim disjE exE conjE)
      assume "stream_recover ops ?n e u = Inl (Raise e, u)" "catches FQConnectionError e \<longrightarrow> op_exhausted ops (Suc ?n)"
      with same [of u "Raise e"] show ?thesis by simp
    next
      fix x assume "stream_recover ops ?n e u = Inl (Raise x, v)" "q = Raise x"
      with same [of v "Raise x"] v show ?thesis by simp
    qed (use same [of v Blocked] v in simp)
  qed
qed

lemma stream_loop_counts:
  assumes "counts_dials ops count" and "stream_loop ops (Reading 0) s = Some y"
  shows "attempts_ended ops count (count s) y"
proof (rule stream_loop_induct [OF assms(2), where I = "attempts_made ops count (count s)"
      and Q = "attempts_ended ops count (count s)"])
  show "attempts_made ops count (count s) (Reading 0) s" by (simp add: attempts_made_def)
  have ended: "attempts_ended ops count start (r, v)" if "attempts_made ops count start m u" "count v = count u"
    "\<And>e. r \<noteq> Raise e" for start m u v and r
    unfolding attempts_ended_def using that by (intro exI [of _ "attempt_of m"]) (auto simp: attempts_made_def)
  have moved: "attempts_made ops count start m' v" if "attempts_made ops count start m u" "count v = count u"
    "attempt_of m' = attempt_of m" for start m m' u v
    using that by (simp add: attempts_made_def)
  have goal: "case stream_step ops m u of Inl y \<Rightarrow> attempts_ended ops count (count s) y
      | Inr (m', t) \<Rightarrow> attempts_made ops count (count s) m' t" if made: "attempts_made ops count (count s) m u" for m u
  proof -
    let ?goal = "\<lambda>x. case x of Inl y \<Rightarrow> attempts_ended ops count (count s) y
      | Inr (m', t) \<Rightarrow> attempts_made ops count (count s) m' t"
    show ?thesis
    proof (cases m)
      case (Opening n)
      obtain r v where r: "op_open ops u = (r, v)" by fastforce
      then have v: "count v = count u" using assms(1) by (simp add: counts_dials_def) (metis snd_conv)
      have rec: "?goal (stream_recover ops n e v)" for e
        using recover_counts [OF assms(1) moved [OF made v], of m e] Opening by simp
      have step: "stream_step ops m u = (case r of Return x \<Rightarrow> Inr (Reading n, v)
          | Raise e \<Rightarrow> stream_recover ops n e v | Blocked \<Rightarrow> Inl (Blocked, v))"
        using assms(1) Opening r by (simp add: counts_dials_def)
      show ?thesis
        unfolding step using rec moved [OF made v, of "Reading n"] ended [OF made v] Opening
        by (cases r) simp_all
    next
      case (Reading n)
      obtain r v where r: "op_next ops u = (r, v)" by fastforce
      then have v: "count v = count u" using assms(1) by (simp add: counts_dials_def) (metis snd_conv)
      have rec: "?goal (stream_recover ops n e v)" for e
        using recover_counts [OF assms(1) moved [OF made v], of m e] Reading by simp
      have step: "stream_step ops m u = (case r of
            Return None \<Rightarrow> Inr (Reading n, v)
          | Return (Some frame) \<Rightarrow> (case op_parse ops frame of Inr event \<Rightarrow> Inl (Return (Yields event), v)
              | Inl e \<Rightarrow> stream_recover ops n e v)
          | Raise e \<Rightarrow> stream_recover ops n e v | Blocked \<Rightarrow> Inl (Blocked, v))"
        using assms(1) Reading r by (auto simp: counts_dials_def split: outcome.split option.split)
      show ?thesis
      proof (cases r)
        case (Return x)
        show ?thesis
        proof (cases x)
          case None
          then show ?thesis unfolding step using Return moved [OF made v, of "Reading n"] Reading by simp
        next
          case (Some frame)
          then show ?thesis unfolding step using Return rec ended [OF made v] by (cases "op_parse ops frame") simp_all
        qed
      next
        case (Raise e)
        then show ?thesis unfolding step using rec [of e] by simp
      next
        case Blocked
        then show ?thesis unfolding step using ended [OF made v] by simp
      qed
    qed
  qed
  show "stream_passes (attempts_made ops count (count s)) ops (attempts_ended ops count (count s))"
    unfolding stream_passes_def using goal by blast
qed

end
