(* ===== verification/Generators.thy ===== *)
theory Generators
  imports PoolCalls Streams
begin

text \<open>
  A stream of a client as a generator, for both clients: the loop of \<open>Streams\<close> inside the \<open>with\<close> block of
  \<open>acquire\<close>. A generator is a value of the record \<open>stream\<close>: its arguments and where it stands. It has
  not started, is suspended at its \<open>yield\<close> inside the \<open>with\<close> block (and then owns a connection of the
  pool), or is done. \<open>generator_next\<close> is \<open>next(generator)\<close>, \<open>generator_close\<close> its \<open>close()\<close>; the pool's
  \<open>enter\<close> and \<open>release\<close> are arguments.
\<close>

datatype stream_state = Fresh | Suspended connection | Done

record 'a stream =
  sm_command :: Command
  sm_parse :: "bytes \<Rightarrow> 'a result"
  sm_should_stop :: "(world, bool) prog option"
  sm_state :: stream_state

text \<open>The \<open>finally\<close> of \<open>acquire\<close>, when the generator leaves its \<open>with\<close> block with \<open>r\<close>.\<close>

definition generator_leave ::
  "(connection \<Rightarrow> (pstate, unit) prog) \<Rightarrow> 'b outcome \<Rightarrow> connection \<Rightarrow> 'a stream \<Rightarrow> pstate \<Rightarrow>
   ('b outcome \<times> 'a stream) \<times> pstate" where
  "generator_leave release r c g s = (case release c s of
      (Return u, t) \<Rightarrow> ((r, g\<lparr>sm_state := Done\<rparr>), t)
    | (Raise e, t) \<Rightarrow> ((Raise e, g\<lparr>sm_state := Done\<rparr>), t)
    | (Blocked, t) \<Rightarrow> ((Blocked, g), t))"

definition generator_resume ::
  "(connection \<Rightarrow> (pstate, unit) prog) \<Rightarrow> (cstate, 'a) stream_ops \<Rightarrow> stream_mode \<Rightarrow> connection \<Rightarrow>
   'a stream \<Rightarrow> pstate \<Rightarrow> ('a stream_event outcome \<times> 'a stream) \<times> pstate" where
  "generator_resume release ops mode c g = (\<lambda>(p, w). case stream_loop ops mode (c, w) of
      None \<Rightarrow> ((Blocked, g), (p, w))
    | Some (Blocked, (c', w')) \<Rightarrow> ((Blocked, g), (p, w'))
    | Some (Raise e, (c', w')) \<Rightarrow> generator_leave release (Raise e) c' g (p, w')
    | Some (Return Stops, (c', w')) \<Rightarrow> generator_leave release (Return Stops) c' g (p, w')
    | Some (Return (Yields v), (c', w')) \<Rightarrow> ((Return (Yields v), g\<lparr>sm_state := Suspended c'\<rparr>), (p, w')))"

definition generator_next ::
  "(pstate, connection) prog \<Rightarrow> (connection \<Rightarrow> (pstate, unit) prog) \<Rightarrow> (cstate, 'a) stream_ops \<Rightarrow>
   'a stream \<Rightarrow> pstate \<Rightarrow> ('a stream_event outcome \<times> 'a stream) \<times> pstate" where
  "generator_next enter release ops g s = (case sm_state g of
      Done \<Rightarrow> ((Return Stops, g), s)
    | Suspended c \<Rightarrow> generator_resume release ops (Reading 0) c g s
    | Fresh \<Rightarrow> (case enter s of
          (Return c, t) \<Rightarrow> generator_resume release ops (Opening 0) c g t
        | (Raise e, t) \<Rightarrow> ((Raise e, g\<lparr>sm_state := Done\<rparr>), t)
        | (Blocked, t) \<Rightarrow> ((Blocked, g), t)))"

text \<open>\<open>close()\<close> raises GeneratorExit at the \<open>yield\<close>, which no handler of the loop catches.\<close>

definition generator_close ::
  "(connection \<Rightarrow> (pstate, unit) prog) \<Rightarrow> 'a stream \<Rightarrow> pstate \<Rightarrow> (unit outcome \<times> 'a stream) \<times> pstate" where
  "generator_close release g s = (case sm_state g of
      Suspended c \<Rightarrow> generator_leave release (Return ()) c g s
    | _ \<Rightarrow> ((Return (), g\<lparr>sm_state := Done\<rparr>), s))"

section \<open>The slot of a stream\<close>

text \<open>
  How a stream stands to the pool it started on: not started with the pool untouched, suspended with
  one slot lent, or done with the slot back.
\<close>

definition stream_slot :: "pool \<Rightarrow> 'a stream \<Rightarrow> pool \<Rightarrow> bool" where
  "stream_slot p g q \<longleftrightarrow> (case sm_state g of Fresh \<Rightarrow> q = p | Suspended c \<Rightarrow> lent p q | Done \<Rightarrow> home p q)"

context slot_pool
begin

lemma leave_home:
  assumes "pool_ready p" and "lent p q" and "generator_leave release r c g (q, w) = ((r', g'), (q', w'))"
  shows "r' = r \<and> g' = g\<lparr>sm_state := Done\<rparr> \<and> home p q'"
proof -
  obtain u q1 v where rel: "release c (q, w) = (u, (q1, v))" by (metis prod.exhaust)
  have "u = Return () \<and> home p q1" by (rule release_home [OF assms(1,2) rel])
  with rel assms(3) show ?thesis by (simp add: generator_leave_def)
qed

lemma resume_slot:
  assumes "pool_ready p" and "lent p q"
    and "generator_resume release ops mode c g (q, w) = ((r, g'), (q', w'))" and "r \<noteq> Blocked"
  shows "stream_slot p g' q'"
proof -
  obtain a c1 w1 where loop: "stream_loop ops mode (c, w) = Some (a, (c1, w1))" "a \<noteq> Blocked"
    using assms(3,4) by (auto simp: generator_resume_def split: option.splits outcome.splits)
  show ?thesis
  proof (cases "\<exists>v. a = Return (Yields v)")
    case True
    with loop assms(2,3) show ?thesis by (auto simp: generator_resume_def stream_slot_def)
  next
    case False
    with loop assms(3) have "generator_leave release a c1 g (q, w1) = ((r, g'), (q', w'))"
      by (auto simp: generator_resume_def split: outcome.splits stream_event.splits)
    from leave_home [OF assms(1,2) this] show ?thesis by (simp add: stream_slot_def)
  qed
qed

lemma next_slot:
  assumes "pool_ready p" and "stream_slot p g q"
    and "generator_next (\<lambda>s. enter (dl s) s) release ops g (q, w) = ((r, g'), (q', w'))" and "r \<noteq> Blocked"
  shows "stream_slot p g' q'"
proof (cases "sm_state g")
  case Fresh
  then have "q = p" using assms(2) by (simp add: stream_slot_def)
  obtain a q1 w1 where e: "enter (dl (p, w)) (p, w) = (a, (q1, w1))" by (metis prod.exhaust)
  show ?thesis
  proof (cases a)
    case (Return c)
    then have "generator_resume release ops (Opening 0) c g (q1, w1) = ((r, g'), (q', w'))"
      using assms(3) Fresh e \<open>q = p\<close> by (simp add: generator_next_def)
    from resume_slot [OF assms(1) enter_lends [OF assms(1) e [unfolded Return]] this assms(4)] show ?thesis .
  next
    case (Raise x)
    with assms(3) Fresh e enter_fails [OF assms(1)] \<open>q = p\<close> show ?thesis
      by (auto simp: generator_next_def stream_slot_def)
  qed (use assms(3,4) Fresh e \<open>q = p\<close> in \<open>auto simp: generator_next_def\<close>)
next
  case (Suspended c)
  then have "generator_resume release ops (Reading 0) c g (q, w) = ((r, g'), (q', w'))" "lent p q"
    using assms(2,3) by (simp_all add: generator_next_def stream_slot_def)
  from resume_slot [OF assms(1) this(2,1) assms(4)] show ?thesis .
next
  case Done
  with assms(2,3) show ?thesis by (simp add: generator_next_def)
qed

lemma close_slot:
  assumes "pool_ready p" and "stream_slot p g q"
    and "generator_close release g (q, w) = ((r, g'), (q', w'))"
  shows "stream_slot p g' q'"
proof (cases "sm_state g")
  case (Suspended c)
  with assms leave_home [OF assms(1), of q "Return ()" c g w r g' q' w'] show ?thesis
    by (simp add: generator_close_def stream_slot_def)
qed (use assms pool_ready_home in \<open>auto simp: generator_close_def stream_slot_def\<close>)

end

end
