(* ===== verification/ClientStreams.thy ===== *)
theory ClientStreams
  imports ClientFacts Generators Dials
begin

text \<open>
  The streams of \<open>fq/sync/client.py\<close> (\<open>stream\<close>, \<open>pstream\<close>, \<open>qstream\<close>, \<open>qpstream\<close>, their polled forms and
  \<open>_stream\<close>): the generators of \<open>Generators\<close> on the client's pool and connections.
\<close>

definition stream_stop :: "(world, bool) prog option \<Rightarrow> (world, bool) prog" where
  "stream_stop should_stop = (case should_stop of None \<Rightarrow> pret False | Some f \<Rightarrow> f)"

definition stream_poll :: "(world, bool) prog option \<Rightarrow> real option" where
  "stream_poll should_stop = (case should_stop of None \<Rightarrow> None | Some f \<Rightarrow> Some STREAM_POLL_INTERVAL)"

definition stream_pause :: "ReconnectPolicy \<Rightarrow> nat \<Rightarrow> (cstate, unit) prog" where
  "stream_pause policy attempt = pbind (draw_delay policy attempt) (\<lambda>d. on_world (sleep d))"

definition Client_stream_ops :: "ReconnectPolicy \<Rightarrow> 'a stream \<Rightarrow> (cstate, 'a) stream_ops" where
  "Client_stream_ops policy g =
     \<lparr>op_stop = on_world (stream_stop (sm_should_stop g)),
      op_open = Connection_open_stream (sm_command g),
      op_next = Connection_stream_next (stream_poll (sm_should_stop g)),
      op_parse = sm_parse g,
      op_exhausted = ReconnectPolicy_exhausted policy,
      op_pause = stream_pause policy,
      op_reconnect = Connection_reconnect\<rparr>"

section \<open>The generator\<close>

definition Client_stream :: "Command \<Rightarrow> (bytes \<Rightarrow> 'a result) \<Rightarrow> (world, bool) prog option \<Rightarrow> 'a stream" where
  "Client_stream command parse should_stop =
     \<lparr>sm_command = command, sm_parse = parse, sm_should_stop = should_stop, sm_state = Fresh\<rparr>"

text \<open>Entering the \<open>with\<close> block of \<open>acquire\<close>.\<close>

definition stream_enter :: "Client \<Rightarrow> (pstate, connection) prog" where
  "stream_enter cl s = ConnectionPool_enter (Client_factory (cl_template cl))
     (Deadline_new (Some (cl_connect_timeout cl)) (now (snd s))) s"

definition Client_stream_next :: "'a stream \<Rightarrow> clstate \<Rightarrow> ('a stream_event outcome \<times> 'a stream) \<times> clstate" where
  "Client_stream_next g = (\<lambda>(cl, w).
     case generator_next (stream_enter cl) ConnectionPool_release (Client_stream_ops (cl_reconnect cl) g) g
       (cl_pool cl, w) of (x, (p, w')) \<Rightarrow> (x, (cl\<lparr>cl_pool := p\<rparr>, w')))"

definition Client_stream_close :: "'a stream \<Rightarrow> clstate \<Rightarrow> (unit outcome \<times> 'a stream) \<times> clstate" where
  "Client_stream_close g = (\<lambda>(cl, w). case generator_close ConnectionPool_release g (cl_pool cl, w) of
     (x, (p, w')) \<Rightarrow> (x, (cl\<lparr>cl_pool := p\<rparr>, w')))"

definition Client_stream_all :: "LimitEvent stream result" where
  "Client_stream_all = sbind stream (\<lambda>c. Inr (Client_stream c parse_limit_event None))"

definition Client_pstream :: "pystr \<Rightarrow> LimitEvent stream result" where
  "Client_pstream pfx = sbind (pstream pfx) (\<lambda>c. Inr (Client_stream c parse_limit_event None))"

definition Client_qstream :: "QuotaEvent stream result" where
  "Client_qstream = sbind qstream (\<lambda>c. Inr (Client_stream c parse_quota_event None))"

definition Client_qpstream :: "pystr \<Rightarrow> QuotaEvent stream result" where
  "Client_qpstream pfx = sbind (qpstream pfx) (\<lambda>c. Inr (Client_stream c parse_quota_event None))"

definition Client_stream_polled :: "(world, bool) prog \<Rightarrow> LimitEvent stream result" where
  "Client_stream_polled f = sbind stream (\<lambda>c. Inr (Client_stream c parse_limit_event (Some f)))"

definition Client_pstream_polled :: "pystr \<Rightarrow> (world, bool) prog \<Rightarrow> LimitEvent stream result" where
  "Client_pstream_polled pfx f = sbind (pstream pfx) (\<lambda>c. Inr (Client_stream c parse_limit_event (Some f)))"

definition Client_qstream_polled :: "(world, bool) prog \<Rightarrow> QuotaEvent stream result" where
  "Client_qstream_polled f = sbind qstream (\<lambda>c. Inr (Client_stream c parse_quota_event (Some f)))"

definition Client_qpstream_polled :: "pystr \<Rightarrow> (world, bool) prog \<Rightarrow> QuotaEvent stream result" where
  "Client_qpstream_polled pfx f = sbind (qpstream pfx) (\<lambda>c. Inr (Client_stream c parse_quota_event (Some f)))"

section \<open>The slot of a stream\<close>

text \<open>
  C10. A stream owns exactly one slot of the pool, from its first event to its end: however it goes
  (events, failures, reconnects, an exception, the stop flag, \<open>close()\<close>), a suspended stream has the
  slot that was on top and the others are untouched, and when it is done the slot is back, usable;
  only a suspended stream holds one, so no stream that ended leaks a connection.
\<close>

theorem stream_owns_one_slot:
  assumes "pool_ready p" and "stream_slot p g (cl_pool cl)"
    and "Client_stream_next g (cl, w) = ((r, g'), (cl', w')) \<and> r \<noteq> Blocked \<or>
      Client_stream_close g (cl, w) = ((r', g'), (cl', w')) \<and> r' \<noteq> Blocked"
  shows "stream_slot p g' (cl_pool cl') \<and> cl' = cl\<lparr>cl_pool := cl_pool cl'\<rparr>"
  using assms(3)
proof (elim disjE conjE)
  assume nxt: "Client_stream_next g (cl, w) = ((r, g'), (cl', w'))" "r \<noteq> Blocked"
  then have run: "generator_next (\<lambda>s. ConnectionPool_enter (Client_factory (cl_template cl))
      (Deadline_new (Some (cl_connect_timeout cl)) (now (snd s))) s) ConnectionPool_release
      (Client_stream_ops (cl_reconnect cl) g) g (cl_pool cl, w) = ((r, g'), (cl_pool cl', w'))"
    and "cl' = cl\<lparr>cl_pool := cl_pool cl'\<rparr>"
    by (auto simp: Client_stream_next_def stream_enter_def [abs_def] split: prod.splits)
  with sync_pool.next_slot [OF assms(1,2) run nxt(2)] show ?thesis by simp
next
  assume cls: "Client_stream_close g (cl, w) = ((r', g'), (cl', w'))"
  then have run: "generator_close ConnectionPool_release g (cl_pool cl, w) = ((r', g'), (cl_pool cl', w'))"
    and "cl' = cl\<lparr>cl_pool := cl_pool cl'\<rparr>"
    by (auto simp: Client_stream_close_def split: prod.splits)
  with sync_pool.close_slot [OF assms(1,2) run] show ?thesis by simp
qed

section \<open>What a stream yields\<close>

text \<open>\<open>n\<close> times \<open>next\<close>, as long as an event comes.\<close>

fun stream_take :: "nat \<Rightarrow> 'a stream \<Rightarrow> clstate \<Rightarrow> 'a list \<times> 'a stream \<times> clstate" where
  "stream_take 0 g s = ([], g, s)"
| "stream_take (Suc n) g s = (case Client_stream_next g s of
      ((Return (Yields v), g'), s') \<Rightarrow> (case stream_take n g' s' of (vs, t) \<Rightarrow> (v # vs, t))
    | ((r, g'), s') \<Rightarrow> ([], g', s'))"

lemma stream_next_frame:
  assumes "readable (Deadline_new None t0) s" and "framed [f] (cn_max_message_size (fst s))"
    and "incoming s = wire (f # fs) @ rest"
  shows "\<exists>t. Connection_stream_next None s = (Return (Some f), t) \<and> same_but_read s t \<and>
    readable (Deadline_new None t0) t \<and> incoming t = wire fs @ rest"
proof -
  have "Deadline_new None (now (snd s)) = Deadline_new None t0" by (simp add: Deadline_new_def)
  with read_one_frame [OF assms] show ?thesis
    by (cases s) (auto simp: Connection_stream_next_def clock_def pbind_def pget_def pret_def)
qed

lemma resume_yields:
  assumes "sm_should_stop g = None" and "readable (Deadline_new None t0) (c, w)"
    and "framed [f] (cn_max_message_size c)" and "incoming (c, w) = wire (f # fs) @ rest"
    and "sm_parse g f = Inr v"
  shows "\<exists>c' w'. generator_resume release (Client_stream_ops policy g) (Reading n) c g (p, w) =
      ((Return (Yields v), g\<lparr>sm_state := Suspended c'\<rparr>), (p, w')) \<and> same_but_read (c, w) (c', w') \<and>
    readable (Deadline_new None t0) (c', w') \<and> incoming (c', w') = wire fs @ rest"
proof -
  from stream_next_frame [of t0 "(c, w)" f fs rest] assms(2-4) obtain c' w' where
    t: "Connection_stream_next None (c, w) = (Return (Some f), (c', w'))" "same_but_read (c, w) (c', w')"
      "readable (Deadline_new None t0) (c', w')" "incoming (c', w') = wire fs @ rest" by fastforce
  have "stream_loop (Client_stream_ops policy g) (Reading n) (c, w) = Some (Return (Yields v), (c', w'))"
    using t(1) assms(1,5)
    by (subst stream_loop.simps) (simp add: Client_stream_ops_def stream_poll_def)
  with t show ?thesis by (intro exI [of _ c'] exI [of _ w']) (simp add: generator_resume_def)
qed

lemma suspended_stream_take:
  assumes "sm_state g = Suspended c" and "sm_should_stop g = None"
    and "readable (Deadline_new None t0) (c, w)" and "framed fs (cn_max_message_size c)"
    and "incoming (c, w) = wire fs @ rest" and "\<forall>f \<in> set fs. \<exists>v. sm_parse g f = Inr v"
  shows "\<exists>c' w'. stream_take (length fs) g (cl, w) =
      (map (\<lambda>f. projr (sm_parse g f)) fs, g\<lparr>sm_state := Suspended c'\<rparr>, (cl, w')) \<and>
    incoming (c', w') = rest \<and> sends w' = sends w"
  using assms
proof (induction fs arbitrary: g c w)
  case Nil
  then have "g\<lparr>sm_state := Suspended c\<rparr> = g" by (metis stream.surjective stream.update_convs(4))
  with Nil show ?case by (intro exI [of _ c] exI [of _ w]) (simp add: wire_def)
next
  case (Cons f fs)
  obtain v where v: "sm_parse g f = Inr v" using Cons.prems(6) by auto
  have one: "framed [f] (cn_max_message_size c)" using Cons.prems(4) by (simp add: framed_def)
  obtain c1 w1 where t: "generator_resume ConnectionPool_release (Client_stream_ops (cl_reconnect cl) g) (Reading 0) c g
      (cl_pool cl, w) = ((Return (Yields v), g\<lparr>sm_state := Suspended c1\<rparr>), (cl_pool cl, w1))" "same_but_read (c, w) (c1, w1)"
    "readable (Deadline_new None t0) (c1, w1)" "incoming (c1, w1) = wire fs @ rest"
    using resume_yields [OF Cons.prems(2,3) one Cons.prems(5) v] by blast
  let ?g = "g\<lparr>sm_state := Suspended c1\<rparr>"
  have "framed fs (cn_max_message_size c1)"
    using Cons.prems(4) same_but_read_facts(1) [OF t(2)] by (simp add: framed_def)
  with Cons.IH [of ?g c1 w1] Cons.prems(2,6) t(3,4) obtain c' w' where
    "stream_take (length fs) ?g (cl, w1) =
      (map (\<lambda>f. projr (sm_parse g f)) fs, g\<lparr>sm_state := Suspended c'\<rparr>, (cl, w'))"
    "incoming (c', w') = rest" "sends w' = sends w1" by auto
  with t v Cons.prems(1) same_but_read_facts(3) [OF t(2)] show ?case
    by (intro exI [of _ c'] exI [of _ w']) (simp add: Client_stream_next_def generator_next_def)
qed

lemma enter_reuses:
  assumes "pool_ready (cl_pool cl)" and "pl_slots (cl_pool cl) = Some c # others"
  shows "stream_enter cl (cl_pool cl, w) = (Return c, ((cl_pool cl)\<lparr>pl_slots := others\<rparr>, w))"
  using assms
  by (simp add: stream_enter_def ConnectionPool_enter_def ConnectionPool_take_def slot_get_def
      prog_defs pool_ready_def)

lemma resume_opened:
  assumes "stream_loop ops m s = stream_loop ops n t"
    and "generator_resume release ops n (fst t) g (p, snd t) = ((Return (Yields v), g'), u)"
  shows "generator_resume release ops m (fst s) g (p, snd s) = ((Return (Yields v), g'), u)"
  using assms
  by (auto simp: generator_resume_def generator_leave_def split: option.splits outcome.splits stream_event.splits)

text \<open>
  C9. A subscription delivers: when the connection on top of the pool can carry the request and the
  server answers with the frames of some events, the stream subscribes by sending the command once,
  and asking for that many events gives exactly the decoded events, each once and in the order they
  were sent, whatever the fragmentation; nothing else is sent and no byte of what follows is touched.
\<close>

theorem stream_yields_events_in_order:
  assumes "pool_ready (cl_pool cl)" and "pl_slots (cl_pool cl) = Some c # others"
    and "can_send command (Deadline_new None 0) (c, w)" and "framed fs (cn_max_message_size c)"
    and "incoming (c, w) = wire fs @ rest" and "fs \<noteq> []" and "\<forall>f \<in> set fs. \<exists>v. parse f = Inr v"
  shows "\<exists>g c' v. stream_take (length fs) (Client_stream command parse None) (cl, w) =
      (map (\<lambda>f. projr (parse f)) fs, g, (cl\<lparr>cl_pool := (cl_pool cl)\<lparr>pl_slots := others\<rparr>\<rparr>, v)) \<and>
    sm_state g = Suspended c' \<and> incoming (c', v) = rest \<and>
    sends v = sends w @ [wire [payload command]]"
proof -
  let ?g = "Client_stream command parse None" and ?dl = "Deadline_new None 0"
  let ?cl = "cl\<lparr>cl_pool := (cl_pool cl)\<lparr>pl_slots := others\<rparr>\<rparr>"
  obtain f fs' where fs: "fs = f # fs'" using assms(6) by (cases fs) auto
  obtain x where x: "parse f = Inr x" using assms(7) fs by auto
  obtain c1 w1 where o: "Connection_write_request command ?dl (c, w) = (Return (), (c1, w1))"
    "readable ?dl (c1, w1)" "incoming (c1, w1) = wire fs @ rest" "sends w1 = sends w @ [wire [payload command]]"
    "cn_max_message_size c1 = cn_max_message_size c"
    using write_then_readable [OF assms(3)] assms(5) by fastforce
  have "stream_loop (Client_stream_ops p ?g) (Opening 0) (c, w) = stream_loop (Client_stream_ops p ?g) (Reading 0) (c1, w1)" for p
    using o(1)
    by (subst stream_loop.simps) (simp add: Client_stream_ops_def Client_stream_def stream_stop_def on_world_def
        pret_def Connection_open_stream_def clock_def pbind_def pget_def Deadline_new_def)
  then have loop: "stream_loop (Client_stream_ops (cl_reconnect cl) ?g) (Opening 0) (c, w) =
      stream_loop (Client_stream_ops (cl_reconnect cl) ?g) (Reading 0) (c1, w1)" .
  have g: "sm_should_stop ?g = None" "sm_parse ?g = parse" by (simp_all add: Client_stream_def)
  have "framed [f] (cn_max_message_size c1)" using assms(4) fs o(5) by (simp add: framed_def)
  from resume_yields [OF g(1) o(2) this _ , of fs' rest x ConnectionPool_release "cl_reconnect cl" 0 "cl_pool ?cl"] o(3) fs x g(2) obtain c2 w2 where
    r: "generator_resume ConnectionPool_release (Client_stream_ops (cl_reconnect cl) ?g) (Reading 0) c1 ?g
        (cl_pool ?cl, w1) = ((Return (Yields x), ?g\<lparr>sm_state := Suspended c2\<rparr>), (cl_pool ?cl, w2))" "same_but_read (c1, w1) (c2, w2)"
      "readable ?dl (c2, w2)" "incoming (c2, w2) = wire fs' @ rest" by auto
  have first: "Client_stream_next ?g (cl, w) = ((Return (Yields x), ?g\<lparr>sm_state := Suspended c2\<rparr>), (?cl, w2))"
    using enter_reuses [OF assms(1,2), of w] resume_opened [OF loop, of ConnectionPool_release ?g "cl_pool ?cl" x] r(1)
    by (simp add: Client_stream_next_def generator_next_def Client_stream_def)
  have "framed fs' (cn_max_message_size c2)"
    using assms(4) fs o(5) same_but_read_facts(1) [OF r(2)] by (simp add: framed_def)
  then obtain c' v where
    "stream_take (length fs') (?g\<lparr>sm_state := Suspended c2\<rparr>) (?cl, w2) =
      (map (\<lambda>f. projr (parse f)) fs', ?g\<lparr>sm_state := Suspended c'\<rparr>, (?cl, v))"
    "incoming (c', v) = rest" "sends v = sends w2"
    using suspended_stream_take [of "?g\<lparr>sm_state := Suspended c2\<rparr>" c2 0 w2 fs' rest ?cl] r(3,4) g assms(7) fs
    by auto
  with first fs x o(4) same_but_read_facts(3) [OF r(2)] show ?thesis
    by (intro exI [of _ "?g\<lparr>sm_state := Suspended c'\<rparr>"] exI [of _ c'] exI [of _ v]) simp
qed

section \<open>How a stream reconnects\<close>

lemma stream_loop_returns:
  assumes "rp_max_attempts policy = Some m \<or> 1 < rp_multiplier policy" and "sm_should_stop g = None"
  shows "\<exists>r. stream_loop (Client_stream_ops policy g) mode s = Some r"
proof -
  let ?ops = "Client_stream_ops policy g"
  obtain N where N: "\<And>n. N \<le> n \<Longrightarrow> ReconnectPolicy_exhausted policy n \<or> (\<exists>e. float_pow (rp_multiplier policy) (n - 1) = Inl e)"
    using attempts_end [OF assms(1)] by blast
  have "op_exhausted ?ops n \<or> (\<forall>u. fst (op_pause ?ops n u) \<noteq> Return ())" if "N \<le> n" for n
    using N [OF that] by (auto simp: Client_stream_ops_def stream_pause_def draw_delay_def pbind_def)
  moreover have "fst (op_next ?ops u) \<noteq> Return None" for u
    using assms(2)
    by (auto simp: Client_stream_ops_def stream_poll_def Connection_stream_next_def clock_def prog_defs
        split: prod.splits outcome.splits)
  ultimately show ?thesis by (rule stream_loop_ends)
qed

lemma undialled_pause: "keeps undialled (stream_pause policy n)"
  unfolding stream_pause_def draw_delay_def by (intro wp undialled.keeps_pbind undialled.keeps_pure)

lemma pause_cases:
  "fst (stream_pause policy n s) = (if FLOAT_LIMIT \<le> \<bar>rp_multiplier policy ^ (n - 1)\<bar>
     then Raise (Exc PyOverflowError) else Return ())"
  by (auto simp: stream_pause_def draw_delay_def ReconnectPolicy_delay_def float_pow_def on_world_def
      draw_jitter_def sleep_def pbind_def split: prod.split)

lemma client_counts_dials:
  assumes "sm_should_stop g = None"
  shows "counts_dials (Client_stream_ops policy g) (\<lambda>s. dialled (snd s))"
proof -
  have same: "dialled (snd (snd (m s))) = dialled (snd s)" if "keeps undialled m" for m :: "(cstate, 'x) prog" and s
    using keepsD [OF that, of s "fst (m s)" "snd (m s)"] by (simp add: undialled_def)
  have overflow: "\<not> catches FQConnectionError (Exc PyOverflowError)" by (simp add: catches_def issubclass_eval)
  have "\<not> catches FQConnectionError e" if "fst (stream_pause policy n u) = Raise e" for n u e
  proof -
    have "e = Exc PyOverflowError" using that unfolding pause_cases by (simp split: if_splits)
    with overflow show ?thesis by simp
  qed
  moreover have "dialled (snd (snd (Connection_reconnect u))) = Suc (dialled (snd u)) \<or>
      dialled (snd (snd (Connection_reconnect u))) = dialled (snd u) \<and>
      (\<exists>e. fst (Connection_reconnect u) = Raise e \<and> \<not> catches FQConnectionError e)" for u
    using reconnect_dials_once [of u "fst (Connection_reconnect u)" "snd (Connection_reconnect u)"] by simp
  ultimately show ?thesis
    using assms same [OF undialled_open_stream] same [OF undialled_stream_next] same [OF undialled_pause]
    by (simp add: counts_dials_def Client_stream_ops_def stream_poll_def stream_stop_def on_world_def pret_def
        case_prod_unfold)
qed

lemma release_undialled:
  "ConnectionPool_release c (p, w) = (r, (q, v)) \<Longrightarrow> dialled v = dialled w \<and> (\<forall>e. r \<noteq> Raise e)"
  by (auto simp: ConnectionPool_release_def pbind_def pget_def on_pool_world_def close_world_def
      Connection_close_def slot_put_def split: prod.splits option.splits if_splits)

text \<open>What \<open>next\<close> gives of a suspended stream is what its loop gives.\<close>

lemma suspended_next:
  assumes "sm_state g = Suspended c" and "Client_stream_next g (cl, w) = ((r, g'), (cl', w'))"
    and "stream_loop (Client_stream_ops (cl_reconnect cl) g) (Reading 0) (c, w) = Some (q, (c1, w1))"
  shows "dialled w' = dialled w1 \<and> (\<forall>e. r = Raise e \<longrightarrow> q = Raise e)"
proof -
  from assms have run: "generator_resume ConnectionPool_release (Client_stream_ops (cl_reconnect cl) g) (Reading 0) c g
      (cl_pool cl, w) = ((r, g'), (cl_pool cl', w'))"
    by (auto simp: Client_stream_next_def generator_next_def split: prod.splits)
  have leave: "dialled w' = dialled w1 \<and> (\<forall>e. r = Raise e \<longrightarrow> x = Raise e)"
    if "generator_leave ConnectionPool_release x c1 g (cl_pool cl, w1) = ((r, g'), (cl_pool cl', w'))" for x
    using that by (auto simp: generator_leave_def split: prod.splits outcome.splits dest: release_undialled)
  show ?thesis
    using run assms(3) leave [of "Raise e" for e] leave [of "Return Stops"]
    by (auto simp: generator_resume_def split: outcome.splits stream_event.splits)
qed

lemma suspended_attempts:
  assumes "rp_max_attempts (cl_reconnect cl) = Some m \<or> 1 < rp_multiplier (cl_reconnect cl)"
    and "sm_should_stop g = None" and "sm_state g = Suspended c"
    and "Client_stream_next g (cl, w) = ((r, g'), (cl', w'))"
  shows "\<exists>k. (\<forall>j. 0 < j \<and> j \<le> k \<longrightarrow> \<not> ReconnectPolicy_exhausted (cl_reconnect cl) j) \<and>
    dialled w' \<le> dialled w + k \<and> (\<forall>e. r = Raise e \<and> catches FQConnectionError e \<longrightarrow>
      ReconnectPolicy_exhausted (cl_reconnect cl) (Suc k) \<and> dialled w' = dialled w + k)"
proof -
  let ?ops = "Client_stream_ops (cl_reconnect cl) g"
  obtain q c1 w1 where loop: "stream_loop ?ops (Reading 0) (c, w) = Some (q, (c1, w1))"
    using stream_loop_returns [OF assms(1,2), of "Reading 0" "(c, w)"] by (metis prod.exhaust)
  from stream_loop_counts [OF client_counts_dials [OF assms(2)] loop]
  obtain k where k: "\<forall>j. 0 < j \<and> j \<le> k \<longrightarrow> \<not> ReconnectPolicy_exhausted (cl_reconnect cl) j"
    "dialled w1 \<le> dialled w + k" "\<forall>e. q = Raise e \<and> catches FQConnectionError e \<longrightarrow>
      ReconnectPolicy_exhausted (cl_reconnect cl) (Suc k) \<and> dialled w1 = dialled w + k"
    by (auto simp: attempts_ended_def Client_stream_ops_def)
  with suspended_next [OF assms(3,4) loop] show ?thesis by (intro exI [of _ k]) auto
qed

text \<open>An outage under the default policy: 1024 attempts, then the overflow.\<close>

lemma default_pause:
  "fst (stream_pause default_policy n s) = (if 1025 \<le> n then Raise (Exc PyOverflowError) else Return ())"
proof -
  have "FLOAT_LIMIT \<le> \<bar>rp_multiplier default_policy ^ (n - 1)\<bar> \<longleftrightarrow> 1025 \<le> n"
    using default_delay_overflows [of n 0] by (auto simp: ReconnectPolicy_delay_def float_pow_def split: if_splits)
  then show ?thesis by (simp add: pause_cases)
qed

lemma default_unlimited: "\<not> ReconnectPolicy_exhausted default_policy n"
  by (simp add: ReconnectPolicy_exhausted_def default_policy_def)

lemma recover_in_outage:
  assumes "outage (sm_command g) s" and "catches FQConnectionError e"
  shows "\<exists>t. outage (sm_command g) t \<and> (if n < 1024 then
      stream_recover (Client_stream_ops default_policy g) n e s = Inr (Opening (Suc n), t) \<and>
      cn_sock (fst t) = None \<and> dialled (snd t) = Suc (dialled (snd s))
    else stream_recover (Client_stream_ops default_policy g) n e s = Inl (Raise (Exc PyOverflowError), t) \<and>
      dialled (snd t) = dialled (snd s))"
proof -
  obtain q u where q: "stream_pause default_policy (Suc n) s = (q, u)"
    by (cases "stream_pause default_policy (Suc n) s")
  note un = keepsD [OF undialled_pause q]
  have u: "outage (sm_command g) u" "dialled (snd u) = dialled (snd s)"
    using outage_undialled [OF un] assms(1) un by (simp_all add: undialled_def)
  have qs: "q = (if 1024 \<le> n then Raise (Exc PyOverflowError) else Return ())"
    using default_pause [of "Suc n" s] q by simp
  have fq: "catches FQConnectionError (Exc FQConnectionError)" by (simp add: catches_def issubclass_eval)
  show ?thesis
  proof (cases "n < 1024")
    case True
    obtain t where "Connection_reconnect u = (Raise (Exc FQConnectionError), t)" "outage (sm_command g) t"
      "cn_sock (fst t) = None" "dialled (snd t) = dialled (snd u) + 1"
      using reconnect_refused [OF u(1)] by blast
    then show ?thesis
      using True assms(2) q qs u fq
      by (intro exI [of _ t]) (simp add: stream_recover_def Client_stream_ops_def default_unlimited)
  next
    case False
    then show ?thesis
      using assms(2) q qs u
      by (intro exI [of _ u]) (simp add: stream_recover_def Client_stream_ops_def default_unlimited)
  qed
qed

lemma lost: "catches FQConnectionError (Exc FQConnectionError)"
  by (simp add: catches_def issubclass_eval)

lemma unconnected_step:
  assumes "outage (sm_command g) s" and "cn_sock (fst s) = None" and "sm_should_stop g = None"
  shows "stream_step (Client_stream_ops policy g) (Opening n) s =
    stream_recover (Client_stream_ops policy g) n (Exc FQConnectionError) s"
  using open_stream_unconnected [OF assms(1,2)] assms(3)
  by (cases s) (simp add: Client_stream_ops_def stream_stop_def on_world_def pret_def)

text \<open>An exception that leaves the loop leaves the generator, and its slot comes home.\<close>

lemma raised_next:
  assumes "cl_reconnect cl = policy" and "sm_state g = Suspended c" and "pool_ready p" and "lent p (cl_pool cl)"
    and "stream_loop (Client_stream_ops policy g) (Reading 0) (c, w) = Some (Raise e, (c1, w1))"
  shows "\<exists>g' cl' w'. Client_stream_next g (cl, w) = ((Raise e, g'), (cl', w')) \<and>
    sm_state g' = Done \<and> home p (cl_pool cl') \<and> dialled w' = dialled w1"
proof -
  obtain x g' q v where leave: "generator_leave ConnectionPool_release (Raise e) c1 g (cl_pool cl, w1) =
      ((x :: 'a stream_event outcome, g'), (q, v))" by (metis prod.exhaust)
  have next': "Client_stream_next g (cl, w) = ((x, g'), (cl\<lparr>cl_pool := q\<rparr>, v))"
    using assms(1,2,5) leave by (simp add: Client_stream_next_def generator_next_def generator_resume_def)
  from sync_pool.leave_home [OF assms(3,4) leave] have out: "x = Raise e" "sm_state g' = Done" "home p q" by simp_all
  have "dialled v = dialled w1"
    using suspended_next [OF assms(2) next'] assms(1,5) by simp
  with next' out show ?thesis by simp
qed

lemma loop_in_outage:
  assumes "outage (sm_command g) s" and "cn_sock (fst s) = None" and "sm_should_stop g = None" and "n \<le> 1024"
  shows "\<exists>t. stream_loop (Client_stream_ops default_policy g) (Opening n) s =
      Some (Raise (Exc PyOverflowError), t) \<and> dialled (snd t) + n = dialled (snd s) + 1024"
  using assms
proof (induction "1024 - n" arbitrary: n s)
  case (0 n s)
  note step = unconnected_step [OF 0(2-4)]
  have "\<not> n < 1024" using 0(1) by simp
  with recover_in_outage [OF 0(2) lost, of n] obtain t where
    "stream_recover (Client_stream_ops default_policy g) n (Exc FQConnectionError) s =
      Inl (Raise (Exc PyOverflowError), t)" "dialled (snd t) = dialled (snd s)" by auto
  with step 0(1,5) show ?case by (subst stream_loop.simps) simp
next
  case (Suc d n s)
  note step = unconnected_step [OF Suc(3-5)]
  have n: "n < 1024" "d = 1024 - Suc n" "Suc n \<le> 1024" using Suc(2) by simp_all
  with recover_in_outage [OF Suc(3) lost, of n] obtain t where t: "outage (sm_command g) t"
    "stream_recover (Client_stream_ops default_policy g) n (Exc FQConnectionError) s = Inr (Opening (Suc n), t)"
    "cn_sock (fst t) = None" "dialled (snd t) = Suc (dialled (snd s))" by auto
  from Suc(1) [OF n(2) t(1,3) Suc(5) n(3)] t(2,4) step show ?case by (subst stream_loop.simps) auto
qed

lemma next_in_outage:
  assumes "cl_reconnect cl = default_policy" and "sm_should_stop g = None" and "sm_state g = Suspended c"
    and "pool_ready p" and "lent p (cl_pool cl)" and "outage (sm_command g) (c, w)"
    and "fst (Connection_stream_next None (c, w)) = Raise e" and "catches FQConnectionError e"
  shows "\<exists>g' cl' w'. Client_stream_next g (cl, w) = ((Raise (Exc PyOverflowError), g'), (cl', w')) \<and>
    sm_state g' = Done \<and> home p (cl_pool cl') \<and> dialled w' = dialled w + 1024"
proof -
  let ?ops = "Client_stream_ops default_policy g"
  obtain u where u: "Connection_stream_next None (c, w) = (Raise e, u)"
    using assms(7) by (cases "Connection_stream_next None (c, w)") simp
  note un = keepsD [OF undialled_stream_next u]
  have out: "outage (sm_command g) u" "dialled (snd u) = dialled w"
    using outage_undialled [OF un] assms(6) un by (simp_all add: undialled_def)
  obtain t where t: "outage (sm_command g) t" "stream_recover ?ops 0 e u = Inr (Opening (Suc 0), t)"
    "cn_sock (fst t) = None" "dialled (snd t) = Suc (dialled w)"
    using recover_in_outage [OF out(1) assms(8), of 0] out(2) by auto
  obtain c1 w1 where loop: "stream_loop ?ops (Opening (Suc 0)) t = Some (Raise (Exc PyOverflowError), (c1, w1))"
    "dialled w1 = dialled w + 1024"
    using loop_in_outage [OF t(1,3) assms(2), of "Suc 0"] t(4) by auto
  have "stream_loop ?ops (Reading 0) (c, w) = Some (Raise (Exc PyOverflowError), (c1, w1))"
    using u t(2) loop(1) assms(2)
    by (subst stream_loop.simps) (simp add: Client_stream_ops_def stream_poll_def)
  then have "\<exists>g' cl' w'. Client_stream_next g (cl, w) = ((Raise (Exc PyOverflowError), g'), (cl', w')) \<and>
      sm_state g' = Done \<and> home p (cl_pool cl') \<and> dialled w' = dialled w1"
    by (rule raised_next [OF assms(1,3,4,5)])
  then show ?thesis using loop(2) by simp
qed

text \<open>
  C11. Reconnecting ends. Without a stop flag, and with a policy whose attempts are limited or whose
  delays grow (the default's double), asking a stream for its next event ends, however often the
  connection is lost, with an event, an exception, or waiting for the server. The attempts are counted
  from the last event on: after an event a stream dials at most as often as the policy allows
  attempts, whatever it dialled before it, and it raises the error of its connection only when all of
  these attempts were made and the next is one too many. So with the default policy, whose attempts are
  unlimited, the end of an outage that lasts is not that error, nor an endless reconnection: after
  1024 attempts the stream ends with the OverflowError of the backoff, which is no FQError.
\<close>

theorem stream_reconnects_finitely:
  assumes "rp_max_attempts (cl_reconnect cl) = Some m \<or> 1 < rp_multiplier (cl_reconnect cl)"
    and "sm_should_stop g = None"
  shows "(\<exists>r. stream_loop (Client_stream_ops (cl_reconnect cl) g) mode s = Some r) \<and>
    (sm_state g = Suspended c \<and> Client_stream_next g (cl, w) = ((r, g'), (cl', w')) \<longrightarrow>
      (\<exists>k. (\<forall>j. 0 < j \<and> j \<le> k \<longrightarrow> \<not> ReconnectPolicy_exhausted (cl_reconnect cl) j) \<and>
        dialled w' \<le> dialled w + k \<and> (\<forall>e. r = Raise e \<and> catches FQConnectionError e \<longrightarrow>
          ReconnectPolicy_exhausted (cl_reconnect cl) (Suc k) \<and> dialled w' = dialled w + k))) \<and>
    (sm_state g = Suspended c \<and> cl_reconnect cl = default_policy \<and> pool_ready p \<and> lent p (cl_pool cl) \<and>
      outage (sm_command g) (c, w) \<and> fst (Connection_stream_next None (c, w)) = Raise e \<and>
      catches FQConnectionError e \<longrightarrow>
      (\<exists>g' cl' w'. Client_stream_next g (cl, w) = ((Raise (Exc PyOverflowError), g'), (cl', w')) \<and>
        sm_state g' = Done \<and> home p (cl_pool cl') \<and> dialled w' = dialled w + 1024))"
proof (intro conjI impI)
  show "\<exists>r. stream_loop (Client_stream_ops (cl_reconnect cl) g) mode s = Some r"
    by (rule stream_loop_returns [OF assms])
next
  assume "sm_state g = Suspended c \<and> Client_stream_next g (cl, w) = ((r, g'), (cl', w'))"
  then show "\<exists>k. (\<forall>j. 0 < j \<and> j \<le> k \<longrightarrow> \<not> ReconnectPolicy_exhausted (cl_reconnect cl) j) \<and>
      dialled w' \<le> dialled w + k \<and> (\<forall>e. r = Raise e \<and> catches FQConnectionError e \<longrightarrow>
        ReconnectPolicy_exhausted (cl_reconnect cl) (Suc k) \<and> dialled w' = dialled w + k)"
    by (elim conjE) (rule suspended_attempts [OF assms])
next
  assume "sm_state g = Suspended c \<and> cl_reconnect cl = default_policy \<and> pool_ready p \<and> lent p (cl_pool cl) \<and>
      outage (sm_command g) (c, w) \<and> fst (Connection_stream_next None (c, w)) = Raise e \<and>
      catches FQConnectionError e"
  then show "\<exists>g' cl' w'. Client_stream_next g (cl, w) = ((Raise (Exc PyOverflowError), g'), (cl', w')) \<and>
      sm_state g' = Done \<and> home p (cl_pool cl') \<and> dialled w' = dialled w + 1024"
    by (elim conjE) (rule next_in_outage [OF _ assms(2)])
qed

text \<open>
  C12. A stream that ends leaves its subscription behind: \<open>close()\<close> gives the
  connection back as it is, still subscribed, and the pool hands it to the next call, which takes the
  frame of the next event for the answer to its own command.
\<close>

theorem closed_stream_answers_next_call:
  assumes "pool_ready p" and "lent p (cl_pool cl)" and "sm_state g = Suspended c"
    and "encode_request q = Inr command" and "Client_deadline timeout (cl, w) = (Return dl, (cl, w))"
    and "can_send command dl (c, w)" and "framed [event] (cn_max_message_size c)"
    and "incoming (c, w) = wire [event] @ rest"
  shows "\<exists>cl' g'. Client_stream_close g (cl, w) = ((Return (), g'), (cl', w)) \<and> sm_state g' = Done \<and>
    fst (client_call (encode_request q) parse timeout (cl', w)) =
      (case parse event of Inl e \<Rightarrow> Raise e | Inr x \<Rightarrow> Return x)"
proof -
  let ?p = "(cl_pool cl)\<lparr>pl_slots := Some c # pl_slots (cl_pool cl)\<rparr>"
  have up: "\<not> Connection_closed c"
    using assms(6) by (auto simp: can_send_def readable_def Connection_closed_def split: option.splits)
  have pool: "\<not> pl_closed (cl_pool cl)" "int (length (pl_slots (cl_pool cl))) < pl_size (cl_pool cl)"
    using assms(1,2) by (cases "pl_slots p"; auto simp: pool_ready_def lent_def same_frame_def)+
  have rel: "ConnectionPool_release c (cl_pool cl, w) = (Return (), (?p, w))"
    using up pool by (simp add: ConnectionPool_release_def slot_put_def pbind_def pget_def)
  then have cls: "Client_stream_close g (cl, w) = ((Return (), g\<lparr>sm_state := Done\<rparr>), (cl\<lparr>cl_pool := ?p\<rparr>, w))"
    using assms(3) by (simp add: Client_stream_close_def generator_close_def generator_leave_def)
  have "home p ?p"
    using sync_pool.release_home [OF assms(1,2) rel] by simp
  then have ready: "pool_ready (cl_pool (cl\<lparr>cl_pool := ?p\<rparr>))" using home_ready [OF assms(1)] by simp
  have "Client_deadline timeout (cl\<lparr>cl_pool := ?p\<rparr>, w) = (Return dl, (cl\<lparr>cl_pool := ?p\<rparr>, w))"
    using assms(5) by (cases timeout) (simp_all add: Client_deadline_def pget_def)
  from call_answer [OF assms(4) ready _ this assms(6-8), of "pl_slots (cl_pool cl)" parse]
  have "fst (client_call (encode_request q) parse timeout (cl\<lparr>cl_pool := ?p\<rparr>, w)) =
      (case parse event of Inl e \<Rightarrow> Raise e | Inr x \<Rightarrow> Return x)" by auto
  with cls show ?thesis
    by (intro exI [of _ "cl\<lparr>cl_pool := ?p\<rparr>"] exI [of _ "g\<lparr>sm_state := Done\<rparr>"]) simp
qed

section \<open>Concrete instances\<close>

text \<open>Two events on the connection on top of the pool, then the end of what the server sends.\<close>

definition sample_events :: "arrival list" where
  "sample_events = [Chunk 0 (map byte_of [0, 0, 0, 10]), Chunk 0 ''ok|k;1;2;3'',
     Chunk 0 (map byte_of [0, 0, 0, 10] @ ''ok|k;1;3;2'')]"

definition sample_subscriber :: connection where
  "sample_subscriber = sample_connection (sample_sock sample_events [])"

definition sample_subscribe :: Command where
  "sample_subscribe = \<lparr>payload = ''STREAM'', read_only = True\<rparr>"

lemmas stream_eval = sample_events_def sample_subscriber_def sample_subscribe_def

lemma sample_event: "parse_limit_event ''ok|k;1;2;3'' =
    Inr \<lparr>le_key = field_text ''k'', le_window = 1, le_current = 2, le_reset_after = 3\<rparr>"
  "parse_limit_event ''ok|k;1;3;2'' =
    Inr \<lparr>le_key = field_text ''k'', le_window = 1, le_current = 3, le_reset_after = 2\<rparr>"
  by (simp_all add: parse_limit_event_def answer_eval)

theorem stream_owns_one_slot_witness:
  "\<exists>g cl v. Client_stream_close \<lparr>sm_command = sample_subscribe, sm_parse = parse_limit_event,
      sm_should_stop = None, sm_state = Suspended sample_subscriber\<rparr>
      (sample_client [], sample_world []) = ((Return (), g), (cl, v)) \<and>
    home (sample_pool [None]) (cl_pool cl)"
proof -
  let ?g = "\<lparr>sm_command = sample_subscribe, sm_parse = parse_limit_event, sm_should_stop = None,
    sm_state = Suspended sample_subscriber\<rparr>"
  obtain g cl v where run: "Client_stream_close ?g (sample_client [], sample_world []) = ((Return (), g), (cl, v))"
    and g: "sm_state g = Done"
    by (simp add: Client_stream_close_def generator_close_def generator_leave_def sample_client_def sample_pool_def
        ConnectionPool_release_def slot_put_def pbind_def pget_def)
  have "pool_ready (sample_pool [None])" "stream_slot (sample_pool [None]) ?g (cl_pool (sample_client []))"
    by (simp_all add: sample_client_def sample_pool_def pool_ready_def slot_live_def stream_slot_def lent_def same_frame_def)
  from stream_owns_one_slot [OF this disjI2, OF conjI, OF run] g run show ?thesis
    by (auto simp: stream_slot_def)
qed

theorem stream_yields_events_in_order_witness:
  "\<exists>g v. stream_take 2 (Client_stream sample_subscribe parse_limit_event None)
      (sample_client [Some sample_subscriber], sample_world []) =
    ([\<lparr>le_key = field_text ''k'', le_window = 1, le_current = 2, le_reset_after = 3\<rparr>,
      \<lparr>le_key = field_text ''k'', le_window = 1, le_current = 3, le_reset_after = 2\<rparr>], g, v)"
proof -
  let ?cl = "sample_client [Some sample_subscriber]"
  have "pool_ready (cl_pool ?cl)" "pl_slots (cl_pool ?cl) = Some sample_subscriber # []"
    "can_send sample_subscribe (Deadline_new None 0) (sample_subscriber, sample_world [])"
    "framed [''ok|k;1;2;3'', ''ok|k;1;3;2''] (cn_max_message_size sample_subscriber)"
    "incoming (sample_subscriber, sample_world []) = wire [''ok|k;1;2;3'', ''ok|k;1;3;2''] @ []"
    by (simp_all add: sample_client_def sample_pool_def pool_ready_def slot_live_def Connection_closed_def
        stream_eval sample_call_eval)
  from stream_yields_events_in_order [OF this, of parse_limit_event] show ?thesis
    by (auto simp: sample_event numeral_2_eq_2)
qed

text \<open>The server closes the connection and is gone; the stream waits for its next event.\<close>

theorem stream_reconnects_finitely_witness:
  "\<exists>g cl w. Client_stream_next \<lparr>sm_command = sample_subscribe, sm_parse = parse_limit_event,
      sm_should_stop = None, sm_state = Suspended (sample_connection (sample_sock [Eof 0] []))\<rparr>
      (sample_client [], sample_world [Refused 1]) = ((Raise (Exc PyOverflowError), g), (cl, w)) \<and>
    dialled w = 1024"
proof -
  let ?c = "sample_connection (sample_sock [Eof 0] [])"
  let ?g = "\<lparr>sm_command = sample_subscribe, sm_parse = parse_limit_event, sm_should_stop = None,
    sm_state = Suspended ?c\<rparr>"
  have ready: "pool_ready (sample_pool [None])" "lent (sample_pool [None]) (cl_pool (sample_client []))"
    by (simp_all add: sample_client_def sample_pool_def pool_ready_def slot_live_def lent_def same_frame_def)
  have out: "outage (sm_command ?g) (?c, sample_world [Refused 1])"
    by (simp add: outage_def refused_def sample_address sample_subscribe_def sample_defs)
  have read: "fst (Connection_stream_next None (?c, sample_world [Refused 1])) = Raise (Exc FQConnectionError)"
    by (simp add: Connection_stream_next_def sample_eval)
  have policy: "cl_reconnect (sample_client []) = default_policy" by (simp add: sample_client_def)
  have grows: "rp_max_attempts (cl_reconnect (sample_client [])) = Some 0 \<or> 1 < rp_multiplier (cl_reconnect (sample_client []))"
    by (simp add: sample_client_def default_policy_def)
  have "dialled (sample_world [Refused 1]) = 0" by (simp add: dialled_def sample_world_def)
  with stream_reconnects_finitely [OF grows, of ?g, THEN conjunct2, THEN conjunct2, rule_format,
      OF _ conjI [OF _ conjI [OF policy conjI [OF ready(1) conjI [OF ready(2) conjI [OF out conjI [OF read lost]]]]]]]
  show ?thesis by simp blast
qed

theorem closed_stream_answers_next_call_witness:
  "\<exists>cl g. Client_stream_close \<lparr>sm_command = sample_subscribe, sm_parse = parse_limit_event,
      sm_should_stop = None, sm_state = Suspended sample_subscriber\<rparr>
      (sample_client [], sample_world []) = ((Return (), g), (cl, sample_world [])) \<and>
    fst (Client_incr sample_key DEFAULT (cl, sample_world [])) = Raise (Exc CorruptedResponseError)"
proof -
  let ?g = "\<lparr>sm_command = sample_subscribe, sm_parse = parse_limit_event, sm_should_stop = None,
    sm_state = Suspended sample_subscriber\<rparr>"
  have "pool_ready (sample_pool [None])" "lent (sample_pool [None]) (cl_pool (sample_client []))"
    "sm_state ?g = Suspended sample_subscriber"
    "Client_deadline DEFAULT (sample_client [], sample_world []) = (Return \<lparr>dl_at = Some 5\<rparr>, (sample_client [], sample_world []))"
    "can_send sample_command \<lparr>dl_at = Some 5\<rparr> (sample_subscriber, sample_world [])"
    "framed [''ok|k;1;2;3''] (cn_max_message_size sample_subscriber)"
    "incoming (sample_subscriber, sample_world []) = wire [''ok|k;1;2;3''] @ map byte_of [0, 0, 0, 10] @ ''ok|k;1;3;2''"
    by (simp_all add: sample_client_def sample_pool_def pool_ready_def slot_live_def lent_def same_frame_def
        Client_deadline_def pget_def Deadline_new_def stream_eval sample_call_eval)
  moreover have "parse_value ''ok|k;1;2;3'' = Inl (Exc CorruptedResponseError)"
    by (simp add: parse_value_def answer_eval)
  ultimately show ?thesis
    using closed_stream_answers_next_call [of "sample_pool [None]" "sample_client []" ?g sample_subscriber
        "Incr sample_key" sample_command DEFAULT "sample_world []" "\<lparr>dl_at = Some 5\<rparr>" "''ok|k;1;2;3''"
        "map byte_of [0, 0, 0, 10] @ ''ok|k;1;3;2''" parse_value] sample_incr
    by (auto simp: Client_incr_def)
qed

end
