(* ===== verification/Sharded.thy ===== *)
theory Sharded
  imports Effects Network Sharding
begin

text \<open>
  The logic that \<open>fq/sync/sharded.py\<close> and \<open>fq/aio/sharded.py\<close> share, over any kind of shard client
  \<open>'c\<close>: routing by key, \<open>mdelete\<close> split by shard and put together again, the scan that walks from shard
  to shard, and the commands sent to every shard in turn. The state is the client's list of shards and
  the world they all talk to.
\<close>

record 'c sharded =
  sh_func :: sharding_func
  sh_shards :: "'c list"

type_synonym 'c shstate = "'c sharded \<times> world"

definition on_shard :: "nat \<Rightarrow> ('c \<times> world, 'a) prog \<Rightarrow> ('c shstate, 'a) prog" where
  "on_shard i m = (\<lambda>(sc, w). case m (sh_shards sc ! i, w) of
      (r, (c, w')) \<Rightarrow> (r, (sc\<lparr>sh_shards := (sh_shards sc)[i := c]\<rparr>, w')))"

definition shard_count :: "'c sharded \<Rightarrow> nat" where
  "shard_count sc = length (sh_shards sc)"

definition index_of :: "'c sharded \<Rightarrow> pystr \<Rightarrow> nat result" where
  "index_of sc key = resolve_shard key (int (length (sh_shards sc))) (sh_func sc)"

definition by_key :: "pystr \<Rightarrow> ('c \<times> world, 'a) prog \<Rightarrow> ('c shstate, 'a) prog" where
  "by_key key m = pbind (pget (\<lambda>(sc, w). index_of sc key)) (\<lambda>r. pbind (plift r) (\<lambda>i. on_shard i m))"

text \<open>\<open>shard(index)\<close>: the position of the client it returns.\<close>

definition shard_at :: "'c sharded \<Rightarrow> int \<Rightarrow> nat result" where
  "shard_at sc index = (if index < 0 \<or> index \<ge> int (length (sh_shards sc)) then Inl (Exc ShardIndexError)
     else Inr (nat index))"

section \<open>Deleting a batch\<close>

fun place :: "(nat \<times> CappingKey) list \<Rightarrow> bool list \<Rightarrow> bool list \<Rightarrow> bool list" where
  "place ((position, k) # xs) (r # rs) results = place xs rs (results[position := r])"
| "place _ _ results = results"

fun mdelete_groups ::
  "(CappingKey list \<Rightarrow> ('c \<times> world, bool list) prog) \<Rightarrow> groups \<Rightarrow> bool list \<Rightarrow> ('c shstate, bool list) prog" where
  "mdelete_groups mdel [] results = pret results"
| "mdelete_groups mdel ((index, xs) # gs) results = pbind (on_shard index (mdel (map snd xs))) (\<lambda>rs.
     if length rs \<noteq> length xs then praise (Exc PyValueError)
     else mdelete_groups mdel gs (place xs rs results))"

definition sharded_mdelete ::
  "(CappingKey list \<Rightarrow> ('c \<times> world, bool list) prog) \<Rightarrow> CappingKey list \<Rightarrow> ('c shstate, bool list) prog" where
  "sharded_mdelete mdel keys = pbind (pget (\<lambda>(sc, w). group_by_shard keys (index_of sc))) (\<lambda>r.
     pbind (plift r) (\<lambda>gs. mdelete_groups mdel gs (replicate (length keys) False)))"

section \<open>Scanning across shards\<close>

text \<open>The loop of \<open>_walk\<close>; \<open>index\<close> grows on every round, so it ends.\<close>

function walk_loop ::
  "(nat \<Rightarrow> pystr \<Rightarrow> int \<Rightarrow> ('s, ScanResult) prog) \<Rightarrow> nat \<Rightarrow> int \<Rightarrow> nat \<Rightarrow> pystr \<Rightarrow> ScanKey list \<Rightarrow>
   ('s, ScanResult) prog" where
  "walk_loop scan_shard n count index shard_cursor keys s =
     (if index < n \<and> int (length keys) < count then
        case scan_shard index shard_cursor (count - int (length keys)) s of
          (Raise e, t) \<Rightarrow> (Raise e, t)
        | (Blocked, t) \<Rightarrow> (Blocked, t)
        | (Return page, t) \<Rightarrow>
            if sr_cursor page \<noteq> SCAN_CURSOR_INITIAL
            then (Return \<lparr>sr_cursor = make_shard_cursor index (sr_cursor page) n,
                          sr_keys = keys @ sr_keys page\<rparr>, t)
            else walk_loop scan_shard n count (index + 1) SCAN_CURSOR_INITIAL (keys @ sr_keys page) t
      else (Return \<lparr>sr_cursor = make_shard_cursor index SCAN_CURSOR_INITIAL n, sr_keys = keys\<rparr>, s))"
  by pat_completeness auto
termination by (relation "measure (\<lambda>(scan_shard, n, count, index, shard_cursor, keys, s). n - index)") auto

declare walk_loop.simps [simp del]

definition sharded_walk ::
  "pystr \<Rightarrow> int \<Rightarrow> (nat \<Rightarrow> pystr \<Rightarrow> int \<Rightarrow> ('c shstate, ScanResult) prog) \<Rightarrow> ('c shstate, ScanResult) prog" where
  "sharded_walk cursor count scan_shard = pbind (pget (\<lambda>(sc, w). length (sh_shards sc))) (\<lambda>n.
     pbind (plift (parse_shard_cursor cursor n)) (\<lambda>(index, shard_cursor).
     walk_loop scan_shard n count index shard_cursor []))"

section \<open>Every shard in turn\<close>

fun each_shard :: "('c \<times> world, 'a) prog \<Rightarrow> nat list \<Rightarrow> ('c shstate, 'a list) prog" where
  "each_shard m [] = pret []"
| "each_shard m (i # is) = pbind (on_shard i m) (\<lambda>x. pbind (each_shard m is) (\<lambda>xs. pret (x # xs)))"

definition all_shards :: "('c \<times> world, 'a) prog \<Rightarrow> ('c shstate, 'a list) prog" where
  "all_shards m = pbind (pget (\<lambda>(sc, w). length (sh_shards sc))) (\<lambda>n. each_shard m [0..<n])"

definition all_true :: "('c \<times> world, bool) prog \<Rightarrow> ('c shstate, bool) prog" where
  "all_true m = pbind (all_shards m) (\<lambda>results. pret (list_all (\<lambda>x. x) results))"

section \<open>What they keep\<close>

text \<open>
  A property of the shards that every operation of one client keeps is kept by every operation of the
  sharded client. \<open>keeps_shards I m\<close>: \<open>m\<close> keeps \<open>I\<close> of every shard and their number, unless it never
  comes back.
\<close>

definition keeps_one :: "('c \<Rightarrow> bool) \<Rightarrow> ('c \<times> world, 'a) prog \<Rightarrow> bool" where
  "keeps_one I m \<longleftrightarrow> (\<forall>c w r c' w'. m (c, w) = (r, (c', w')) \<longrightarrow> I c \<longrightarrow> r \<noteq> Blocked \<longrightarrow> I c')"

definition keeps_shards :: "('c \<Rightarrow> bool) \<Rightarrow> ('c shstate, 'a) prog \<Rightarrow> bool" where
  "keeps_shards I m \<longleftrightarrow> (\<forall>s r t. m s = (r, t) \<longrightarrow> list_all I (sh_shards (fst s)) \<longrightarrow> r \<noteq> Blocked \<longrightarrow>
     list_all I (sh_shards (fst t)) \<and> length (sh_shards (fst t)) = length (sh_shards (fst s)) \<and>
     sh_func (fst t) = sh_func (fst s))"

lemma keeps_shardsD:
  "keeps_shards I m \<Longrightarrow> m s = (r, t) \<Longrightarrow> list_all I (sh_shards (fst s)) \<Longrightarrow> r \<noteq> Blocked \<Longrightarrow>
     list_all I (sh_shards (fst t)) \<and> length (sh_shards (fst t)) = length (sh_shards (fst s)) \<and>
     sh_func (fst t) = sh_func (fst s)"
  unfolding keeps_shards_def by metis

lemma keeps_shardsI:
  "(\<And>s r t. m s = (r, t) \<Longrightarrow> list_all I (sh_shards (fst s)) \<Longrightarrow> r \<noteq> Blocked \<Longrightarrow>
     list_all I (sh_shards (fst t)) \<and> length (sh_shards (fst t)) = length (sh_shards (fst s)) \<and>
     sh_func (fst t) = sh_func (fst s)) \<Longrightarrow> keeps_shards I m"
  unfolding keeps_shards_def by metis

named_theorems shard_rules

lemma keeps_shards_pure [shard_rules]:
  "keeps_shards I (pret x)" "keeps_shards I (praise e)" "keeps_shards I (plift q)" "keeps_shards I (pget f)"
  by (auto intro!: keeps_shardsI simp: pret_def praise_def plift_def pget_def split: sum.splits)

lemma keeps_shards_bind [shard_rules]:
  assumes "keeps_shards I m" and "\<And>x. keeps_shards I (k x)"
  shows "keeps_shards I (pbind m k)"
proof (rule keeps_shardsI)
  fix s r t
  assume run: "pbind m k s = (r, t)" and I: "list_all I (sh_shards (fst s))" and r: "r \<noteq> Blocked"
  obtain a u where m: "m s = (a, u)" by (cases "m s")
  show "list_all I (sh_shards (fst t)) \<and> length (sh_shards (fst t)) = length (sh_shards (fst s)) \<and>
      sh_func (fst t) = sh_func (fst s)"
  proof (cases a)
    case (Return x)
    then have k: "k x u = (r, t)" using run m by (simp add: pbind_def)
    have u: "list_all I (sh_shards (fst u)) \<and> length (sh_shards (fst u)) = length (sh_shards (fst s)) \<and>
        sh_func (fst u) = sh_func (fst s)"
      using keeps_shardsD [OF assms(1) m I] Return by simp
    then show ?thesis using keeps_shardsD [OF assms(2) k _ r] by simp
  qed (use run m r keeps_shardsD [OF assms(1) m I] in \<open>auto simp: pbind_def\<close>)
qed

lemma keeps_shards_if [shard_rules]:
  "keeps_shards I m \<Longrightarrow> keeps_shards I m' \<Longrightarrow> keeps_shards I (if b then m else m')"
  by simp

lemma on_shard_run:
  "on_shard i m (sc, w) = (r, (sc', w')) \<longleftrightarrow>
     (\<exists>c. m (sh_shards sc ! i, w) = (r, (c, w')) \<and> sc' = sc\<lparr>sh_shards := (sh_shards sc)[i := c]\<rparr>)"
  by (auto simp: on_shard_def split: prod.split)

lemma keeps_on_shard [shard_rules]: "keeps_one I m \<Longrightarrow> keeps_shards I (on_shard i m)"
proof (rule keeps_shardsI, goal_cases)
  case (1 s r t)
  obtain sc w where s: "s = (sc, w)" by (cases s)
  obtain sc' w' where t: "t = (sc', w')" by (cases t)
  from 1(2) obtain c where c: "m (sh_shards sc ! i, w) = (r, (c, w'))" "sc' = sc\<lparr>sh_shards := (sh_shards sc)[i := c]\<rparr>"
    unfolding s t on_shard_run by blast
  show ?case
  proof (cases "i < length (sh_shards sc)")
    case True
    then have "I (sh_shards sc ! i)" using 1(3) s by (simp add: list_all_length)
    then have "I c" using 1(1,4) c(1) unfolding keeps_one_def by blast
    then show ?thesis using 1(3) s t c(2) True by (simp add: list_all_length nth_list_update)
  qed (use 1(3) s t c(2) in \<open>simp add: list_update_beyond\<close>)
qed

lemma keeps_by_key [shard_rules]: "keeps_one I m \<Longrightarrow> keeps_shards I (by_key key m)"
  unfolding by_key_def by (intro shard_rules)

lemma keeps_mdelete [shard_rules]: "(\<And>ks. keeps_one I (mdel ks)) \<Longrightarrow> keeps_shards I (sharded_mdelete mdel keys)"
proof -
  assume m: "\<And>ks. keeps_one I (mdel ks)"
  have "keeps_shards I (mdelete_groups mdel gs results)" for gs results
  proof (induction gs arbitrary: results)
    case (Cons g gs)
    then show ?case by (cases g) (simp, intro shard_rules m Cons.IH)
  qed (simp, intro shard_rules)
  then show ?thesis unfolding sharded_mdelete_def by (intro shard_rules)
qed

lemma keeps_walk_loop:
  assumes "\<And>i c k. keeps_shards I (scan_shard i c k)"
  shows "keeps_shards I (walk_loop scan_shard n count index shard_cursor keys)"
proof (rule keeps_shardsI)
  fix s r t
  show "walk_loop scan_shard n count index shard_cursor keys s = (r, t) \<Longrightarrow> list_all I (sh_shards (fst s)) \<Longrightarrow>
    r \<noteq> Blocked \<Longrightarrow> list_all I (sh_shards (fst t)) \<and> length (sh_shards (fst t)) = length (sh_shards (fst s)) \<and>
      sh_func (fst t) = sh_func (fst s)"
    using assms
  proof (induction scan_shard n count index shard_cursor keys s arbitrary: r t rule: walk_loop.induct)
    case (1 scan_shard n count index shard_cursor keys s)
    show ?case
    proof (cases "index < n \<and> int (length keys) < count")
      case True
      obtain a u where a: "scan_shard index shard_cursor (count - int (length keys)) s = (a, u)"
        by (metis prod.exhaust)
      show ?thesis
      proof (cases a)
        case (Return page)
        note u = keeps_shardsD [OF 1(5) a 1(3)]
        show ?thesis
        proof (cases "sr_cursor page = SCAN_CURSOR_INITIAL")
          case same: True
          then have "walk_loop scan_shard n count (index + 1) SCAN_CURSOR_INITIAL (keys @ sr_keys page) u = (r, t)"
            using 1(2) True a Return by (simp add: walk_loop.simps [of scan_shard n count index])
          from 1(1) [OF True a [symmetric] Return _ this _ 1(4,5)] u Return same show ?thesis by simp
        next
          case False
          with 1(2) True a Return u show ?thesis by (simp add: walk_loop.simps [of scan_shard n count index])
        qed
      qed (use 1(2,4) True a keeps_shardsD [OF 1(5) a 1(3)] in
          \<open>simp_all add: walk_loop.simps [of scan_shard n count index]\<close>)
    qed (use 1(2,3) in \<open>auto simp: walk_loop.simps [of scan_shard n count index]\<close>)
  qed
qed

lemma keeps_walk [shard_rules]:
  assumes "\<And>i c k. keeps_shards I (scan_shard i c k)"
  shows "keeps_shards I (sharded_walk cursor count scan_shard)"
  unfolding sharded_walk_def case_prod_unfold by (intro shard_rules keeps_walk_loop assms)

lemma keeps_all_shards [shard_rules]: "keeps_one I m \<Longrightarrow> keeps_shards I (all_shards m)"
proof -
  assume m: "keeps_one I m"
  have "keeps_shards I (each_shard m is)" for "is" by (induction "is") (simp_all, intro shard_rules, intro shard_rules m)
  then show ?thesis unfolding all_shards_def by (intro shard_rules)
qed

lemma keeps_all_true [shard_rules]: "keeps_one I m \<Longrightarrow> keeps_shards I (all_true m)"
  unfolding all_true_def by (intro shard_rules)

end
