(* ===== verification/ShardedFacts.thy ===== *)
theory ShardedFacts
  imports Sharded "HOL-Library.Multiset"
begin

text \<open>
  What the sharded operations compute, over any kind of shard client: a batch comes back in input
  order, a walk over the shards is a walk over the concatenation of their lists, a command for every
  shard reaches every shard.
\<close>

section \<open>Batches\<close>

text \<open>The answers the shards gave to their groups, one after the other.\<close>

fun group_replies ::
  "(CappingKey list \<Rightarrow> ('c \<times> world, bool list) prog) \<Rightarrow> groups \<Rightarrow> bool list list \<Rightarrow>
   'c shstate \<Rightarrow> 'c shstate \<Rightarrow> bool" where
  "group_replies mdel [] [] s t \<longleftrightarrow> t = s"
| "group_replies mdel ((i, xs) # gs) (rs # rss) s t \<longleftrightarrow>
     (\<exists>u. on_shard i (mdel (map snd xs)) s = (Return rs, u) \<and> length rs = length xs \<and>
       group_replies mdel gs rss u t)"
| "group_replies mdel _ _ s t \<longleftrightarrow> False"

lemma length_place [simp]: "length (place xs rs results) = length results"
  by (induction xs rs results rule: place.induct) simp_all

lemma place_other: "p \<notin> fst ` set xs \<Longrightarrow> place xs rs results ! p = results ! p"
  by (induction xs rs results rule: place.induct) auto

lemma place_nth:
  "length rs = length xs \<Longrightarrow> distinct (map fst xs) \<Longrightarrow> \<forall>(p, k) \<in> set xs. p < length results \<Longrightarrow>
     map (\<lambda>(p, k). place xs rs results ! p) xs = rs"
proof (induction xs rs results rule: place.induct)
  case (1 position k xs r rs results)
  then have "map (\<lambda>(p, k). place xs rs (results[position := r]) ! p) xs = rs" by auto
  moreover have "place xs rs (results[position := r]) ! position = r"
    using 1(2-4) by (subst place_other) auto
  ultimately show ?case by simp
qed auto

text \<open>Groups whose positions are all different and within the batch.\<close>

definition positions :: "groups \<Rightarrow> nat list" where
  "positions gs = concat (map (\<lambda>(i, xs). map fst xs) gs)"

lemma mdelete_groups_replies:
  assumes "mdelete_groups mdel gs results s = (Return bs, t)"
    and "distinct (positions gs)" and "\<forall>p \<in> set (positions gs). p < length results"
  shows "length bs = length results \<and> (\<forall>p. p \<notin> set (positions gs) \<longrightarrow> bs ! p = results ! p) \<and>
    group_replies mdel gs (map (\<lambda>(i, xs). map (\<lambda>(p, k). bs ! p) xs) gs) s t"
  using assms
proof (induction gs arbitrary: results s)
  case (Cons g gs)
  obtain i xs where g: "g = (i, xs)" by (cases g)
  obtain rs u where u: "on_shard i (mdel (map snd xs)) s = (Return rs, u)" "length rs = length xs"
    "mdelete_groups mdel gs (place xs rs results) u = (Return bs, t)"
    using Cons.prems(1) g by (auto simp: pbind_eq_Return praise_def split: if_splits)
  have d: "distinct (map fst xs)" "distinct (positions gs)" "set (map fst xs) \<inter> set (positions gs) = {}"
    using Cons.prems(2) g by (auto simp: positions_def)
  have IH: "length bs = length results" "\<And>p. p \<notin> set (positions gs) \<Longrightarrow> bs ! p = place xs rs results ! p"
    "group_replies mdel gs (map (\<lambda>(i, xs). map (\<lambda>(p, k). bs ! p) xs) gs) u t"
    using Cons.IH [OF u(3) d(2)] Cons.prems(3) g by (auto simp: positions_def)
  have "map (\<lambda>(p, k). bs ! p) xs = map (\<lambda>(p, k). place xs rs results ! p) xs"
    using IH(2) d(3) by (force intro!: map_cong)
  also have "\<dots> = rs"
  proof (rule place_nth [OF u(2) d(1)])
    have "p < length results" if "(p, k) \<in> set xs" for p k
      using Cons.prems(3) g that by (force simp: positions_def)
    then show "\<forall>(p, k) \<in> set xs. p < length results" by blast
  qed
  finally have "map (\<lambda>(p, k). bs ! p) xs = rs" .
  moreover have "bs ! p = results ! p" if "p \<notin> set (positions (g # gs))" for p
    using that IH(2) g place_other [of p xs rs results] by (auto simp: positions_def)
  ultimately show ?case using IH(1,3) u g by auto
qed (simp add: pret_def positions_def)

lemma grouped_positions:
  assumes "group_by_shard keys resolve = Inr gs"
  shows "mset (positions gs) = mset [0..<length keys] \<and>
    (\<forall>(i, xs) \<in> set gs. \<forall>(p, k) \<in> set xs. p < length keys \<and> keys ! p = k \<and> resolve (ck_key k) = Inr i)"
proof -
  have append: "mset (positions (setdefault_append i (p, k) gs)) = add_mset p (mset (positions gs))" for i p k gs
    by (induction i "(p, k)" gs rule: setdefault_append.induct) (auto simp: positions_def)
  have ok: "(\<forall>(j, ys) \<in> set (setdefault_append i x gs). \<forall>y \<in> set ys. P j y)"
    if "\<forall>(j, ys) \<in> set gs. \<forall>y \<in> set ys. P j y" "P i x" for i x gs and P :: "nat \<Rightarrow> nat \<times> CappingKey \<Rightarrow> bool"
    using that by (induction i x gs rule: setdefault_append.induct) auto
  let ?P = "\<lambda>ks0 j (p, k). p < length ks0 \<and> ks0 ! p = k \<and> resolve (ck_key k) = Inr j"
  have "mset (positions gs) = mset (positions gs0) + mset [length done..<length done + length ks] \<and>
      (\<forall>(j, ys) \<in> set gs. \<forall>y \<in> set ys. ?P (done @ ks) j y)"
    if "group_from (length done) ks resolve gs0 = Inr gs"
      "\<forall>(j, ys) \<in> set gs0. \<forall>y \<in> set ys. ?P done j y" for "done" ks gs0
    using that
  proof (induction ks arbitrary: "done" gs0)
    case (Cons k ks)
    obtain i where i: "resolve (ck_key k) = Inr i"
      "group_from (length (done @ [k])) ks resolve (setdefault_append i (length done, k) gs0) = Inr gs"
      using Cons.prems(1) by (auto simp: sbind_eq_Inr)
    have "\<forall>(j, ys) \<in> set gs0. \<forall>y \<in> set ys. ?P (done @ [k]) j y"
      using Cons.prems(2) by (fastforce simp: nth_append)
    then have "\<forall>(j, ys) \<in> set (setdefault_append i (length done, k) gs0). \<forall>y \<in> set ys. ?P (done @ [k]) j y"
      by (rule ok) (simp add: i(1))
    from Cons.IH [OF i(2) this] show ?case by (simp add: append upt_conv_Cons del: upt_Suc)
  qed simp
  from this [of "[]" keys "[]"] assms show ?thesis
    by (fastforce simp: group_by_shard_def positions_def)
qed

lemma sharded_mdelete_replies:
  assumes "sharded_mdelete mdel keys (sc, w) = (Return bs, t)"
  shows "\<exists>gs. group_by_shard keys (index_of sc) = Inr gs \<and> length bs = length keys \<and>
    group_replies mdel gs (map (\<lambda>(i, xs). map (\<lambda>(p, k). bs ! p) xs) gs) (sc, w) t \<and>
    (\<forall>p < length keys. \<exists>i xs. (i, xs) \<in> set gs \<and> (p, keys ! p) \<in> set xs \<and> index_of sc (ck_key (keys ! p)) = Inr i)"
proof -
  obtain gs where gs: "group_by_shard keys (index_of sc) = Inr gs"
    "mdelete_groups mdel gs (replicate (length keys) False) (sc, w) = (Return bs, t)"
    using assms by (auto simp: sharded_mdelete_def pbind_eq_Return pget_def)
  note pos = grouped_positions [OF gs(1)]
  have "distinct (positions gs)" using pos mset_eq_imp_distinct_iff distinct_upt by blast
  moreover have set_pos: "set (positions gs) = {0..<length keys}" using pos by (metis set_mset_mset set_upt)
  ultimately have "length bs = length keys"
    "group_replies mdel gs (map (\<lambda>(i, xs). map (\<lambda>(p, k). bs ! p) xs) gs) (sc, w) t"
    using mdelete_groups_replies [OF gs(2)] by auto
  moreover have "\<exists>i xs. (i, xs) \<in> set gs \<and> (p, keys ! p) \<in> set xs \<and> index_of sc (ck_key (keys ! p)) = Inr i"
    if "p < length keys" for p
  proof -
    have "p \<in> set (positions gs)" using that set_pos by simp
    then obtain i xs k where g: "(i, xs) \<in> set gs" "(p, k) \<in> set xs" by (auto simp: positions_def)
    with pos have "keys ! p = k" "index_of sc (ck_key k) = Inr i" by fastforce+
    with g show ?thesis by blast
  qed
  ultimately show ?thesis using gs(1) by blast
qed

section \<open>Walks\<close>

text \<open>
  A shard that scans a list which it keeps in cells, as a hash table does: the cursor \<open>cur off\<close> stands
  for the cells from \<open>off\<close> on, the initial one for all of them. Of a page nothing more is assumed than
  that it holds the entries of the next cells, and comes with the cursor behind them, or with the
  initial one when they are the last. It may be shorter or longer than was asked for, even empty, and
  the end may only show on the page after it; but every page that is not the last passes a cell.
\<close>

definition is_page :: "(nat \<Rightarrow> pystr) \<Rightarrow> ScanKey list list \<Rightarrow> nat \<Rightarrow> ScanResult \<Rightarrow> bool" where
  "is_page cur cells off page \<longleftrightarrow>
     sr_cursor page = SCAN_CURSOR_INITIAL \<and> sr_keys page = concat (drop off cells) \<or>
     (\<exists>m > 0. off + m \<le> length cells \<and> sr_cursor page = cur (off + m) \<and>
        sr_keys page = concat (take m (drop off cells)))"

definition scans_lists ::
  "('s \<Rightarrow> bool) \<Rightarrow> (nat \<Rightarrow> pystr \<Rightarrow> int \<Rightarrow> ('s, ScanResult) prog) \<Rightarrow> (nat \<Rightarrow> pystr) \<Rightarrow>
   ScanKey list list list \<Rightarrow> bool" where
  "scans_lists P scan_shard cur ls \<longleftrightarrow> cur 0 = SCAN_CURSOR_INITIAL \<and>
     (\<forall>off > 0. cur off \<noteq> SCAN_CURSOR_INITIAL \<and> cur off \<noteq> []) \<and>
     (\<forall>i < length ls. \<forall>off \<le> length (ls ! i). \<forall>n > 0. \<forall>s. P s \<longrightarrow>
        (\<exists>page t. scan_shard i (cur off) n s = (Return page, t) \<and> P t \<and> is_page cur (ls ! i) off page))"

lemma scans_lists_page:
  assumes "scans_lists P scan_shard cur ls" and "i < length ls" and "off \<le> length (ls ! i)" and "0 < n" and "P s"
  obtains page t where "scan_shard i (cur off) n s = (Return page, t)" and "P t" and "is_page cur (ls ! i) off page"
  using assms unfolding scans_lists_def by blast

text \<open>
  What is left from cell \<open>off\<close> of shard \<open>i\<close> on, over all shards: the entries, and how many steps from
  cell to cell or from shard to shard.
\<close>

definition at_place :: "ScanKey list list list \<Rightarrow> nat \<Rightarrow> nat \<Rightarrow> bool" where
  "at_place ls i off \<longleftrightarrow> i < length ls \<and> off \<le> length (ls ! i) \<or> i = length ls \<and> off = 0"

definition remaining :: "ScanKey list list list \<Rightarrow> nat \<Rightarrow> nat \<Rightarrow> ScanKey list" where
  "remaining ls i off = (if i < length ls then concat (drop off (ls ! i)) else []) @ concat (concat (drop (Suc i) ls))"

definition steps_left :: "ScanKey list list list \<Rightarrow> nat \<Rightarrow> nat \<Rightarrow> nat" where
  "steps_left ls i off = (if i < length ls then Suc (length (ls ! i)) - off else 0) +
     length (concat (drop (Suc i) ls)) + length (drop (Suc i) ls)"

lemma remaining_next: "i < length ls \<Longrightarrow> remaining ls i off = concat (drop off (ls ! i)) @ remaining ls (Suc i) 0"
  by (cases "Suc i < length ls") (simp_all add: remaining_def Cons_nth_drop_Suc [symmetric])

lemma steps_left_next:
  "i < length ls \<Longrightarrow> steps_left ls i off = Suc (length (ls ! i)) - off + steps_left ls (Suc i) 0"
  by (cases "Suc i < length ls") (simp_all add: steps_left_def Cons_nth_drop_Suc [symmetric])

lemma remaining_within:
  assumes "i < length ls" and "off + m \<le> length (ls ! i)"
  shows "remaining ls i off = concat (take m (drop off (ls ! i))) @ remaining ls i (off + m)"
proof -
  have "drop off (ls ! i) = take m (drop off (ls ! i)) @ drop (off + m) (ls ! i)"
    by (metis add.commute append_take_drop_id drop_drop)
  then have "concat (drop off (ls ! i)) = concat (take m (drop off (ls ! i))) @ concat (drop (off + m) (ls ! i))"
    by (metis concat_append)
  then show ?thesis using assms(1) by (simp add: remaining_def)
qed

lemma exI4: "Q a b c d \<Longrightarrow> \<exists>a b c d. Q a b c d"
  by blast

text \<open>Where the loop ends up: it has passed exactly the keys it returns, and it has moved on.\<close>

lemma walk_loop_pages:
  assumes "scans_lists P scan_shard cur ls" and "P s" and "at_place ls i off"
    and "i < length ls \<and> int (length acc) < limit \<or> off = 0"
  shows "\<exists>j off' used t. walk_loop scan_shard (length ls) limit i (cur off) acc s =
      (Return \<lparr>sr_cursor = make_shard_cursor j (cur off') (length ls), sr_keys = acc @ used\<rparr>, t) \<and>
    P t \<and> at_place ls j off' \<and> remaining ls i off = used @ remaining ls j off' \<and>
    steps_left ls j off' \<le> steps_left ls i off \<and>
    (i < length ls \<and> int (length acc) < limit \<longrightarrow> steps_left ls j off' < steps_left ls i off)"
  using assms(2-4)
proof (induction "length ls - i" arbitrary: i off acc s)
  case 0
  then have "i = length ls" "off = 0" by (auto simp: at_place_def)
  with 0 assms(1) show ?case
    by (subst walk_loop.simps) (auto simp: make_shard_cursor_def scans_lists_def)
next
  case (Suc d)
  have i: "i < length ls" using Suc.hyps(2) by simp
  have cur0: "cur 0 = SCAN_CURSOR_INITIAL" using assms(1) by (simp add: scans_lists_def)
  show ?case
  proof (cases "int (length acc) < limit")
    case False
    then have "off = 0" using Suc.prems(3) by simp
    then show ?thesis
      using Suc.prems False cur0
      by (intro exI4 [where a = i and b = 0 and c = "[]" and d = s]) (simp add: walk_loop.simps [of scan_shard])
  next
    case True
    have off: "off \<le> length (ls ! i)" using Suc.prems(2) i by (simp add: at_place_def)
    obtain page t where scan: "scan_shard i (cur off) (limit - int (length acc)) s = (Return page, t)" "P t"
      and page: "is_page cur (ls ! i) off page"
      using scans_lists_page [OF assms(1) i off, of "limit - int (length acc)" s] Suc.prems(1) True by auto
    from page consider
        (last) "sr_cursor page = SCAN_CURSOR_INITIAL" "sr_keys page = concat (drop off (ls ! i))"
      | (more) m where "0 < m" "off + m \<le> length (ls ! i)" "sr_cursor page = cur (off + m)"
          "sr_keys page = concat (take m (drop off (ls ! i)))"
      unfolding is_page_def by blast
    then show ?thesis
    proof cases
      case last
      have step: "walk_loop scan_shard (length ls) limit i (cur off) acc s =
          walk_loop scan_shard (length ls) limit (Suc i) (cur 0) (acc @ sr_keys page) t"
        using True i scan(1) last(1) by (subst walk_loop.simps) (simp add: cur0)
      have "d = length ls - Suc i" "at_place ls (Suc i) 0" using Suc.hyps(2) i by (auto simp: at_place_def)
      from Suc.hyps(1) [OF this(1) scan(2) this(2)] obtain j off' used u where r:
        "walk_loop scan_shard (length ls) limit (Suc i) (cur 0) (acc @ sr_keys page) t =
          (Return \<lparr>sr_cursor = make_shard_cursor j (cur off') (length ls), sr_keys = (acc @ sr_keys page) @ used\<rparr>, u)"
        "P u" "at_place ls j off'" "remaining ls (Suc i) 0 = used @ remaining ls j off'"
        "steps_left ls j off' \<le> steps_left ls (Suc i) 0" by blast
      moreover have "steps_left ls (Suc i) 0 < steps_left ls i off" using steps_left_next [OF i, of off] off by simp
      ultimately show ?thesis
        using step last(2) remaining_next [OF i, of off]
        by (intro exI4 [where a = j and b = off' and c = "sr_keys page @ used" and d = u]) simp
    next
      case more
      have "cur (off + m) \<noteq> SCAN_CURSOR_INITIAL" using assms(1) more(1) by (simp add: scans_lists_def)
      then have "walk_loop scan_shard (length ls) limit i (cur off) acc s =
          (Return \<lparr>sr_cursor = make_shard_cursor i (cur (off + m)) (length ls), sr_keys = acc @ sr_keys page\<rparr>, t)"
        using True i scan(1) more(3) by (subst walk_loop.simps) simp
      moreover have "at_place ls i (off + m)" using i more(2) by (simp add: at_place_def)
      moreover have "steps_left ls i (off + m) < steps_left ls i off"
        using i more(1,2) by (simp add: steps_left_def)
      ultimately show ?thesis
        using scan(2) more(4) remaining_within [OF i more(2)]
        by (intro exI4 [where a = i and b = "off + m" and c = "sr_keys page" and d = t]) simp
    qed
  qed
qed

lemma initial_cursor_plain: "0x3A \<notin> set SCAN_CURSOR_INITIAL"
  by (simp add: SCAN_CURSOR_INITIAL_def ustr_def)

text \<open>One page of the sharded scan, from a cursor that stands for a position.\<close>

definition stands_for :: "(nat \<Rightarrow> pystr) \<Rightarrow> ScanKey list list list \<Rightarrow> pystr \<Rightarrow> nat \<Rightarrow> nat \<Rightarrow> bool" where
  "stands_for cur ls c i off \<longleftrightarrow> i < length ls \<and> off \<le> length (ls ! i) \<and>
     (c = make_shard_cursor i (cur off) (length ls) \<or> c = SCAN_CURSOR_INITIAL \<and> i = 0 \<and> off = 0)"

lemma sharded_walk_page:
  assumes "scans_lists P scan_shard cur ls" and "P s" and "length (sh_shards (fst s)) = length ls"
    and "0 < limit" and "length ls < 10 ^ 20" and "stands_for cur ls c i off"
  shows "\<exists>page t. sharded_walk c limit scan_shard s = (Return page, t) \<and> P t \<and>
    (if sr_cursor page = SCAN_CURSOR_INITIAL then sr_keys page = remaining ls i off
     else \<exists>j off'. stands_for cur ls (sr_cursor page) j off' \<and>
       remaining ls i off = sr_keys page @ remaining ls j off' \<and> steps_left ls j off' < steps_left ls i off)"
proof -
  have cur: "cur off \<noteq> []" "cur 0 = SCAN_CURSOR_INITIAL" for off
    using assms(1) by (cases "off = 0"; simp add: scans_lists_def SCAN_CURSOR_INITIAL_def ustr_def)+
  have parse: "parse_shard_cursor c (length ls) = Inr (i, cur off)"
    using assms(5,6) cursor_roundtrip [of i "length ls" "cur off"] cur
    by (auto simp: stands_for_def parse_shard_cursor_def)
  have i: "i < length ls" "at_place ls i off" using assms(6) by (simp_all add: stands_for_def at_place_def)
  obtain j off' used t where r: "walk_loop scan_shard (length ls) limit i (cur off) [] s =
      (Return \<lparr>sr_cursor = make_shard_cursor j (cur off') (length ls), sr_keys = used\<rparr>, t)"
    "P t" "at_place ls j off'" "remaining ls i off = used @ remaining ls j off'"
    "steps_left ls j off' < steps_left ls i off"
    using walk_loop_pages [OF assms(1,2) i(2), of "[]" limit] assms(4) i(1) by auto
  let ?c = "make_shard_cursor j (cur off') (length ls)"
  have run: "sharded_walk c limit scan_shard s = (Return \<lparr>sr_cursor = ?c, sr_keys = used\<rparr>, t)"
    using r(1) parse assms(3) by (simp add: sharded_walk_def pbind_def pget_def case_prod_unfold)
  show ?thesis
  proof (cases "j < length ls")
    case True
    then have "?c \<noteq> SCAN_CURSOR_INITIAL"
      by (metis SHARD_CURSOR_SEPARATOR_def initial_cursor_plain in_set_conv_decomp make_shard_cursor_def not_le)
    moreover have "stands_for cur ls ?c j off'" using r(3) True by (simp add: stands_for_def at_place_def)
    ultimately show ?thesis using run r(2,4,5) by auto
  next
    case False
    then have "?c = SCAN_CURSOR_INITIAL" "remaining ls j off' = []"
      using r(3) by (simp_all add: make_shard_cursor_def remaining_def at_place_def)
    with run r(2,4) show ?thesis by auto
  qed
qed

text \<open>Asking for no keys loses the place within the shard: the cursor comes back at its start.\<close>

lemma walk_without_count_restarts_shard:
  assumes "parse_shard_cursor c (length (sh_shards (fst s))) = Inr (i, shard_cursor)" and "n \<le> 0"
  shows "sharded_walk c n scan_shard s =
    (Return \<lparr>sr_cursor = make_shard_cursor i SCAN_CURSOR_INITIAL (length (sh_shards (fst s))), sr_keys = []\<rparr>, s)"
  using assms by (simp add: sharded_walk_def pbind_def pget_def walk_loop.simps case_prod_unfold)

text \<open>A caller that scans from the initial cursor until the cursor is the initial one again.\<close>

fun scan_all :: "(pystr \<Rightarrow> ('s, ScanResult) prog) \<Rightarrow> nat \<Rightarrow> pystr \<Rightarrow> ('s, ScanKey list) prog" where
  "scan_all scan 0 c = pret []"
| "scan_all scan (Suc n) c = pbind (scan c) (\<lambda>page.
     if sr_cursor page = SCAN_CURSOR_INITIAL then pret (sr_keys page)
     else pbind (scan_all scan n (sr_cursor page)) (\<lambda>ks. pret (sr_keys page @ ks)))"

lemma scan_all_remaining:
  assumes "scans_lists P scan_shard cur ls" and "\<And>s. P s \<Longrightarrow> length (sh_shards (fst s)) = length ls"
    and "0 < limit" and "length ls < 10 ^ 20"
    and "P s" and "stands_for cur ls c i off" and "steps_left ls i off \<le> n"
  shows "\<exists>t. scan_all (\<lambda>c. sharded_walk c limit scan_shard) n c s = (Return (remaining ls i off), t)"
  using assms(5-7)
proof (induction n arbitrary: s c i off)
  case 0
  then show ?case by (simp add: stands_for_def steps_left_def)
next
  case (Suc n)
  from sharded_walk_page [OF assms(1) Suc.prems(1) assms(2) [OF Suc.prems(1)] assms(3,4) Suc.prems(2)]
  obtain page t where p: "sharded_walk c limit scan_shard s = (Return page, t)" "P t"
    "if sr_cursor page = SCAN_CURSOR_INITIAL then sr_keys page = remaining ls i off
     else \<exists>j off'. stands_for cur ls (sr_cursor page) j off' \<and>
       remaining ls i off = sr_keys page @ remaining ls j off' \<and> steps_left ls j off' < steps_left ls i off" by blast
  show ?case
  proof (cases "sr_cursor page = SCAN_CURSOR_INITIAL")
    case True
    with p show ?thesis by (simp add: pbind_def pret_def)
  next
    case False
    with p(3) obtain j off' where j: "stands_for cur ls (sr_cursor page) j off'"
      "remaining ls i off = sr_keys page @ remaining ls j off'" "steps_left ls j off' < steps_left ls i off" by auto
    then have "steps_left ls j off' \<le> n" using Suc.prems(3) by simp
    from Suc.IH [OF p(2) j(1) this] obtain u where
      "scan_all (\<lambda>c. sharded_walk c limit scan_shard) n (sr_cursor page) t = (Return (remaining ls j off'), u)"
      by blast
    with p(1) False j(2) show ?thesis by (simp add: pbind_def pret_def)
  qed
qed


text \<open>
  C13. A batch comes back in input order: when \<open>mdelete\<close> returns, it has asked each shard that owns a
  key exactly once, with all its keys in the order of the batch, no other shard at all, and the result
  at each position is what the shard that owns the key at that position answered for it.
\<close>

theorem sharded_mdelete_in_input_order:
  assumes "sharded_mdelete mdel keys (sc, w) = (Return bs, t)"
  shows "\<exists>gs. distinct (map fst gs) \<and> fst ` set gs = {i. \<exists>k \<in> set keys. index_of sc (ck_key k) = Inr i} \<and>
    (\<forall>(i, xs) \<in> set gs. xs = filter (\<lambda>(p, k). index_of sc (ck_key k) = Inr i) (enumerate 0 keys)) \<and>
    group_by_shard keys (index_of sc) = Inr gs \<and> length bs = length keys \<and>
    group_replies mdel gs (map (\<lambda>(i, xs). map (\<lambda>(p, k). bs ! p) xs) gs) (sc, w) t \<and>
    (\<forall>p < length keys. \<exists>i xs. (i, xs) \<in> set gs \<and> (p, keys ! p) \<in> set xs \<and> index_of sc (ck_key (keys ! p)) = Inr i)"
proof -
  obtain gs where gs: "group_by_shard keys (index_of sc) = Inr gs" "length bs = length keys"
    "group_replies mdel gs (map (\<lambda>(i, xs). map (\<lambda>(p, k). bs ! p) xs) gs) (sc, w) t"
    "\<forall>p < length keys. \<exists>i xs. (i, xs) \<in> set gs \<and> (p, keys ! p) \<in> set xs \<and> index_of sc (ck_key (keys ! p)) = Inr i"
    using sharded_mdelete_replies [OF assms] by blast
  with grouped_exactly [OF gs(1)] show ?thesis by blast
qed

section \<open>Concrete instances\<close>

text \<open>
  Two shards, whatever number of keys is asked for: a page is one cell, and one of the cells is empty.
  A cursor is as many letters as cells were passed.
\<close>

definition sample_lists :: "ScanKey list list list" where
  "sample_lists = [[[\<lparr>sk_key = ustr ''a'', sk_window = 1\<rparr>], [], [\<lparr>sk_key = ustr ''b'', sk_window = 1\<rparr>]],
     [[\<lparr>sk_key = ustr ''c'', sk_window = 2\<rparr>, \<lparr>sk_key = ustr ''d'', sk_window = 2\<rparr>]]]"

definition sample_cursor :: "nat \<Rightarrow> pystr" where
  "sample_cursor off = (if off = 0 then SCAN_CURSOR_INITIAL else replicate off 0x78)"

definition sample_scan :: "nat \<Rightarrow> pystr \<Rightarrow> int \<Rightarrow> (unit shstate, ScanResult) prog" where
  "sample_scan i c n = (let off = (if c = SCAN_CURSOR_INITIAL then 0 else length c); cells = sample_lists ! i in
     pret (if off < length cells then \<lparr>sr_cursor = sample_cursor (off + 1), sr_keys = cells ! off\<rparr>
       else \<lparr>sr_cursor = SCAN_CURSOR_INITIAL, sr_keys = []\<rparr>))"

definition sample_shards :: "unit shstate" where
  "sample_shards = (\<lparr>sh_func = \<lambda>key n. Inr (int (length key) mod n), sh_shards = [(), ()]\<rparr>,
     \<lparr>now = 0, dials = [], jitter = \<lambda>_. 0, draws = 0, trace = []\<rparr>)"

lemma sample_scans_lists: "scans_lists (\<lambda>s. length (sh_shards (fst s)) = 2) sample_scan sample_cursor sample_lists"
proof -
  have "0x78 \<notin> set SCAN_CURSOR_INITIAL" by (simp add: SCAN_CURSOR_INITIAL_def ustr_def)
  then have cur: "replicate off 0x78 \<noteq> SCAN_CURSOR_INITIAL" if "0 < off" for off
    using that by (metis in_set_replicate less_numeral_extra(3))
  have "is_page sample_cursor cells off \<lparr>sr_cursor = sample_cursor (off + 1), sr_keys = cells ! off\<rparr>"
    if "off < length cells" for cells off
    unfolding is_page_def using that by (intro disjI2 exI [of _ 1]) (simp add: take_Suc hd_drop_conv_nth)
  moreover have "is_page sample_cursor cells off \<lparr>sr_cursor = SCAN_CURSOR_INITIAL, sr_keys = []\<rparr>"
    if "length cells \<le> off" for cells off
    using that by (simp add: is_page_def)
  moreover have "(if sample_cursor off = SCAN_CURSOR_INITIAL then 0 else length (sample_cursor off)) = off" for off
    using cur by (simp add: sample_cursor_def)
  ultimately have "\<exists>page t. sample_scan i (sample_cursor off) n s = (Return page, t) \<and> t = s \<and>
      is_page sample_cursor (sample_lists ! i) off page" for i off n s
    by (simp add: sample_scan_def pret_def Let_def)
  then have "\<exists>page t. sample_scan i (sample_cursor off) n s = (Return page, t) \<and>
      length (sh_shards (fst t)) = 2 \<and> is_page sample_cursor (sample_lists ! i) off page"
    if "length (sh_shards (fst s)) = 2" for i off n s using that by metis
  moreover have "sample_cursor 0 = SCAN_CURSOR_INITIAL" by (simp add: sample_cursor_def)
  moreover have "sample_cursor off \<noteq> SCAN_CURSOR_INITIAL \<and> sample_cursor off \<noteq> []" if "0 < off" for off
    using cur [OF that] that by (simp add: sample_cursor_def)
  ultimately show ?thesis unfolding scans_lists_def by blast
qed


theorem sharded_mdelete_in_input_order_witness:
  "\<exists>t. sharded_mdelete (\<lambda>ks. pret (map (\<lambda>k. ck_capping k = 1) ks))
      [\<lparr>ck_key = [97], ck_capping = 1\<rparr>, \<lparr>ck_key = [98, 98], ck_capping = 2\<rparr>, \<lparr>ck_key = [99], ck_capping = 3\<rparr>]
      sample_shards = (Return [True, False, False], t) \<and> length [True, False, False] = 3"
proof -
  let ?keys = "[\<lparr>ck_key = [97], ck_capping = 1\<rparr>, \<lparr>ck_key = [98, 98], ck_capping = 2\<rparr>, \<lparr>ck_key = [99], ck_capping = 3\<rparr>]"
  obtain t where t: "sharded_mdelete (\<lambda>ks. pret (map (\<lambda>k. ck_capping k = 1) ks)) ?keys sample_shards =
      (Return [True, False, False], t)"
    by (simp add: sharded_mdelete_def group_by_shard_def index_of_def sample_shards_def resolve_shard_def
        pbind_def pget_def pret_def on_shard_def)
  from sharded_mdelete_in_input_order [OF t [unfolded sample_shards_def]] t show ?thesis by auto
qed

end
