(* ===== verification/ShardedClient.thy ===== *)
theory ShardedClient
  imports ClientFacts ClientStreams ShardedFacts
begin

text \<open>
  \<open>fq/sync/sharded.py\<close>: the sharded client over \<open>Client\<close>. Its state is \<open>Client shstate\<close>; every method is
  the shared operation of \<open>Sharded\<close> on the method of the shard's client. \<open>new_client\<close> is \<open>Client(address,
  **client_options)\<close>.
\<close>

section \<open>Opening and closing\<close>

fun close_clients :: "Client list \<Rightarrow> (world, unit) prog" where
  "close_clients [] = pret ()"
| "close_clients (c # cs) = (\<lambda>w. case Client_close (c, w) of
      (Return u, (c', w')) \<Rightarrow> close_clients cs w'
    | (Raise e, (c', w')) \<Rightarrow> (Raise e, w')
    | (Blocked, (c', w')) \<Rightarrow> (Blocked, w'))"

fun open_clients :: "(pystr \<Rightarrow> (world, Client) prog) \<Rightarrow> pystr list \<Rightarrow> Client list \<Rightarrow> (world, Client list) prog" where
  "open_clients new_client [] opened = pret opened"
| "open_clients new_client (address # addresses) opened =
     pbind (pcatch (new_client address) (\<lambda>e. pbind (close_clients opened) (\<lambda>_. praise e)))
       (\<lambda>c. open_clients new_client addresses (opened @ [c]))"

definition ShardedClient_new ::
  "(pystr \<Rightarrow> (world, Client) prog) \<Rightarrow> pystr list \<Rightarrow> sharding_func \<Rightarrow> (world, Client sharded) prog" where
  "ShardedClient_new new_client addresses func =
     (if addresses = [] then praise (Exc PyValueError)
      else pbind (open_clients new_client addresses []) (\<lambda>shards.
        pret \<lparr>sh_func = func, sh_shards = shards\<rparr>))"

definition ShardedClient_close :: "(Client shstate, unit) prog" where
  "ShardedClient_close = pbind (all_shards Client_close) (\<lambda>_. pret ())"

definition ShardedClient_shard_count :: "Client sharded \<Rightarrow> nat" where
  "ShardedClient_shard_count = shard_count"

definition ShardedClient_shard :: "Client sharded \<Rightarrow> int \<Rightarrow> nat result" where
  "ShardedClient_shard = shard_at"

section \<open>Routed by key or name\<close>

definition ShardedClient_incr :: "CappingKey \<Rightarrow> timeout \<Rightarrow> (Client shstate, int) prog" where
  "ShardedClient_incr k t = by_key (ck_key k) (Client_incr k t)"

definition ShardedClient_incrby :: "CappingKey \<Rightarrow> int \<Rightarrow> timeout \<Rightarrow> (Client shstate, int) prog" where
  "ShardedClient_incrby k value t = by_key (ck_key k) (Client_incrby k value t)"

definition ShardedClient_get :: "CappingKey \<Rightarrow> timeout \<Rightarrow> (Client shstate, int) prog" where
  "ShardedClient_get k t = by_key (ck_key k) (Client_get k t)"

definition ShardedClient_watch :: "CappingKey \<Rightarrow> timeout \<Rightarrow> (Client shstate, int) prog" where
  "ShardedClient_watch k t = by_key (ck_key k) (Client_watch k t)"

definition ShardedClient_delete :: "CappingKey \<Rightarrow> timeout \<Rightarrow> (Client shstate, bool) prog" where
  "ShardedClient_delete k t = by_key (ck_key k) (Client_delete k t)"

definition ShardedClient_rlimit_fixed_window ::
  "LimitKey \<Rightarrow> int \<Rightarrow> timeout \<Rightarrow> (Client shstate, RateLimitResult) prog" where
  "ShardedClient_rlimit_fixed_window k limit t = by_key (lk_key k) (Client_rlimit_fixed_window k limit t)"

definition ShardedClient_rlimit_sliding_window ::
  "LimitKey \<Rightarrow> int \<Rightarrow> timeout \<Rightarrow> (Client shstate, RateLimitResult) prog" where
  "ShardedClient_rlimit_sliding_window k limit t = by_key (lk_key k) (Client_rlimit_sliding_window k limit t)"

definition ShardedClient_rlimit_token_bucket ::
  "LimitKey \<Rightarrow> int \<Rightarrow> int \<Rightarrow> timeout \<Rightarrow> (Client shstate, RateLimitResult) prog" where
  "ShardedClient_rlimit_token_bucket k capacity refill_amount t =
     by_key (lk_key k) (Client_rlimit_token_bucket k capacity refill_amount t)"

definition ShardedClient_quota_set :: "pystr \<Rightarrow> int \<Rightarrow> timeout \<Rightarrow> (Client shstate, bool) prog" where
  "ShardedClient_quota_set name limit t = by_key name (Client_quota_set name limit t)"

definition ShardedClient_quota_set_n :: "pystr \<Rightarrow> int \<Rightarrow> int \<Rightarrow> timeout \<Rightarrow> (Client shstate, bool) prog" where
  "ShardedClient_quota_set_n name limit clients t = by_key name (Client_quota_set_n name limit clients t)"

definition ShardedClient_quota_acquire ::
  "pystr \<Rightarrow> int \<Rightarrow> pystr \<Rightarrow> int option \<Rightarrow> timeout \<Rightarrow> (Client shstate, QuotaAcquireResult) prog" where
  "ShardedClient_quota_acquire name amount client_id ttl t =
     by_key name (Client_quota_acquire name amount client_id ttl t)"

definition ShardedClient_quota_acquire_n ::
  "pystr \<Rightarrow> pystr \<Rightarrow> int option \<Rightarrow> timeout \<Rightarrow> (Client shstate, QuotaAcquireResult) prog" where
  "ShardedClient_quota_acquire_n name client_id ttl t = by_key name (Client_quota_acquire_n name client_id ttl t)"

definition ShardedClient_quota_acquire_lease ::
  "pystr \<Rightarrow> int \<Rightarrow> int \<Rightarrow> pystr \<Rightarrow> int option \<Rightarrow> timeout \<Rightarrow> (Client shstate, QuotaAcquireResult) prog" where
  "ShardedClient_quota_acquire_lease name limit amount client_id ttl t =
     by_key name (Client_quota_acquire_lease name limit amount client_id ttl t)"

definition ShardedClient_quota_release :: "pystr \<Rightarrow> pystr \<Rightarrow> timeout \<Rightarrow> (Client shstate, bool) prog" where
  "ShardedClient_quota_release name client_id t = by_key name (Client_quota_release name client_id t)"

definition ShardedClient_quota_delete :: "pystr \<Rightarrow> timeout \<Rightarrow> (Client shstate, bool) prog" where
  "ShardedClient_quota_delete name t = by_key name (Client_quota_delete name t)"

definition ShardedClient_quota_info :: "pystr \<Rightarrow> timeout \<Rightarrow> (Client shstate, QuotaInfo) prog" where
  "ShardedClient_quota_info name t = by_key name (Client_quota_info name t)"

section \<open>Batches, scans and commands for every shard\<close>

definition ShardedClient_mdelete :: "CappingKey list \<Rightarrow> timeout \<Rightarrow> (Client shstate, bool list) prog" where
  "ShardedClient_mdelete keys t = sharded_mdelete (\<lambda>ks. Client_mdelete ks t) keys"

definition ShardedClient_scan :: "int \<Rightarrow> pystr \<Rightarrow> timeout \<Rightarrow> (Client shstate, ScanResult) prog" where
  "ShardedClient_scan n cursor t =
     sharded_walk cursor n (\<lambda>i shard_cursor remaining. on_shard i (Client_scan remaining shard_cursor t))"

definition ShardedClient_pscan :: "pystr \<Rightarrow> int \<Rightarrow> pystr \<Rightarrow> timeout \<Rightarrow> (Client shstate, ScanResult) prog" where
  "ShardedClient_pscan pfx n cursor t =
     sharded_walk cursor n (\<lambda>i shard_cursor remaining. on_shard i (Client_pscan pfx remaining shard_cursor t))"

definition ShardedClient_flushdb :: "timeout \<Rightarrow> (Client shstate, bool) prog" where
  "ShardedClient_flushdb t = all_true (Client_flushdb t)"

definition ShardedClient_truncate :: "timeout \<Rightarrow> (Client shstate, bool) prog" where
  "ShardedClient_truncate t = all_true (Client_truncate t)"

definition ShardedClient_inspect ::
  "(bytes \<Rightarrow> 'report result) \<Rightarrow> InspectSection \<Rightarrow> timeout \<Rightarrow> (Client shstate, 'report list) prog" where
  "ShardedClient_inspect parse_inspect section t = all_shards (Client_inspect parse_inspect section t)"

text \<open>
  The stream a worker of \<open>_fan_out\<close> opens on its shard; \<open>stop\<close> reads the flag the workers share. How the
  workers' events come together is the step relation of \<open>ShardedStreams\<close>.
\<close>

definition ShardedClient_stream :: "(world, bool) prog \<Rightarrow> LimitEvent stream result" where
  "ShardedClient_stream stop = Client_stream_polled stop"

definition ShardedClient_pstream :: "pystr \<Rightarrow> (world, bool) prog \<Rightarrow> LimitEvent stream result" where
  "ShardedClient_pstream pfx stop = Client_pstream_polled pfx stop"

definition ShardedClient_qstream :: "(world, bool) prog \<Rightarrow> QuotaEvent stream result" where
  "ShardedClient_qstream stop = Client_qstream_polled stop"

definition ShardedClient_qpstream :: "pystr \<Rightarrow> (world, bool) prog \<Rightarrow> QuotaEvent stream result" where
  "ShardedClient_qpstream pfx stop = Client_qpstream_polled pfx stop"

section \<open>What they keep\<close>

definition client_ready :: "Client \<Rightarrow> bool" where
  "client_ready cl \<longleftrightarrow> pool_ready (cl_pool cl)"

lemma client_call_ready: "keeps_one client_ready (client_call command parse t)"
  unfolding keeps_one_def client_ready_def using home_refl_call home_ready by blast

lemma inspect_ready: "keeps_one client_ready (Client_inspect parse_inspect section t)"
proof -
  have "client_ready cl'"
    if run: "Client_inspect parse_inspect section t (cl, w) = (r, (cl', w'))" and "client_ready cl" "r \<noteq> Blocked"
    for cl w r cl' w'
  proof -
    obtain dl where dl: "Client_deadline t (cl, w) = (Return dl, (cl, w))"
      by (simp add: Client_deadline_def pget_def)
    let ?body = "\<lambda>cl. pbind (plift (inspect section)) (\<lambda>command.
      Client_with_retry (cl_reconnect cl) Connection_send_chunked command dl)"
    obtain q cl1 w1 where q: "Client_acquire dl ?body (cl, w) = (q, (cl1, w1))" by (metis prod.exhaust)
    have "cl' = cl1 \<and> (q = Blocked \<longrightarrow> r = Blocked)"
      using run dl q by (cases q) (auto simp: Client_inspect_def pbind_def plift_def split: sum.splits)
    then show ?thesis
      using acquire_home [OF _ q] that(2,3) home_ready by (auto simp: client_ready_def)
  qed
  then show ?thesis unfolding keeps_one_def by blast
qed

text \<open>Every method of the client keeps its pool ready, so every method of the sharded one does.\<close>

lemmas sharded_defs = ShardedClient_incr_def ShardedClient_incrby_def ShardedClient_get_def
  ShardedClient_watch_def ShardedClient_delete_def ShardedClient_rlimit_fixed_window_def
  ShardedClient_rlimit_sliding_window_def ShardedClient_rlimit_token_bucket_def
  ShardedClient_quota_set_def ShardedClient_quota_set_n_def ShardedClient_quota_acquire_def
  ShardedClient_quota_acquire_n_def ShardedClient_quota_acquire_lease_def ShardedClient_quota_release_def
  ShardedClient_quota_delete_def ShardedClient_quota_info_def ShardedClient_mdelete_def
  ShardedClient_scan_def ShardedClient_pscan_def ShardedClient_flushdb_def ShardedClient_truncate_def
  ShardedClient_inspect_def

lemmas client_defs = Client_incr_def Client_incrby_def Client_get_def Client_watch_def Client_delete_def
  Client_mdelete_def Client_rlimit_fixed_window_def Client_rlimit_sliding_window_def
  Client_rlimit_token_bucket_def Client_quota_set_def Client_quota_set_n_def Client_quota_acquire_def
  Client_quota_acquire_n_def Client_quota_acquire_lease_def Client_quota_release_def
  Client_quota_delete_def Client_quota_info_def Client_scan_def Client_pscan_def Client_flushdb_def
  Client_truncate_def

text \<open>
  C16. No call of the sharded client wears out a shard: routed, split, walked or sent to every shard,
  whatever the result or exception, every shard's pool is as ready after it as before, and the list of
  shards and the sharding function are the same.
\<close>

theorem sharded_calls_keep_shards_ready:
  "keeps_shards client_ready (ShardedClient_incr k t) \<and>
   keeps_shards client_ready (ShardedClient_incrby k value t) \<and>
   keeps_shards client_ready (ShardedClient_get k t) \<and>
   keeps_shards client_ready (ShardedClient_watch k t) \<and>
   keeps_shards client_ready (ShardedClient_delete k t) \<and>
   keeps_shards client_ready (ShardedClient_rlimit_fixed_window lk limit t) \<and>
   keeps_shards client_ready (ShardedClient_rlimit_sliding_window lk limit t) \<and>
   keeps_shards client_ready (ShardedClient_rlimit_token_bucket lk capacity refill_amount t) \<and>
   keeps_shards client_ready (ShardedClient_quota_set name limit t) \<and>
   keeps_shards client_ready (ShardedClient_quota_set_n name limit clients t) \<and>
   keeps_shards client_ready (ShardedClient_quota_acquire name amount client_id ttl t) \<and>
   keeps_shards client_ready (ShardedClient_quota_acquire_n name client_id ttl t) \<and>
   keeps_shards client_ready (ShardedClient_quota_acquire_lease name limit amount client_id ttl t) \<and>
   keeps_shards client_ready (ShardedClient_quota_release name client_id t) \<and>
   keeps_shards client_ready (ShardedClient_quota_delete name t) \<and>
   keeps_shards client_ready (ShardedClient_quota_info name t) \<and>
   keeps_shards client_ready (ShardedClient_mdelete keys t) \<and>
   keeps_shards client_ready (ShardedClient_scan n cursor t) \<and>
   keeps_shards client_ready (ShardedClient_pscan pfx n cursor t) \<and>
   keeps_shards client_ready (ShardedClient_flushdb t) \<and>
   keeps_shards client_ready (ShardedClient_truncate t) \<and>
   keeps_shards client_ready (ShardedClient_inspect parse_inspect section t)"
  unfolding sharded_defs client_defs
  by (intro conjI shard_rules client_call_ready inspect_ready)

end
