(* ===== verification/ShardedStreams.thy ===== *)
theory ShardedStreams
  imports PoolThreads
begin

text \<open>
  \<open>_fan_out\<close> of the sharded clients: one worker per shard puts the events of its stream, and at the end
  its error, into one shared queue, from which the generator yields. The step relation interleaves the
  workers' atomic operations (a \<open>put\<close>, a look at the stop flag) with the generator's (\<open>get\<close>, \<open>yield\<close>,
  leaving). A shard's stream is a script: its events and the error that ends it, if any.
\<close>

type_synonym 'a script = "'a list \<times> exc option"

type_synonym 'a item = "'a + exc"

datatype 'a worker =
    Working "'a script" \<comment> \<open>about to ask its stream for the next event\<close>
  | Checking "'a script" \<comment> \<open>has put an event, about to look at the stop flag\<close>
  | Returned "'a script" \<comment> \<open>has ended; what its stream had left\<close>

datatype consumer = Getting | Yielding | Left | Failed exc

record 'a fan_out =
  fo_workers :: "'a worker list"
  fo_queue :: "(nat \<times> 'a item) list"
  fo_consumed :: "(nat \<times> 'a item) list"
  fo_stop :: bool
  fo_consumer :: consumer

definition fan_out_init :: "'a script list \<Rightarrow> 'a fan_out" where
  "fan_out_init scripts = \<lparr>fo_workers = map Working scripts, fo_queue = [], fo_consumed = [],
     fo_stop = False, fo_consumer = Getting\<rparr>"

definition worker_is :: "'a fan_out \<Rightarrow> nat \<Rightarrow> 'a worker \<Rightarrow> bool" where
  "worker_is st i wk \<longleftrightarrow> i < length (fo_workers st) \<and> fo_workers st ! i = wk"

definition set_worker :: "nat \<Rightarrow> 'a worker \<Rightarrow> 'a fan_out \<Rightarrow> 'a fan_out" where
  "set_worker i wk st = st\<lparr>fo_workers := (fo_workers st)[i := wk]\<rparr>"

definition put_item :: "nat \<times> 'a item \<Rightarrow> 'a fan_out \<Rightarrow> 'a fan_out" where
  "put_item x st = st\<lparr>fo_queue := fo_queue st @ [x]\<rparr>"

inductive fan_step :: "'a fan_out \<Rightarrow> 'a fan_out \<Rightarrow> bool" where
  put_event: "worker_is st i (Working (x # xs, e)) \<Longrightarrow>
    fan_step st (put_item (i, Inl x) (set_worker i (Checking (xs, e)) st))"
| put_error: "worker_is st i (Working ([], Some e)) \<Longrightarrow>
    fan_step st (put_item (i, Inr e) (set_worker i (Returned ([], None)) st))"
| seen_stop: "worker_is st i (Checking s) \<Longrightarrow> fo_stop st \<Longrightarrow> fan_step st (set_worker i (Returned s) st)"
| go_on: "worker_is st i (Checking s) \<Longrightarrow> \<not> fo_stop st \<Longrightarrow> fan_step st (set_worker i (Working s) st)"
| stream_stopped: "worker_is st i (Working s) \<Longrightarrow> fo_stop st \<Longrightarrow> fan_step st (set_worker i (Returned s) st)"
| get_event: "fo_consumer st = Getting \<Longrightarrow> fo_queue st = (i, Inl x) # rest \<Longrightarrow>
    fan_step st (st\<lparr>fo_queue := rest, fo_consumed := fo_consumed st @ [(i, Inl x)], fo_consumer := Yielding\<rparr>)"
| get_error: "fo_consumer st = Getting \<Longrightarrow> fo_queue st = (i, Inr e) # rest \<Longrightarrow>
    fan_step st (st\<lparr>fo_queue := rest, fo_consumed := fo_consumed st @ [(i, Inr e)], fo_consumer := Failed e,
      fo_stop := True\<rparr>)"
| resume: "fo_consumer st = Yielding \<Longrightarrow> fan_step st (st\<lparr>fo_consumer := Getting\<rparr>)"
| close: "fo_consumer st = Yielding \<Longrightarrow> fan_step st (st\<lparr>fo_consumer := Left, fo_stop := True\<rparr>)"

inductive_cases fan_stepE: "fan_step st st'"

text \<open>What the generator has yielded, with the shard each event came from.\<close>

definition yielded :: "'a fan_out \<Rightarrow> (nat \<times> 'a) list" where
  "yielded st = concat (map (\<lambda>(i, y). case y of Inl x \<Rightarrow> [(i, x)] | Inr e \<Rightarrow> []) (fo_consumed st))"

section \<open>Nothing is lost, repeated or reordered\<close>

fun script_items :: "'a script \<Rightarrow> 'a item list" where
  "script_items (xs, None) = map Inl xs"
| "script_items (xs, Some e) = map Inl xs @ [Inr e]"

fun worker_items :: "'a worker \<Rightarrow> 'a item list" where
  "worker_items (Working s) = script_items s"
| "worker_items (Checking s) = script_items s"
| "worker_items (Returned s) = script_items s"

fun items_of :: "nat \<Rightarrow> (nat \<times> 'b) list \<Rightarrow> 'b list" where
  "items_of i [] = []"
| "items_of i ((j, y) # ys) = (if j = i then y # items_of i ys else items_of i ys)"

lemma items_of_append [simp]: "items_of i (xs @ ys) = items_of i xs @ items_of i ys"
  by (induction i xs rule: items_of.induct) simp_all

lemma script_items_Cons: "script_items (x # xs, e) = Inl x # script_items (xs, e)"
  by (cases e) simp_all

text \<open>
  The invariant: for every shard, what was consumed, what waits in the queue and what its worker still
  has, one after the other, are the items of its script; and an error is the last item consumed, with
  the generator failed by it.
\<close>

definition fan_inv :: "'a script list \<Rightarrow> 'a fan_out \<Rightarrow> bool" where
  "fan_inv scripts st \<longleftrightarrow> length (fo_workers st) = length scripts \<and>
     (\<forall>i < length scripts. items_of i (fo_consumed st) @ items_of i (fo_queue st) @
        worker_items (fo_workers st ! i) = script_items (scripts ! i)) \<and>
     (\<forall>i. length scripts \<le> i \<longrightarrow> items_of i (fo_consumed st) = [] \<and> items_of i (fo_queue st) = []) \<and>
     (case fo_consumer st of
        Failed e \<Rightarrow> \<exists>i ys. fo_consumed st = ys @ [(i, Inr e)]
      | _ \<Rightarrow> True)"

lemma fan_inv_init: "fan_inv scripts (fan_out_init scripts)"
  by (simp add: fan_inv_def fan_out_init_def)

lemma fan_inv_worker:
  assumes "fan_inv scripts st" and "worker_is st i wk" and "worker_items wk = items @ worker_items wk'"
  shows "fan_inv scripts (set_worker i wk' st\<lparr>fo_queue := fo_queue st @ map (Pair i) items\<rparr>)"
proof -
  have "items_of j (map (Pair i) items) = (if j = i then items else [])" for j
    by (induction items) auto
  with assms show ?thesis
    by (auto simp: fan_inv_def worker_is_def set_worker_def nth_list_update split: consumer.split)
qed

lemma set_worker_queue [simp]: "set_worker i wk st\<lparr>fo_queue := fo_queue st\<rparr> = set_worker i wk st"
  by (simp add: set_worker_def)

lemma fan_inv_step: "fan_step st st' \<Longrightarrow> fan_inv scripts st \<Longrightarrow> fan_inv scripts st'"
proof (induction rule: fan_step.induct)
  case (put_event st i x xs e)
  from fan_inv_worker [OF put_event(2,1), of "[Inl x]" "Checking (xs, e)"] show ?case
    by (simp add: put_item_def set_worker_def script_items_Cons)
next
  case (put_error st i e)
  from fan_inv_worker [OF put_error(2,1), of "[Inr e]" "Returned ([], None)"] show ?case
    by (simp add: put_item_def set_worker_def)
next
  case (seen_stop st i s)
  from fan_inv_worker [OF seen_stop(3,1), of "[]" "Returned s"] show ?case by simp
next
  case (go_on st i s)
  from fan_inv_worker [OF go_on(3,1), of "[]" "Working s"] show ?case by simp
next
  case (stream_stopped st i s)
  from fan_inv_worker [OF stream_stopped(3,1), of "[]" "Returned s"] show ?case by simp
qed (fastforce simp: fan_inv_def split: if_splits)+

interpretation fan: step_invariant "\<lambda>st. st = fan_out_init scripts" fan_step "fan_inv scripts" for scripts
  by unfold_locales (use fan_inv_init fan_inv_step in blast)+

lemma yielded_items: "items_of i (yielded st) = concat (map (\<lambda>y. case y of Inl x \<Rightarrow> [x] | Inr e \<Rightarrow> []) (items_of i (fo_consumed st)))"
proof -
  have "items_of i (concat (map (\<lambda>(i, y). case y of Inl x \<Rightarrow> [(i, x)] | Inr e \<Rightarrow> []) ys)) =
      concat (map (\<lambda>y. case y of Inl x \<Rightarrow> [x] | Inr e \<Rightarrow> []) (items_of i ys))" for ys :: "(nat \<times> 'a item) list"
    by (induction ys) (auto split: sum.split)
  then show ?thesis by (simp add: yielded_def)
qed

lemma script_items_error: "as @ Inr e # bs = script_items (xs, err) \<Longrightarrow> err = Some e \<and> as = map Inl xs"
proof (induction xs arbitrary: as)
  case Nil
  then show ?case by (cases err) (auto simp: append_eq_Cons_conv)
next
  case (Cons x xs)
  then show ?case by (cases as) (auto simp: script_items_Cons)
qed

lemma events_Inl: "concat (map (\<lambda>y. case y of Inl x \<Rightarrow> [x] | Inr e \<Rightarrow> []) (map Inl xs)) = xs"
  by (induction xs) simp_all

lemma events_of_script: "concat (map (\<lambda>y. case y of Inl x \<Rightarrow> [x] | Inr e \<Rightarrow> []) (script_items s)) = fst s"
  by (cases s rule: script_items.cases) (simp_all add: events_Inl del: map_map)

text \<open>What the invariant says of the events yielded and of the error raised.\<close>

lemma fan_inv_order:
  assumes inv: "fan_inv scripts st"
  shows "(\<forall>i < length scripts. prefix (items_of i (yielded st)) (fst (scripts ! i))) \<and>
    (\<forall>e. fo_consumer st = Failed e \<longrightarrow>
      (\<exists>i < length scripts. scripts ! i = (items_of i (yielded st), Some e)))"
proof -
  let ?ev = "\<lambda>ys. concat (map (\<lambda>y. case y of Inl x \<Rightarrow> [x] | Inr e \<Rightarrow> []) ys)"
  have split: "items_of i (fo_consumed st) @ items_of i (fo_queue st) @ worker_items (fo_workers st ! i) =
      script_items (scripts ! i)" if "i < length scripts" for i
    using inv that by (simp add: fan_inv_def)
  have "prefix (items_of i (yielded st)) (fst (scripts ! i))" if "i < length scripts" for i
    using arg_cong [OF split [OF that], of ?ev]
    by (simp add: yielded_items events_of_script prefix_def) metis
  moreover have "\<exists>i < length scripts. scripts ! i = (items_of i (yielded st), Some e)"
    if failed: "fo_consumer st = Failed e" for e
  proof -
    obtain i ys where ys: "fo_consumed st = ys @ [(i, Inr e)]"
      using inv failed by (auto simp: fan_inv_def)
    then have i: "i < length scripts" using inv by (auto simp: fan_inv_def not_less [symmetric])
    obtain xs err where s: "scripts ! i = (xs, err)" by (cases "scripts ! i")
    have "items_of i ys @ Inr e # (items_of i (fo_queue st) @ worker_items (fo_workers st ! i)) = script_items (xs, err)"
      using split [OF i] ys s by simp
    then have "err = Some e \<and> items_of i ys = map Inl xs" by (rule script_items_error)
    then show ?thesis
      using i s ys by (intro exI [of _ i]) (simp add: yielded_items events_Inl del: map_map)
  qed
  ultimately show ?thesis by blast
qed

text \<open>
  C15. Fanning out keeps every shard's events: in every state that any interleaving of the workers and
  the generator reaches, the events yielded for a shard are a prefix of what that shard's stream gave,
  in its order, none lost in between or repeated; and when the generator raises an error, it is one
  shard's, all of whose events were yielded before it.
\<close>

theorem fan_out_keeps_order:
  assumes "fan_step\<^sup>*\<^sup>* (fan_out_init scripts) st"
  shows "(\<forall>i < length scripts. prefix (items_of i (yielded st)) (fst (scripts ! i))) \<and>
    (\<forall>e. fo_consumer st = Failed e \<longrightarrow>
      (\<exists>i < length scripts. scripts ! i = (items_of i (yielded st), Some e)))"
  using fan_inv_order [OF fan.I_reachable [OF refl assms]] .

text \<open>Two shards: one event of the first, then the error of the second.\<close>

theorem fan_out_keeps_order_witness:
  "\<exists>st. fan_step\<^sup>*\<^sup>* (fan_out_init [([7 :: int], None), ([], Some (Exc FQConnectionError))]) st \<and>
     yielded st = [(0, 7)] \<and> prefix (items_of 0 (yielded st)) [7]"
proof -
  let ?ss = "[([7 :: int], None), ([], Some (Exc FQConnectionError))]"
  let ?s0 = "fan_out_init ?ss"
  let ?s1 = "put_item (0, Inl 7) (set_worker 0 (Checking ([], None)) ?s0)"
  let ?s2 = "?s1\<lparr>fo_queue := [], fo_consumed := fo_consumed ?s1 @ [(0, Inl 7)], fo_consumer := Yielding\<rparr>"
  have "fan_step ?s0 ?s1" by (rule fan_step.put_event) (simp add: worker_is_def fan_out_init_def)
  moreover have "fan_step ?s1 ?s2"
    by (rule fan_step.get_event) (simp_all add: put_item_def set_worker_def fan_out_init_def)
  ultimately have run: "fan_step\<^sup>*\<^sup>* ?s0 ?s2"
    by (rule converse_rtranclp_into_rtranclp [OF _ r_into_rtranclp])
  have out: "yielded ?s2 = [(0, 7)]" by (simp add: yielded_def put_item_def set_worker_def fan_out_init_def)
  have "0 < length ?ss" by simp
  from fan_out_keeps_order [OF run, THEN conjunct1, rule_format, OF this]
  have pre: "prefix (items_of 0 (yielded ?s2)) [7]" by (simp only: nth_Cons_0 fst_conv)
  show ?thesis by (rule exI [of _ ?s2], rule conjI [OF run], rule conjI [OF out pre])
qed

end
