(* ===== verification/Json.thy ===== *)
theory Json
  imports Types Reconnect "HOL-Library.AList"
begin

text \<open>
  \<open>json.loads\<close> of Python's standard library on bytes, as \<open>parse_inspect\<close> uses it: the encoding is
  detected and the text decoded, then scanned. Every malformed text is a ValueError (JSONDecodeError and
  UnicodeDecodeError are), an int of more than 4300 digits too; nesting deeper than the interpreter
  allows, here the argument \<open>depth\<close>, is a RecursionError. A float is a real number, infinite from the
  range of doubles on; rounding is not modelled.
\<close>

datatype json =
    JNull
  | JBool bool
  | JInt int
  | JFloat real
  | JNotFinite string \<comment> \<open>NaN, Infinity, -Infinity\<close>
  | JStr pystr
  | JArr "json list"
  | JObj "(pystr \<times> json) list" \<comment> \<open>the items of the dict, in order\<close>

definition json_error :: "'a result" where
  "json_error = Inl (Exc PyValueError)"

section \<open>Text\<close>

fun utf8_decode :: "nat list \<Rightarrow> pystr option" where
  "utf8_decode [] = Some []"
| "utf8_decode (a # bs) =
     (if a < 0x80 then map_option ((#) a) (utf8_decode bs)
      else if a < 0xC2 then None
      else if a < 0xE0 then (case bs of
          b # bs' \<Rightarrow> if b div 64 = 2 then map_option ((#) ((a - 0xC0) * 64 + (b - 0x80))) (utf8_decode bs') else None
        | _ \<Rightarrow> None)
      else if a < 0xF0 then (case bs of
          b # c # bs' \<Rightarrow>
            let v = (a - 0xE0) * 4096 + (b - 0x80) * 64 + (c - 0x80) in
            if b div 64 = 2 \<and> c div 64 = 2 \<and> 0x800 \<le> v then map_option ((#) v) (utf8_decode bs') else None
        | _ \<Rightarrow> None)
      else (case bs of
          b # c # d # bs' \<Rightarrow>
            let v = (a - 0xF0) * 262144 + (b - 0x80) * 4096 + (c - 0x80) * 64 + (d - 0x80) in
            if a < 0xF5 \<and> b div 64 = 2 \<and> c div 64 = 2 \<and> d div 64 = 2 \<and> 0x10000 \<le> v \<and> v < 0x110000
            then map_option ((#) v) (utf8_decode bs') else None
        | _ \<Rightarrow> None))"

fun code_units :: "bool \<Rightarrow> nat list \<Rightarrow> nat list option" where
  "code_units big [] = Some []"
| "code_units big [a] = None"
| "code_units big (a # b # bs) = map_option ((#) (if big then 256 * a + b else 256 * b + a)) (code_units big bs)"

definition surrogate :: "nat \<Rightarrow> nat \<Rightarrow> bool" where
  "surrogate base u \<longleftrightarrow> base \<le> u \<and> u < base + 0x400"

definition join_surrogates :: "nat \<Rightarrow> nat \<Rightarrow> nat" where
  "join_surrogates u v = 0x10000 + (u - 0xD800) * 0x400 + (v - 0xDC00)"

fun utf16_points :: "nat list \<Rightarrow> pystr" where
  "utf16_points (u # v # us) =
     (if surrogate 0xD800 u \<and> surrogate 0xDC00 v then join_surrogates u v # utf16_points us
      else u # utf16_points (v # us))"
| "utf16_points us = us"

fun utf32_decode :: "bool \<Rightarrow> nat list \<Rightarrow> pystr option" where
  "utf32_decode big [] = Some []"
| "utf32_decode big (a # b # c # d # bs) =
     (let v = (if big then 16777216 * a + 65536 * b + 256 * c + d else 16777216 * d + 65536 * c + 256 * b + a) in
      if v < 0x110000 then map_option ((#) v) (utf32_decode big bs) else None)"
| "utf32_decode big _ = None"

definition utf16_decode :: "bool \<Rightarrow> nat list \<Rightarrow> pystr option" where
  "utf16_decode big bs = map_option utf16_points (code_units big bs)"

text \<open>\<open>s.decode(detect_encoding(s), "surrogatepass")\<close>\<close>

definition decode_detected :: "nat list \<Rightarrow> pystr option" where
  "decode_detected bs =
     (if take 4 bs = [0, 0, 0xFE, 0xFF] then utf32_decode True (drop 4 bs)
      else if take 4 bs = [0xFF, 0xFE, 0, 0] then utf32_decode False (drop 4 bs)
      else if take 2 bs = [0xFE, 0xFF] then utf16_decode True (drop 2 bs)
      else if take 2 bs = [0xFF, 0xFE] then utf16_decode False (drop 2 bs)
      else if take 3 bs = [0xEF, 0xBB, 0xBF] then utf8_decode (drop 3 bs)
      else case bs of
        a # b # c # d # _ \<Rightarrow>
          if a = 0 then if b = 0 then utf32_decode True bs else utf16_decode True bs
          else if b = 0 then if c = 0 \<and> d = 0 then utf32_decode False bs else utf16_decode False bs
          else utf8_decode bs
      | [a, b] \<Rightarrow>
          if a = 0 then utf16_decode True bs else if b = 0 then utf16_decode False bs else utf8_decode bs
      | _ \<Rightarrow> utf8_decode bs)"

section \<open>Numbers and strings\<close>

definition is_digit :: "nat \<Rightarrow> bool" where
  "is_digit c \<longleftrightarrow> 0x30 \<le> c \<and> c \<le> 0x39"

definition digits_of :: "pystr \<Rightarrow> nat list" where
  "digits_of s = map (\<lambda>c. c - 0x30) (takeWhile is_digit s)"

definition after_digits :: "pystr \<Rightarrow> pystr" where
  "after_digits s = dropWhile is_digit s"

definition starts :: "string \<Rightarrow> pystr \<Rightarrow> bool" where
  "starts p s \<longleftrightarrow> take (length p) s = ustr p"

text \<open>An optional fraction: its digits and what follows; an optional exponent.\<close>

definition fraction :: "pystr \<Rightarrow> nat list \<times> pystr" where
  "fraction s = (if starts ''.'' s \<and> digits_of (tl s) \<noteq> [] then (digits_of (tl s), after_digits (tl s)) else ([], s))"

definition exponent :: "pystr \<Rightarrow> int option \<times> pystr" where
  "exponent s =
     (if \<not> (starts ''e'' s \<or> starts ''E'' s) then (None, s)
      else let r = tl s; r' = (if starts ''+'' r \<or> starts ''-'' r then tl r else r);
               n = int (dec_value (digits_of r')) in
        if digits_of r' = [] then (None, s)
        else (Some (if starts ''-'' r then - n else n), after_digits r'))"

definition float_of :: "bool \<Rightarrow> nat list \<Rightarrow> nat list \<Rightarrow> int \<Rightarrow> json" where
  "float_of neg ds fs e =
     (let m = real (dec_value (ds @ fs)) / 10 ^ length fs;
          x = (if 0 \<le> e then m * 10 ^ nat e else m / 10 ^ nat (- e)) in
      if FLOAT_LIMIT \<le> x then JNotFinite (if neg then ''-Infinity'' else ''Infinity'')
      else JFloat (if neg then - x else x))"

definition json_number :: "pystr \<Rightarrow> (json \<times> pystr) result" where
  "json_number s =
     (let neg = starts ''-'' s; r = (if neg then tl s else s) in
      if digits_of r = [] then json_error
      else let (ds, r1) = (if starts ''0'' r then ([0], tl r) else (digits_of r, after_digits r));
               (fs, r2) = fraction r1; (e, r3) = exponent r2 in
        if fs = [] \<and> e = None
        then sbind (int_of_digits ds) (\<lambda>n. Inr (JInt (if neg then - n else n), r1))
        else Inr (float_of neg ds fs (case e of None \<Rightarrow> 0 | Some n \<Rightarrow> n), r3))"

definition hex_digit :: "nat \<Rightarrow> nat option" where
  "hex_digit c =
     (if is_digit c then Some (c - 0x30)
      else if 0x41 \<le> c \<and> c \<le> 0x46 then Some (c - 0x41 + 10)
      else if 0x61 \<le> c \<and> c \<le> 0x66 then Some (c - 0x61 + 10)
      else None)"

definition hex4 :: "pystr \<Rightarrow> (nat \<times> pystr) option" where
  "hex4 s = (if length s < 4 then None
     else map_option (\<lambda>ds. (foldl (\<lambda>n d. 16 * n + d) 0 ds, drop 4 s)) (those (map hex_digit (take 4 s))))"

text \<open>A second escape that completes a surrogate pair.\<close>

definition low_escape :: "pystr \<Rightarrow> (nat \<times> pystr) option" where
  "low_escape s = (if starts [CHR 0x5C, CHR ''u''] s
     then (case hex4 (drop 2 s) of
        Some (v, r) \<Rightarrow> if surrogate 0xDC00 v then Some (v, r) else None
      | None \<Rightarrow> None)
     else None)"

definition BACKSLASH_MAP :: "(nat \<times> nat) list" where
  "BACKSLASH_MAP = [(0x22, 0x22), (0x5C, 0x5C), (0x2F, 0x2F), (0x62, 8), (0x66, 12), (0x6E, 10), (0x72, 13), (0x74, 9)]"

definition scons :: "nat \<Rightarrow> (pystr \<times> pystr) result \<Rightarrow> (pystr \<times> pystr) result" where
  "scons c r = sbind r (\<lambda>(s, rest). Inr (c # s, rest))"

lemma hex4_shorter: "hex4 s = Some (u, r) \<Longrightarrow> length r < length s"
  by (auto simp: hex4_def split: if_splits)

lemma low_escape_shorter: "low_escape s = Some (v, r) \<Longrightarrow> length r < length s"
  by (auto simp: low_escape_def dest!: hex4_shorter split: option.splits if_splits)

text \<open>From after the opening quote on: the string and what follows its closing quote.\<close>

function json_string :: "pystr \<Rightarrow> (pystr \<times> pystr) result" where
  "json_string [] = json_error"
| "json_string (c # s) =
     (if c = 0x22 then Inr ([], s)
      else if c < 0x20 then json_error
      else if c \<noteq> 0x5C then scons c (json_string s)
      else case s of
        [] \<Rightarrow> json_error
      | e # s1 \<Rightarrow>
          if e = 0x75 then (case hex4 s1 of
              None \<Rightarrow> json_error
            | Some (u, s2) \<Rightarrow> (case (if surrogate 0xD800 u then low_escape s2 else None) of
                Some (v, s3) \<Rightarrow> scons (join_surrogates u v) (json_string s3)
              | None \<Rightarrow> scons u (json_string s2)))
          else case map_of BACKSLASH_MAP e of
              None \<Rightarrow> json_error
            | Some x \<Rightarrow> scons x (json_string s1))"
  by pat_completeness auto
termination
  by (relation "measure length") (auto dest!: hex4_shorter low_escape_shorter split: if_splits)

section \<open>Values\<close>

definition skip_ws :: "pystr \<Rightarrow> pystr" where
  "skip_ws s = dropWhile (\<lambda>c. c \<in> {0x20, 9, 10, 13}) s"

definition dict_of :: "(pystr \<times> json) list \<Rightarrow> (pystr \<times> json) list" where
  "dict_of kvs = fold (\<lambda>(k, v) m. AList.update k v m) kvs []"

definition KEYWORDS :: "(string \<times> json) list" where
  "KEYWORDS = [(''null'', JNull), (''true'', JBool True), (''false'', JBool False), (''NaN'', JNotFinite ''NaN''),
     (''Infinity'', JNotFinite ''Infinity''), (''-Infinity'', JNotFinite ''-Infinity'')]"

text \<open>
  \<open>json_value\<close> reads one value, \<open>json_elems\<close> and \<open>json_members\<close> what is left of an array or an object
  that is not empty. Each element takes at least one character, so the length of the text is fuel enough
  for the two loops.
\<close>

function json_value :: "nat \<Rightarrow> pystr \<Rightarrow> (json \<times> pystr) result"
  and json_elems :: "nat \<Rightarrow> nat \<Rightarrow> pystr \<Rightarrow> (json list \<times> pystr) result"
  and json_members :: "nat \<Rightarrow> nat \<Rightarrow> pystr \<Rightarrow> ((pystr \<times> json) list \<times> pystr) result"
where
  "json_value depth s =
     (if starts [CHR 0x22] s then sbind (json_string (tl s)) (\<lambda>(t, r). Inr (JStr t, r))
      else if starts ''{'' s then
        if depth = 0 then Inl (Exc PyRecursionError)
        else let r = skip_ws (tl s) in
          if starts ''}'' r then Inr (JObj [], tl r)
          else sbind (json_members (depth - 1) (length r) r) (\<lambda>(kvs, r'). Inr (JObj (dict_of kvs), r'))
      else if starts ''['' s then
        if depth = 0 then Inl (Exc PyRecursionError)
        else let r = skip_ws (tl s) in
          if starts '']'' r then Inr (JArr [], tl r)
          else sbind (json_elems (depth - 1) (length r) r) (\<lambda>(vs, r'). Inr (JArr vs, r'))
      else case find (\<lambda>(p, v). starts p s) KEYWORDS of
          Some (p, v) \<Rightarrow> Inr (v, drop (length p) s)
        | None \<Rightarrow> json_number s)"
| "json_elems depth 0 s = json_error"
| "json_elems depth (Suc n) s = sbind (json_value depth s) (\<lambda>(v, r). let r1 = skip_ws r in
     if starts '']'' r1 then Inr ([v], tl r1)
     else if starts '','' r1
     then sbind (json_elems depth n (skip_ws (tl r1))) (\<lambda>(vs, r'). Inr (v # vs, r'))
     else json_error)"
| "json_members depth 0 s = json_error"
| "json_members depth (Suc n) s =
     (if \<not> starts [CHR 0x22] s then json_error
      else sbind (json_string (tl s)) (\<lambda>(k, r). let r1 = skip_ws r in
        if \<not> starts '':'' r1 then json_error
        else sbind (json_value depth (skip_ws (tl r1))) (\<lambda>(v, r2). let r3 = skip_ws r2 in
          if starts ''}'' r3 then Inr ([(k, v)], tl r3)
          else if starts '','' r3
          then sbind (json_members depth n (skip_ws (tl r3))) (\<lambda>(kvs, r'). Inr ((k, v) # kvs, r'))
          else json_error)))"
  by pat_completeness auto
termination
  by (relation "inv_image (less_than <*lex*> less_than) (\<lambda>x. case x of
        Inl (depth, s) \<Rightarrow> (depth, 0)
      | Inr (Inl (depth, n, s)) \<Rightarrow> (depth, Suc n)
      | Inr (Inr (depth, n, s)) \<Rightarrow> (depth, Suc n))") auto

declare json_value.simps [simp del]

definition json_text :: "nat \<Rightarrow> pystr \<Rightarrow> json result" where
  "json_text depth s = sbind (json_value depth (skip_ws s)) (\<lambda>(v, r).
     if skip_ws r = [] then Inr v else json_error)"

definition json_loads :: "nat \<Rightarrow> bytes \<Rightarrow> json result" where
  "json_loads depth bs = (case decode_detected (map of_char bs) of
      None \<Rightarrow> json_error
    | Some s \<Rightarrow> json_text depth s)"

lemmas json_eval = json_loads_def json_text_def decode_detected_def json_value.simps json_error_def starts_def
  ustr_def skip_ws_def scons_def KEYWORDS_def json_number_def digits_of_def after_digits_def is_digit_def
  fraction_def exponent_def int_of_digits_def INT_MAX_STR_DIGITS_def dec_value_def dict_of_def

lemma json_loads_sample:
  "json_loads 3 ''{\"section\":\"wal\",\"ts\":7,\"warnings\":[],\"x\":[null]}'' =
     Inr (JObj [(ustr ''section'', JStr (ustr ''wal'')), (ustr ''ts'', JInt 7), (ustr ''warnings'', JArr []),
       (ustr ''x'', JArr [JNull])])"
  by (simp add: json_eval)

section \<open>What can be raised\<close>

definition json_failure :: "exc \<Rightarrow> bool" where
  "json_failure e \<longleftrightarrow> e = Exc PyValueError \<or> e = Exc PyRecursionError"

lemma json_error_raises [simp]: "json_error = Inl e \<longleftrightarrow> e = Exc PyValueError" "json_error \<noteq> Inr x"
  by (auto simp: json_error_def)

lemma json_string_raises: "json_string s = Inl e \<Longrightarrow> json_failure e"
  by (induction s rule: json_string.induct)
     (auto simp: scons_def sbind_eq_Inl json_failure_def split: if_splits list.splits option.splits)

lemma json_number_raises: "json_number s = Inl e \<Longrightarrow> json_failure e"
  by (auto simp: json_number_def json_failure_def Let_def sbind_eq_Inl int_of_digits_def
      split: if_splits prod.splits)

lemma json_value_raises:
  "json_value depth s = Inl e \<Longrightarrow> json_failure e"
  "json_elems depth n s = Inl e \<Longrightarrow> json_failure e"
  "json_members depth n s = Inl e \<Longrightarrow> json_failure e"
proof (induction depth s and depth n s and depth n s rule: json_value_json_elems_json_members.induct)
  case (1 depth s)
  from 1(3) show ?case
    by (subst (asm) json_value.simps)
       (auto simp: Let_def sbind_eq_Inl json_failure_def dest: 1(1,2) json_string_raises json_number_raises
         split: if_splits option.splits)
qed (auto simp: Let_def sbind_eq_Inl json_failure_def dest: json_string_raises split: if_splits)

lemma json_loads_raises: "json_loads depth bs = Inl e \<Longrightarrow> json_failure e"
  by (auto simp: json_loads_def json_text_def sbind_eq_Inl json_failure_def dest: json_value_raises(1)
      split: option.splits if_splits)

text \<open>A text nested one level too deep.\<close>

lemma json_value_deep:
  "json_value depth (replicate (Suc depth) 0x5B) = Inl (Exc PyRecursionError)"
proof (induction depth)
  case (Suc depth)
  let ?s = "replicate (Suc depth) 0x5B :: pystr"
  have "json_value (Suc depth) (0x5B # ?s) = sbind (json_elems depth (length ?s) ?s) (\<lambda>(vs, r'). Inr (JArr vs, r'))"
    by (subst json_value.simps) (simp add: starts_def ustr_def skip_ws_def Let_def)
  moreover have "json_elems depth (length ?s) ?s = Inl (Exc PyRecursionError)"
    using Suc by simp
  ultimately show ?case by simp
qed (simp add: json_value.simps starts_def ustr_def)

lemma json_loads_deep:
  assumes "4 \<le> depth"
  shows "json_loads depth (replicate (Suc depth) CHR ''['') = Inl (Exc PyRecursionError)"
proof -
  have utf8: "utf8_decode (replicate n 0x5B) = Some (replicate n 0x5B)" for n
    by (induction n) simp_all
  obtain m where m: "depth = Suc (Suc (Suc (Suc m)))" using assms by (metis add_Suc_right add_2_eq_Suc' le_Suc_ex numeral_Bit0 add.commute)
  have "decode_detected (replicate (Suc depth) 0x5B) = Some (replicate (Suc depth) 0x5B)"
    using utf8 [of "Suc depth"] by (simp add: m decode_detected_def)
  moreover have "skip_ws (replicate (Suc depth) 0x5B) = replicate (Suc depth) 0x5B"
    by (simp add: skip_ws_def)
  ultimately show ?thesis
    using json_value_deep [of depth] by (simp add: json_loads_def json_text_def)
qed

end
