(* ===== verification/InspectTypes.thy ===== *)
theory InspectTypes
  imports Responses Json
begin

text \<open>
  \<open>fq/inspect_types.py\<close>: the report of INSPECT. The records are its dataclasses. Their fields are
  annotated str, int, float or bool, but the decoder stores whatever JSON value the server sent, so a
  field that is read with \<open>raw.get(key, default)\<close> has the type \<open>json\<close> here; fields the code builds itself
  (sections and lists of records) have their own types. A dict is the list of its items, with \<open>map_of\<close>
  as \<open>get\<close>. \<open>depth\<close> is the nesting the interpreter's recursion limit allows \<open>json.loads\<close>.
\<close>

section \<open>The report\<close>

record InstanceInfo =
  ins_version :: json
  ins_commit :: json
  ins_build_date :: json
  ins_go_version :: json
  ins_platform :: json
  ins_uptime_sec :: json
  ins_pid :: json
  ins_role :: json
  ins_replica_id :: json
  ins_listen_addr :: json
  ins_connections :: json

record PersistenceInfo =
  per_mode :: json
  per_sync_commit :: json

record WALInfo =
  wal_enabled :: json
  wal_sync_commit :: json
  wal_data_directory :: json
  wal_queue_depth :: json
  wal_queue_capacity :: json
  wal_lsn_assigned :: json
  wal_lsn_flushed :: json
  wal_segment_path :: json
  wal_segment_size_bytes :: json
  wal_last_flush_at :: json
  wal_last_flush_duration_ms :: json
  wal_flush_avg_duration_ms :: json
  wal_flush_total :: json

record DumpInfo =
  dmp_enabled :: json
  dmp_directory :: json
  dmp_interval_sec :: json
  dmp_last_dump_at :: json
  dmp_last_dump_duration_ms :: json
  dmp_last_dump_error :: json
  dmp_last_dump_tx :: json
  dmp_current_dump_path :: json
  dmp_current_dump_size_bytes :: json
  dmp_next_dump_at :: json

record ReplicaInfo =
  rpl_replica_id :: json
  rpl_last_segment_name :: json
  rpl_last_applied_lsn :: json
  rpl_lag_lsn :: json
  rpl_lag_sec :: json
  rpl_stale :: json
  rpl_updated_at :: json

record SlaveInfo =
  slv_master_address :: json
  slv_connected :: json
  slv_last_segment_name :: json
  slv_last_applied_lsn :: json
  slv_consecutive_errors :: json
  slv_reconnect_total :: json
  slv_last_reconnect_at :: json
  slv_updated_at :: json

record ReplInfo =
  rep_role :: json
  rep_known_replicas :: json
  rep_replicas :: "ReplicaInfo list"
  rep_slave :: "SlaveInfo option"
  rep_truncated :: json

record PartitionStat =
  prt_index :: json
  prt_counters :: json
  prt_sliding_windows :: json
  prt_token_buckets :: json
  prt_quotas :: json
  prt_quota_allocations :: json

record EngineInfo =
  eng_partitions :: json
  eng_counters :: json
  eng_sliding_windows :: json
  eng_token_buckets :: json
  eng_quotas :: json
  eng_quota_allocations :: json
  eng_key_index_enabled :: json
  eng_per_partition :: "PartitionStat list"

record SubscriberInfo =
  sub_prefix :: json
  sub_queue_len :: json
  sub_queue_cap :: json
  sub_dropped :: json

record StreamsInfo =
  str_limit_subscribers :: "SubscriberInfo list"
  str_quota_subscribers :: "SubscriberInfo list"
  str_limit_events_dropped_total :: json
  str_quota_events_dropped_total :: json

record InspectWarning =
  wrn_code :: json
  wrn_severity :: json
  wrn_message :: json
  wrn_details :: json

record InspectReport =
  rpt_section :: json
  rpt_ts :: json
  rpt_instance :: "InstanceInfo option"
  rpt_persistence :: "PersistenceInfo option"
  rpt_wal :: "WALInfo option"
  rpt_dump :: "DumpInfo option"
  rpt_repl :: "ReplInfo option"
  rpt_engine :: "EngineInfo option"
  rpt_streams :: "StreamsInfo option"
  rpt_warnings :: "InspectWarning list"

section \<open>Decoding\<close>

text \<open>\<open>raw.get(key, default)\<close>\<close>

definition jget :: "(pystr \<times> json) list \<Rightarrow> string \<Rightarrow> json \<Rightarrow> json" where
  "jget raw key d = (case map_of raw (ustr key) of None \<Rightarrow> d | Some v \<Rightarrow> v)"

definition section_of :: "(pystr \<times> json) list \<Rightarrow> string \<Rightarrow> (pystr \<times> json) list option" where
  "section_of raw key = (case map_of raw (ustr key) of Some (JObj m) \<Rightarrow> Some m | _ \<Rightarrow> None)"

fun json_dict :: "json \<Rightarrow> (pystr \<times> json) list option" where
  "json_dict (JObj m) = Some m"
| "json_dict _ = None"

definition dict_items :: "(pystr \<times> json) list \<Rightarrow> string \<Rightarrow> (pystr \<times> json) list list" where
  "dict_items raw key = (case map_of raw (ustr key) of
      Some (JArr vs) \<Rightarrow> List.map_filter json_dict vs
    | _ \<Rightarrow> [])"

text \<open>\<open>bool(value)\<close>\<close>

fun truthy :: "json \<Rightarrow> bool" where
  "truthy JNull \<longleftrightarrow> False"
| "truthy (JBool b) \<longleftrightarrow> b"
| "truthy (JInt n) \<longleftrightarrow> n \<noteq> 0"
| "truthy (JFloat x) \<longleftrightarrow> x \<noteq> 0"
| "truthy (JNotFinite k) \<longleftrightarrow> True"
| "truthy (JStr s) \<longleftrightarrow> s \<noteq> []"
| "truthy (JArr vs) \<longleftrightarrow> vs \<noteq> []"
| "truthy (JObj m) \<longleftrightarrow> m \<noteq> []"

definition instance_of :: "(pystr \<times> json) list \<Rightarrow> InstanceInfo" where
  "instance_of raw =
    \<lparr>ins_version = jget raw ''version'' (JStr []),
     ins_commit = jget raw ''commit'' (JStr []),
     ins_build_date = jget raw ''build_date'' (JStr []),
     ins_go_version = jget raw ''go_version'' (JStr []),
     ins_platform = jget raw ''platform'' (JStr []),
     ins_uptime_sec = jget raw ''uptime_sec'' (JFloat 0),
     ins_pid = jget raw ''pid'' (JInt 0),
     ins_role = jget raw ''role'' (JStr []),
     ins_replica_id = jget raw ''replica_id'' (JNull),
     ins_listen_addr = jget raw ''listen_addr'' (JStr []),
     ins_connections = jget raw ''connections'' (JInt 0)\<rparr>"

definition persistence_of :: "(pystr \<times> json) list \<Rightarrow> PersistenceInfo" where
  "persistence_of raw =
    \<lparr>per_mode = jget raw ''mode'' (JStr []),
     per_sync_commit = jget raw ''sync_commit'' (JNull)\<rparr>"

definition wal_of :: "(pystr \<times> json) list \<Rightarrow> WALInfo" where
  "wal_of raw =
    \<lparr>wal_enabled = jget raw ''enabled'' (JBool False),
     wal_sync_commit = jget raw ''sync_commit'' (JNull),
     wal_data_directory = jget raw ''data_directory'' (JNull),
     wal_queue_depth = jget raw ''queue_depth'' (JNull),
     wal_queue_capacity = jget raw ''queue_capacity'' (JNull),
     wal_lsn_assigned = jget raw ''lsn_assigned'' (JInt 0),
     wal_lsn_flushed = jget raw ''lsn_flushed'' (JNull),
     wal_segment_path = jget raw ''segment_path'' (JNull),
     wal_segment_size_bytes = jget raw ''segment_size_bytes'' (JNull),
     wal_last_flush_at = jget raw ''last_flush_at'' (JNull),
     wal_last_flush_duration_ms = jget raw ''last_flush_duration_ms'' (JNull),
     wal_flush_avg_duration_ms = jget raw ''flush_avg_duration_ms'' (JNull),
     wal_flush_total = jget raw ''flush_total'' (JNull)\<rparr>"

definition dump_of :: "(pystr \<times> json) list \<Rightarrow> DumpInfo" where
  "dump_of raw =
    \<lparr>dmp_enabled = jget raw ''enabled'' (JBool False),
     dmp_directory = jget raw ''directory'' (JNull),
     dmp_interval_sec = jget raw ''interval_sec'' (JNull),
     dmp_last_dump_at = jget raw ''last_dump_at'' (JNull),
     dmp_last_dump_duration_ms = jget raw ''last_dump_duration_ms'' (JNull),
     dmp_last_dump_error = jget raw ''last_dump_error'' (JNull),
     dmp_last_dump_tx = jget raw ''last_dump_tx'' (JNull),
     dmp_current_dump_path = jget raw ''current_dump_path'' (JNull),
     dmp_current_dump_size_bytes = jget raw ''current_dump_size_bytes'' (JNull),
     dmp_next_dump_at = jget raw ''next_dump_at'' (JNull)\<rparr>"

definition slave_of :: "(pystr \<times> json) list \<Rightarrow> SlaveInfo" where
  "slave_of raw =
    \<lparr>slv_master_address = jget raw ''master_address'' (JStr []),
     slv_connected = jget raw ''connected'' (JBool False),
     slv_last_segment_name = jget raw ''last_segment_name'' (JStr []),
     slv_last_applied_lsn = jget raw ''last_applied_lsn'' (JInt 0),
     slv_consecutive_errors = jget raw ''consecutive_errors'' (JInt 0),
     slv_reconnect_total = jget raw ''reconnect_total'' (JInt 0),
     slv_last_reconnect_at = jget raw ''last_reconnect_at'' (JNull),
     slv_updated_at = jget raw ''updated_at'' (JInt 0)\<rparr>"

definition replica_of :: "(pystr \<times> json) list \<Rightarrow> ReplicaInfo" where
  "replica_of raw =
    \<lparr>rpl_replica_id = jget raw ''replica_id'' (JStr []),
     rpl_last_segment_name = jget raw ''last_segment_name'' (JStr []),
     rpl_last_applied_lsn = jget raw ''last_applied_lsn'' (JInt 0),
     rpl_lag_lsn = jget raw ''lag_lsn'' (JInt 0),
     rpl_lag_sec = jget raw ''lag_sec'' (JFloat 0),
     rpl_stale = jget raw ''stale'' (JBool False),
     rpl_updated_at = jget raw ''updated_at'' (JInt 0)\<rparr>"

definition repl_of :: "(pystr \<times> json) list \<Rightarrow> ReplInfo" where
  "repl_of raw =
    \<lparr>rep_role = jget raw ''role'' (JStr []),
     rep_known_replicas = jget raw ''known_replicas'' (JInt 0),
     rep_replicas = map replica_of (dict_items raw ''replicas''),
     rep_slave = map_option slave_of (section_of raw ''slave''),
     rep_truncated = jget raw ''truncated'' (JBool False)\<rparr>"

definition partition_of :: "(pystr \<times> json) list \<Rightarrow> PartitionStat" where
  "partition_of raw =
    \<lparr>prt_index = jget raw ''index'' (JInt 0),
     prt_counters = jget raw ''counters'' (JInt 0),
     prt_sliding_windows = jget raw ''sliding_windows'' (JInt 0),
     prt_token_buckets = jget raw ''token_buckets'' (JInt 0),
     prt_quotas = jget raw ''quotas'' (JInt 0),
     prt_quota_allocations = jget raw ''quota_allocations'' (JInt 0)\<rparr>"

definition engine_of :: "(pystr \<times> json) list \<Rightarrow> EngineInfo" where
  "engine_of raw =
    \<lparr>eng_partitions = jget raw ''partitions'' (JInt 0),
     eng_counters = jget raw ''counters'' (JInt 0),
     eng_sliding_windows = jget raw ''sliding_windows'' (JInt 0),
     eng_token_buckets = jget raw ''token_buckets'' (JInt 0),
     eng_quotas = jget raw ''quotas'' (JInt 0),
     eng_quota_allocations = jget raw ''quota_allocations'' (JInt 0),
     eng_key_index_enabled = jget raw ''key_index_enabled'' (JBool False),
     eng_per_partition = map partition_of (dict_items raw ''per_partition'')\<rparr>"

definition subscriber_of :: "(pystr \<times> json) list \<Rightarrow> SubscriberInfo" where
  "subscriber_of raw =
    \<lparr>sub_prefix = jget raw ''prefix'' (JNull),
     sub_queue_len = jget raw ''queue_len'' (JInt 0),
     sub_queue_cap = jget raw ''queue_cap'' (JInt 0),
     sub_dropped = jget raw ''dropped'' (JInt 0)\<rparr>"

definition subscribers_of :: "(pystr \<times> json) list \<Rightarrow> string \<Rightarrow> SubscriberInfo list" where
  "subscribers_of raw key = map subscriber_of (dict_items raw key)"

definition streams_of :: "(pystr \<times> json) list \<Rightarrow> StreamsInfo" where
  "streams_of raw =
    \<lparr>str_limit_subscribers = subscribers_of raw ''limit_subscribers'',
     str_quota_subscribers = subscribers_of raw ''quota_subscribers'',
     str_limit_events_dropped_total = jget raw ''limit_events_dropped_total'' (JInt 0),
     str_quota_events_dropped_total = jget raw ''quota_events_dropped_total'' (JInt 0)\<rparr>"

definition warning_of :: "(pystr \<times> json) list \<Rightarrow> InspectWarning" where
  "warning_of raw =
    \<lparr>wrn_code = jget raw ''code'' (JStr []),
     wrn_severity = jget raw ''severity'' (JStr []),
     wrn_message = jget raw ''message'' (JStr []),
     wrn_details = (let v = jget raw ''details'' JNull in if truthy v then v else JObj [])\<rparr>"

definition report_of :: "(pystr \<times> json) list \<Rightarrow> InspectReport" where
  "report_of raw =
    \<lparr>rpt_section = jget raw ''section'' (JStr []),
     rpt_ts = jget raw ''ts'' (JInt 0),
     rpt_instance = map_option instance_of (section_of raw ''instance''),
     rpt_persistence = map_option persistence_of (section_of raw ''persistence''),
     rpt_wal = map_option wal_of (section_of raw ''wal''),
     rpt_dump = map_option dump_of (section_of raw ''dump''),
     rpt_repl = map_option repl_of (section_of raw ''repl''),
     rpt_engine = map_option engine_of (section_of raw ''engine''),
     rpt_streams = map_option streams_of (section_of raw ''streams''),
     rpt_warnings = map warning_of (dict_items raw ''warnings'')\<rparr>"

definition parse_inspect :: "nat \<Rightarrow> bytes \<Rightarrow> InspectReport result" where
  "parse_inspect depth payload = sbind (ok_data payload) (\<lambda>data. case json_loads depth data of
      Inl e \<Rightarrow> Inl (if catches PyValueError e then Exc CorruptedResponseError else e)
    | Inr (JObj raw) \<Rightarrow> Inr (report_of raw)
    | Inr _ \<Rightarrow> Inl (Exc CorruptedResponseError))"

section \<open>The report as JSON\<close>

text \<open>The members of a report's object, absent sections left out.\<close>

definition member :: "string \<Rightarrow> json \<Rightarrow> pystr \<times> json" where
  "member key v = (ustr key, v)"

definition optional_member :: "string \<Rightarrow> ('a \<Rightarrow> json) \<Rightarrow> 'a option \<Rightarrow> (pystr \<times> json) list" where
  "optional_member key f x = (case x of None \<Rightarrow> [] | Some y \<Rightarrow> [member key (f y)])"

definition instance_members :: "InstanceInfo \<Rightarrow> (pystr \<times> json) list" where
  "instance_members x =
    [member ''version'' (ins_version x),
     member ''commit'' (ins_commit x),
     member ''build_date'' (ins_build_date x),
     member ''go_version'' (ins_go_version x),
     member ''platform'' (ins_platform x),
     member ''uptime_sec'' (ins_uptime_sec x),
     member ''pid'' (ins_pid x),
     member ''role'' (ins_role x),
     member ''replica_id'' (ins_replica_id x),
     member ''listen_addr'' (ins_listen_addr x),
     member ''connections'' (ins_connections x)]"

definition instance_json :: "InstanceInfo \<Rightarrow> json" where
  "instance_json x = JObj (instance_members x)"

definition persistence_members :: "PersistenceInfo \<Rightarrow> (pystr \<times> json) list" where
  "persistence_members x =
    [member ''mode'' (per_mode x),
     member ''sync_commit'' (per_sync_commit x)]"

definition persistence_json :: "PersistenceInfo \<Rightarrow> json" where
  "persistence_json x = JObj (persistence_members x)"

definition wal_members :: "WALInfo \<Rightarrow> (pystr \<times> json) list" where
  "wal_members x =
    [member ''enabled'' (wal_enabled x),
     member ''sync_commit'' (wal_sync_commit x),
     member ''data_directory'' (wal_data_directory x),
     member ''queue_depth'' (wal_queue_depth x),
     member ''queue_capacity'' (wal_queue_capacity x),
     member ''lsn_assigned'' (wal_lsn_assigned x),
     member ''lsn_flushed'' (wal_lsn_flushed x),
     member ''segment_path'' (wal_segment_path x),
     member ''segment_size_bytes'' (wal_segment_size_bytes x),
     member ''last_flush_at'' (wal_last_flush_at x),
     member ''last_flush_duration_ms'' (wal_last_flush_duration_ms x),
     member ''flush_avg_duration_ms'' (wal_flush_avg_duration_ms x),
     member ''flush_total'' (wal_flush_total x)]"

definition wal_json :: "WALInfo \<Rightarrow> json" where
  "wal_json x = JObj (wal_members x)"

definition dump_members :: "DumpInfo \<Rightarrow> (pystr \<times> json) list" where
  "dump_members x =
    [member ''enabled'' (dmp_enabled x),
     member ''directory'' (dmp_directory x),
     member ''interval_sec'' (dmp_interval_sec x),
     member ''last_dump_at'' (dmp_last_dump_at x),
     member ''last_dump_duration_ms'' (dmp_last_dump_duration_ms x),
     member ''last_dump_error'' (dmp_last_dump_error x),
     member ''last_dump_tx'' (dmp_last_dump_tx x),
     member ''current_dump_path'' (dmp_current_dump_path x),
     member ''current_dump_size_bytes'' (dmp_current_dump_size_bytes x),
     member ''next_dump_at'' (dmp_next_dump_at x)]"

definition dump_json :: "DumpInfo \<Rightarrow> json" where
  "dump_json x = JObj (dump_members x)"

definition replica_members :: "ReplicaInfo \<Rightarrow> (pystr \<times> json) list" where
  "replica_members x =
    [member ''replica_id'' (rpl_replica_id x),
     member ''last_segment_name'' (rpl_last_segment_name x),
     member ''last_applied_lsn'' (rpl_last_applied_lsn x),
     member ''lag_lsn'' (rpl_lag_lsn x),
     member ''lag_sec'' (rpl_lag_sec x),
     member ''stale'' (rpl_stale x),
     member ''updated_at'' (rpl_updated_at x)]"

definition replica_json :: "ReplicaInfo \<Rightarrow> json" where
  "replica_json x = JObj (replica_members x)"

definition slave_members :: "SlaveInfo \<Rightarrow> (pystr \<times> json) list" where
  "slave_members x =
    [member ''master_address'' (slv_master_address x),
     member ''connected'' (slv_connected x),
     member ''last_segment_name'' (slv_last_segment_name x),
     member ''last_applied_lsn'' (slv_last_applied_lsn x),
     member ''consecutive_errors'' (slv_consecutive_errors x),
     member ''reconnect_total'' (slv_reconnect_total x),
     member ''last_reconnect_at'' (slv_last_reconnect_at x),
     member ''updated_at'' (slv_updated_at x)]"

definition slave_json :: "SlaveInfo \<Rightarrow> json" where
  "slave_json x = JObj (slave_members x)"

definition repl_members :: "ReplInfo \<Rightarrow> (pystr \<times> json) list" where
  "repl_members x =
    [member ''role'' (rep_role x),
     member ''known_replicas'' (rep_known_replicas x),
     member ''replicas'' (JArr (map replica_json (rep_replicas x)))] @
    optional_member ''slave'' slave_json (rep_slave x) @
    [member ''truncated'' (rep_truncated x)]"

definition repl_json :: "ReplInfo \<Rightarrow> json" where
  "repl_json x = JObj (repl_members x)"

definition partition_members :: "PartitionStat \<Rightarrow> (pystr \<times> json) list" where
  "partition_members x =
    [member ''index'' (prt_index x),
     member ''counters'' (prt_counters x),
     member ''sliding_windows'' (prt_sliding_windows x),
     member ''token_buckets'' (prt_token_buckets x),
     member ''quotas'' (prt_quotas x),
     member ''quota_allocations'' (prt_quota_allocations x)]"

definition partition_json :: "PartitionStat \<Rightarrow> json" where
  "partition_json x = JObj (partition_members x)"

definition engine_members :: "EngineInfo \<Rightarrow> (pystr \<times> json) list" where
  "engine_members x =
    [member ''partitions'' (eng_partitions x),
     member ''counters'' (eng_counters x),
     member ''sliding_windows'' (eng_sliding_windows x),
     member ''token_buckets'' (eng_token_buckets x),
     member ''quotas'' (eng_quotas x),
     member ''quota_allocations'' (eng_quota_allocations x),
     member ''key_index_enabled'' (eng_key_index_enabled x),
     member ''per_partition'' (JArr (map partition_json (eng_per_partition x)))]"

definition engine_json :: "EngineInfo \<Rightarrow> json" where
  "engine_json x = JObj (engine_members x)"

definition subscriber_members :: "SubscriberInfo \<Rightarrow> (pystr \<times> json) list" where
  "subscriber_members x =
    [member ''prefix'' (sub_prefix x),
     member ''queue_len'' (sub_queue_len x),
     member ''queue_cap'' (sub_queue_cap x),
     member ''dropped'' (sub_dropped x)]"

definition subscriber_json :: "SubscriberInfo \<Rightarrow> json" where
  "subscriber_json x = JObj (subscriber_members x)"

definition streams_members :: "StreamsInfo \<Rightarrow> (pystr \<times> json) list" where
  "streams_members x =
    [member ''limit_subscribers'' (JArr (map subscriber_json (str_limit_subscribers x))),
     member ''quota_subscribers'' (JArr (map subscriber_json (str_quota_subscribers x))),
     member ''limit_events_dropped_total'' (str_limit_events_dropped_total x),
     member ''quota_events_dropped_total'' (str_quota_events_dropped_total x)]"

definition streams_json :: "StreamsInfo \<Rightarrow> json" where
  "streams_json x = JObj (streams_members x)"

definition warning_members :: "InspectWarning \<Rightarrow> (pystr \<times> json) list" where
  "warning_members x =
    [member ''code'' (wrn_code x),
     member ''severity'' (wrn_severity x),
     member ''message'' (wrn_message x),
     member ''details'' (wrn_details x)]"

definition warning_json :: "InspectWarning \<Rightarrow> json" where
  "warning_json x = JObj (warning_members x)"

definition report_members :: "InspectReport \<Rightarrow> (pystr \<times> json) list" where
  "report_members x =
    [member ''section'' (rpt_section x),
     member ''ts'' (rpt_ts x)] @
    optional_member ''instance'' instance_json (rpt_instance x) @
    optional_member ''persistence'' persistence_json (rpt_persistence x) @
    optional_member ''wal'' wal_json (rpt_wal x) @
    optional_member ''dump'' dump_json (rpt_dump x) @
    optional_member ''repl'' repl_json (rpt_repl x) @
    optional_member ''engine'' engine_json (rpt_engine x) @
    optional_member ''streams'' streams_json (rpt_streams x) @
    [member ''warnings'' (JArr (map warning_json (rpt_warnings x)))]"

definition report_json :: "InspectReport \<Rightarrow> json" where
  "report_json x = JObj (report_members x)"

section \<open>Reading a report back\<close>

lemma ustr_inj [simp]: "ustr a = ustr b \<longleftrightarrow> a = b"
  by (simp add: ustr_def inj_map_eq_map inj_on_def)

named_theorems members "reading a key of a list of members"

lemma jget_member [members]:
  "jget (member k v # r) key d = (if k = key then v else jget r key d)"
  "jget (optional_member k f x @ r) key d =
     (if k = key then (case x of None \<Rightarrow> jget r key d | Some y \<Rightarrow> f y) else jget r key d)"
  by (auto simp: jget_def member_def optional_member_def split: option.splits)

lemma section_member [members]:
  "section_of (member k v # r) key = (if k = key then json_dict v else section_of r key)"
  "section_of (optional_member k f x @ r) key =
     (if k = key then (case x of None \<Rightarrow> section_of r key | Some y \<Rightarrow> json_dict (f y)) else section_of r key)"
  by (auto simp: section_of_def member_def optional_member_def split: option.splits json.splits)

lemma items_member [members]:
  "dict_items (member k (JArr vs) # r) key = (if k = key then List.map_filter json_dict vs else dict_items r key)"
  "k \<noteq> key \<Longrightarrow> dict_items (member k v # r) key = dict_items r key"
  "k \<noteq> key \<Longrightarrow> dict_items (optional_member k f x @ r) key = dict_items r key"
  by (auto simp: dict_items_def member_def optional_member_def split: option.splits)

lemma items_back [members]:
  assumes "\<And>x. x \<in> set xs \<Longrightarrow> map_option f (json_dict (j x)) = Some x"
  shows "map f (List.map_filter json_dict (map j xs)) = xs"
  using assms by (induction xs) (fastforce simp: List.map_filter_simps split: option.split)+

lemma instance_back: "instance_of (instance_members x @ extra) = x"
  by (cases x) (simp add: instance_of_def instance_members_def members)

lemma persistence_back: "persistence_of (persistence_members x @ extra) = x"
  by (cases x) (simp add: persistence_of_def persistence_members_def members)

lemma wal_back: "wal_of (wal_members x @ extra) = x"
  by (cases x) (simp add: wal_of_def wal_members_def members)

lemma dump_back: "dump_of (dump_members x @ extra) = x"
  by (cases x) (simp add: dump_of_def dump_members_def members)

lemma replica_back: "replica_of (replica_members x @ extra) = x"
  by (cases x) (simp add: replica_of_def replica_members_def members)

lemma slave_back: "slave_of (slave_members x @ extra) = x"
  by (cases x) (simp add: slave_of_def slave_members_def members)

lemma partition_back: "partition_of (partition_members x @ extra) = x"
  by (cases x) (simp add: partition_of_def partition_members_def members)

lemma subscriber_back: "subscriber_of (subscriber_members x @ extra) = x"
  by (cases x) (simp add: subscriber_of_def subscriber_members_def members)

lemma warning_back:
  "truthy (wrn_details x) \<or> wrn_details x = JObj [] \<Longrightarrow> warning_of (warning_members x @ extra) = x"
  by (cases x) (auto simp: warning_of_def warning_members_def members Let_def)

lemmas backs = instance_back persistence_back wal_back dump_back replica_back slave_back partition_back
  subscriber_back warning_back

lemmas plain_backs = backs [where extra = "[]", simplified]

text \<open>\<open>extra\<close> has none of the keys.\<close>

definition lacks :: "(pystr \<times> json) list \<Rightarrow> string set \<Rightarrow> bool" where
  "lacks extra keys \<longleftrightarrow> (\<forall>k \<in> keys. ustr k \<notin> fst ` set extra)"

lemma section_lacks: "lacks extra keys \<Longrightarrow> k \<in> keys \<Longrightarrow> section_of extra k = None"
  by (auto simp: lacks_def section_of_def map_of_eq_None_iff [symmetric] split: option.split)

lemma repl_back: "lacks extra {''slave''} \<Longrightarrow> repl_of (repl_members x @ extra) = x"
  by (cases x) (simp add: repl_of_def repl_members_def members replica_json_def slave_json_def plain_backs
      section_lacks split: option.split)

lemma engine_back: "engine_of (engine_members x @ extra) = x"
  by (cases x) (simp add: engine_of_def engine_members_def members partition_json_def plain_backs)

lemma streams_back: "streams_of (streams_members x @ extra) = x"
  by (cases x) (simp add: streams_of_def streams_members_def subscribers_of_def members subscriber_json_def
      plain_backs)

text \<open>The sections a report may lack.\<close>

definition SECTIONS :: "string set" where
  "SECTIONS = {''instance'', ''persistence'', ''wal'', ''dump'', ''repl'', ''engine'', ''streams''}"

definition warnings_normal :: "InspectReport \<Rightarrow> bool" where
  "warnings_normal r \<longleftrightarrow>
     (\<forall>x \<in> set (rpt_warnings r). truthy (wrn_details x) \<or> wrn_details x = JObj [])"

lemma report_back:
  assumes "lacks extra SECTIONS" and "warnings_normal r"
  shows "report_of (report_members r @ extra) = r"
proof -
  have none: "section_of extra k = None" if "k \<in> SECTIONS" for k
    using assms(1) that by (rule section_lacks)
  have repl: "repl_of (repl_members x) = x" for x
    using repl_back [of "[]" x] by (simp add: lacks_def)
  show ?thesis
    using assms(2) none
    by (cases r)
       (simp add: report_of_def report_members_def members SECTIONS_def instance_json_def persistence_json_def
         wal_json_def dump_json_def repl_json_def engine_json_def streams_json_def warning_json_def
         plain_backs engine_back [where extra = "[]", simplified] streams_back [where extra = "[]", simplified]
         repl warnings_normal_def split: option.split)
qed

lemma ok_data_ok: "ok_data (''ok|'' @ data) = Inr data"
  by (simp add: ok_data_def split_response_def RESP_DELIMITER_def TAG_OK_def)

text \<open>
  C20. A report is read back as it was written, also from a newer server: for every report, when the JSON
  text of an OK answer is an object with the members of the report, followed by any others a newer
  server may add, \<open>parse_inspect\<close> returns exactly that report, with None for each section the object
  lacks. (The details of a warning are \<open>{}\<close> when they are falsy.)
\<close>

theorem inspect_roundtrip:
  assumes "json_loads depth data = Inr (JObj (report_members r @ extra))"
    and "lacks extra SECTIONS" and "warnings_normal r"
  shows "parse_inspect depth (''ok|'' @ data) = Inr r"
  using report_back [OF assms(2,3)] assms(1) ok_data_ok [of data] by (simp add: parse_inspect_def)

theorem inspect_roundtrip_witness:
  "parse_inspect 3 ''ok|{\"section\":\"wal\",\"ts\":7,\"warnings\":[],\"x\":[null]}'' =
     Inr \<lparr>rpt_section = JStr (ustr ''wal''), rpt_ts = JInt 7, rpt_instance = None, rpt_persistence = None,
       rpt_wal = None, rpt_dump = None, rpt_repl = None, rpt_engine = None, rpt_streams = None, rpt_warnings = []\<rparr>"
  (is "_ = Inr ?r")
proof -
  let ?data = "''{\"section\":\"wal\",\"ts\":7,\"warnings\":[],\"x\":[null]}''"
  have "json_loads 3 ?data = Inr (JObj (report_members ?r @ [(ustr ''x'', JArr [JNull])]))"
    using json_loads_sample by (simp add: report_members_def member_def optional_member_def)
  from inspect_roundtrip [OF this] show ?thesis
    by (simp add: lacks_def SECTIONS_def warnings_normal_def)
qed

text \<open>
  C21. Which reports are refused: of an OK answer, a text that is not JSON (or not UTF-8) and a JSON value
  that is no object raise CorruptedResponseError, every JSON object is accepted whatever its members and
  their types, and the only other exception is the RecursionError of a text nested deeper than the
  interpreter allows; such texts exist for every limit, and they do get through as RecursionError.
\<close>

theorem inspect_errors:
  "(ok_data payload = Inr data \<longrightarrow> (case json_loads depth data of
      Inr v \<Rightarrow> (case json_dict v of
          None \<Rightarrow> parse_inspect depth payload = Inl (Exc CorruptedResponseError)
        | Some raw \<Rightarrow> parse_inspect depth payload = Inr (report_of raw))
    | Inl e \<Rightarrow> parse_inspect depth payload = Inl (Exc CorruptedResponseError) \<or>
        e = Exc PyRecursionError \<and> parse_inspect depth payload = Inl e)) \<and>
   (4 \<le> depth' \<longrightarrow>
      parse_inspect depth' (''ok|'' @ replicate (Suc depth') CHR ''['') = Inl (Exc PyRecursionError))"
proof -
  have catch: "catches PyValueError (Exc PyValueError)" "\<not> catches PyValueError (Exc PyRecursionError)"
    by (simp_all add: catches_def issubclass_eval)
  have "json_failure e" if "json_loads depth data = Inl e" for e
    using json_loads_raises that .
  moreover have "parse_inspect depth' (''ok|'' @ replicate (Suc depth') CHR ''['') = Inl (Exc PyRecursionError)"
    if "4 \<le> depth'"
    using json_loads_deep [OF that] ok_data_ok [of "replicate (Suc depth') CHR ''[''"] catch
    by (simp add: parse_inspect_def)
  ultimately show ?thesis
    using catch
    by (auto simp: parse_inspect_def json_failure_def split: sum.split option.split json.split)
qed

theorem inspect_errors_witness:
  "parse_inspect 4 ''ok|[[[[['' = Inl (Exc PyRecursionError)"
proof -
  have five: "replicate (Suc 4) CHR ''['' = ''[[[[[''" by (simp add: numeral_eq_Suc)
  have "parse_inspect 4 (''ok|'' @ replicate (Suc 4) CHR ''['') = Inl (Exc PyRecursionError)"
    by (rule mp [OF conjunct2 [OF inspect_errors]]) simp
  then show ?thesis unfolding five by simp
qed

text \<open>The annotated types of the fields are not checked: any JSON value is stored.\<close>

lemma inspect_fields_unchecked:
  "json_loads depth data = Inr (JObj [(ustr ''ts'', v)]) \<Longrightarrow>
     \<exists>r. parse_inspect depth (''ok|'' @ data) = Inr r \<and> rpt_ts r = v"
  using ok_data_ok [of data] by (simp add: parse_inspect_def report_of_def jget_def)

end
