(* ===== verification/AsyncConnection.thy ===== *)
theory AsyncConnection
  imports ConnectionLife
begin

text \<open>
  \<open>fq/aio/connection.py\<close>: one asyncio connection. It has the attributes of the synchronous one, so the
  record is the same; \<open>cn_sock\<close> stands for the pair of \<open>_reader\<close> and \<open>_writer\<close>, which are set and cleared
  together. What differs is asyncio:
  \<^item> \<open>readexactly\<close> takes nothing from the stream's buffer before it has all it wants, so a timeout leaves
    every byte; a lost connection raises at once, whatever is still buffered;
  \<^item> \<open>asyncio.timeout\<close> bounds a whole block by one point in time, where a socket timeout starts anew with
    every call;
  \<^item> \<open>write\<close> leaves the bytes with the transport, which sends them in the background, and \<open>drain\<close> waits
    for it. A transport whose peer takes no more (\<open>Stalled\<close>) is stuck, shown by \<open>usable\<close>: it makes every
    later \<open>drain\<close> wait, and \<open>wait_closed\<close>, which waits until everything is sent, never return.
  Cancellation of a task in the middle of a call is not modelled.
\<close>

section \<open>Streams of asyncio\<close>

text \<open>Whether something that happens at \<open>t0\<close> comes before the timeout, and what the timeout does.\<close>

definition due :: "real option \<Rightarrow> real \<Rightarrow> bool" where
  "due limit t0 \<longleftrightarrow> (case limit of None \<Rightarrow> True | Some e \<Rightarrow> t0 \<le> e)"

definition give_up :: "real option \<Rightarrow> real \<Rightarrow> 'a outcome \<times> real" where
  "give_up limit t = (case limit of
      None \<Rightarrow> (Blocked, t)
    | Some e \<Rightarrow> (Raise (Exc PyTimeoutError), max t e))"

text \<open>The connection was lost by \<open>t\<close>: everything up to the reset has arrived.\<close>

fun lost :: "real \<Rightarrow> arrival list \<Rightarrow> bool" where
  "lost t (Chunk t0 bs # rest) \<longleftrightarrow> t0 \<le> t \<and> lost t rest"
| "lost t (Reset t0 # rest) \<longleftrightarrow> t0 \<le> t"
| "lost t _ \<longleftrightarrow> False"

text \<open>
  Collecting \<open>n\<close> bytes. What was collected goes back to the buffer when the timeout comes first, and is
  dropped with it at the end of the stream.
\<close>

fun stream_gather :: "real option \<Rightarrow> nat \<Rightarrow> real \<Rightarrow> arrival list \<Rightarrow> bytes outcome \<times> arrival list \<times> real" where
  "stream_gather limit n t [] = (case give_up limit t of (r, t') \<Rightarrow> (r, [], t'))"
| "stream_gather limit n t (Eof t0 # rest) =
     (if due limit t0 then (Raise (Exc PyIncompleteReadError), Eof t0 # rest, max t t0)
      else case give_up limit t of (r, t') \<Rightarrow> (r, Eof t0 # rest, t'))"
| "stream_gather limit n t (Reset t0 # rest) =
     (if due limit t0 then (Raise (Exc PyOSError), Reset t0 # rest, max t t0)
      else case give_up limit t of (r, t') \<Rightarrow> (r, Reset t0 # rest, t'))"
| "stream_gather limit n t (Chunk t0 bs # rest) =
     (if \<not> due limit t0 then case give_up limit t of (r, t') \<Rightarrow> (r, Chunk t0 bs # rest, t')
      else if n < length bs then (Return (take n bs), Chunk t0 (drop n bs) # rest, max t t0)
      else if n = length bs then (Return bs, rest, max t t0)
      else case stream_gather limit (n - length bs) (max t t0) rest of
        (Return more_bytes, rest', t') \<Rightarrow> (Return (bs @ more_bytes), rest', t')
      | (Raise e, rest', t') \<Rightarrow>
          (Raise e, if catches PyTimeoutError e then Chunk t0 bs # rest' else rest', t')
      | (Blocked, rest', t') \<Rightarrow> (Blocked, Chunk t0 bs # rest', t'))"

definition stream_readexactly :: "nat \<Rightarrow> real option \<Rightarrow> sock \<Rightarrow> real \<Rightarrow> bytes outcome \<times> sock \<times> real" where
  "stream_readexactly n limit sk t =
     (if lost t (rx sk) then (Raise (Exc PyOSError), sk, t)
      else case stream_gather limit n t (rx sk) of (r, rest, t') \<Rightarrow> (r, sk\<lparr>rx := rest\<rparr>, t'))"

text \<open>\<open>write\<close> and \<open>drain\<close>: the outcome, the bytes the transport was left with, the transport, the time.\<close>

definition stream_write :: "bytes \<Rightarrow> real option \<Rightarrow> sock \<Rightarrow> real \<Rightarrow> unit outcome \<times> bytes \<times> sock \<times> real" where
  "stream_write bs limit sk t =
     (if \<not> usable sk then case give_up limit t of (r, t') \<Rightarrow> (r, bs, sk, t')
      else case tx sk of
        [] \<Rightarrow> (Return (), bs, sk, t)
      | Sent dt # rest \<Rightarrow>
          (let sk' = sk\<lparr>tx := rest\<rparr>; t1 = t + max 0 dt in
           if due limit t1 then (Return (), bs, sk', t1)
           else case give_up limit t of (r, t') \<Rightarrow> (r, bs, sk', t'))
      | Broken dt k # rest \<Rightarrow>
          (let sk' = sk\<lparr>tx := rest\<rparr>; t1 = t + max 0 dt; handed = take (min k (length bs - 1)) bs in
           if due limit t1 then (Raise (Exc PyOSError), handed, sk', t1)
           else case give_up limit t of (r, t') \<Rightarrow> (r, handed, sk', t'))
      | Stalled k # rest \<Rightarrow>
          (case give_up limit t of (r, t') \<Rightarrow> (r, bs, sk\<lparr>tx := rest, usable := False\<rparr>, t')))"

text \<open>
  \<open>async with asyncio.timeout(timeout): await asyncio.open_connection(host, port, ssl=...,
  server_hostname=...)\<close>, the TLS handshake included when there is a \<open>hostname\<close> for it.
\<close>

definition in_span :: "real \<Rightarrow> real \<Rightarrow> bool" where
  "in_span timeout d \<longleftrightarrow> 0 < timeout \<and> d \<le> timeout"

definition open_connection ::
  "pystr \<Rightarrow> int \<Rightarrow> pystr option \<Rightarrow> real \<Rightarrow> (world, sock) prog" where
  "open_connection host port hostname timeout w =
     (let w = record_event (NetDial host port) w in
      case dials w of
        [] \<Rightarrow> (Raise (Exc (if 0 < timeout then PyOSError else PyTimeoutError)), w)
      | Refused dt # rest \<Rightarrow>
          if in_span timeout (max 0 dt) then (Raise (Exc PyOSError), elapse dt (w\<lparr>dials := rest\<rparr>))
          else (Raise (Exc PyTimeoutError), elapse timeout (w\<lparr>dials := rest\<rparr>))
      | Accepted dt tls sk # rest \<Rightarrow>
          if \<not> in_span timeout (max 0 dt) then (Raise (Exc PyTimeoutError), elapse timeout (w\<lparr>dials := rest\<rparr>))
          else case hostname of
            None \<Rightarrow> (Return sk, elapse dt (w\<lparr>dials := rest\<rparr>))
          | Some h \<Rightarrow>
              let w = record_event (NetTLS h) (w\<lparr>dials := rest\<rparr>) in
              case tls of
                TlsOk d \<Rightarrow>
                  if in_span timeout (max 0 dt + max 0 d) then (Return sk, elapse (max 0 dt + max 0 d) w)
                  else (Raise (Exc PyTimeoutError), record_event NetClose (elapse timeout w))
              | TlsFail d \<Rightarrow>
                  if in_span timeout (max 0 dt + max 0 d)
                  then (Raise (Exc PyOSError), record_event NetClose (elapse (max 0 dt + max 0 d) w))
                  else (Raise (Exc PyTimeoutError), record_event NetClose (elapse timeout w)))"

section \<open>Primitives\<close>

definition conn_readexactly :: "nat \<Rightarrow> real option \<Rightarrow> (cstate, bytes) prog" where
  "conn_readexactly n limit s = (case s of (c, w) \<Rightarrow> (case cn_sock c of
      None \<Rightarrow> (Raise (Exc PyOSError), (c, w))
    | Some sk \<Rightarrow> (case stream_readexactly n limit sk (now w) of
        (r, sk', t) \<Rightarrow> (r, (c\<lparr>cn_sock := Some sk'\<rparr>, w\<lparr>now := t\<rparr>)))))"

definition conn_write :: "bytes \<Rightarrow> real option \<Rightarrow> (cstate, unit) prog" where
  "conn_write bs limit s = (case s of (c, w) \<Rightarrow> (case cn_sock c of
      None \<Rightarrow> (Raise (Exc PyOSError), (c, w))
    | Some sk \<Rightarrow> (case stream_write bs limit sk (now w) of
        (r, handed, sk', t) \<Rightarrow>
          (r, (c\<lparr>cn_sock := Some sk'\<rparr>, record_event (NetSend handed) (w\<lparr>now := t\<rparr>))))))"

text \<open>The end of \<open>asyncio.timeout(deadline.remaining())\<close>, entered at \<open>t\<close>.\<close>

definition limit_of :: "Deadline \<Rightarrow> real \<Rightarrow> real option" where
  "limit_of dl t = map_option (\<lambda>r. t + r) (Deadline_remaining dl t)"

section \<open>Frames\<close>

definition AsyncConnection_closed :: "connection \<Rightarrow> bool" where
  "AsyncConnection_closed c \<longleftrightarrow> cn_sock c = None"

definition AsyncConnection_require_reader :: "(cstate, unit) prog" where
  "AsyncConnection_require_reader s =
     (if cn_sock (fst s) = None then (Raise (Exc FQConnectionError), s) else (Return (), s))"

definition AsyncConnection_require_writer :: "(cstate, unit) prog" where
  "AsyncConnection_require_writer s =
     (if cn_sock (fst s) = None then (Raise (Exc FQConnectionError), s) else (Return (), s))"

definition AsyncConnection_read_frame :: "Deadline \<Rightarrow> (cstate, bytes) prog" where
  "AsyncConnection_read_frame dl = pbind AsyncConnection_require_reader (\<lambda>_.
     pbind clock (\<lambda>t. pbind (plift (Deadline_check dl t)) (\<lambda>_.
     pcatch
       (pbind (conn_readexactly FRAME_HEADER_SIZE (limit_of dl t)) (\<lambda>header.
        pbind (pget (\<lambda>(c, w). cn_max_message_size c)) (\<lambda>limit.
        pbind (plift (decode_frame_size header limit)) (\<lambda>size.
          if size = 0 then pret [] else conn_readexactly size (limit_of dl t)))))
       (\<lambda>e. if catches PyTimeoutError e then praise (Exc FQTimeoutError)
            else if catches PyIncompleteReadError e then praise (Exc FQConnectionError)
            else if catches PyOSError e then praise (Exc FQConnectionError)
            else praise e))))"

definition AsyncConnection_write_request :: "Command \<Rightarrow> Deadline \<Rightarrow> (cstate, unit) prog" where
  "AsyncConnection_write_request command dl =
     pbind (pget (\<lambda>(c, w). cn_max_message_size c)) (\<lambda>limit.
     pbind (plift (check_request_size (payload command) limit)) (\<lambda>_.
     pbind AsyncConnection_require_writer (\<lambda>_.
     pbind clock (\<lambda>t. pbind (plift (Deadline_check dl t)) (\<lambda>_.
     pbind (pcatch (pbind (plift (encode_frame (payload command))) (\<lambda>frame. conn_write frame (limit_of dl t)))
       (\<lambda>e. if catches PyTimeoutError e
            then pbind (set_in_flight True) (\<lambda>_. praise (Exc FQTimeoutError))
            else if catches PyOSError e then praise (Exc FQConnectionError)
            else praise e)) (\<lambda>_.
     set_in_flight True))))))"

definition AsyncConnection_send :: "Command \<Rightarrow> Deadline \<Rightarrow> (cstate, bytes) prog" where
  "AsyncConnection_send command dl = pbind (AsyncConnection_write_request command dl) (\<lambda>_.
     pbind (AsyncConnection_read_frame dl) (\<lambda>response.
     pbind (set_in_flight False) (\<lambda>_. pret response)))"

section \<open>Opening and closing\<close>

text \<open>\<open>wait_closed\<close> waits for a stuck transport for ever; OSError is suppressed.\<close>

definition AsyncConnection_close :: "(cstate, unit) prog" where
  "AsyncConnection_close s = (case s of (c, w) \<Rightarrow> (case cn_sock c of
      None \<Rightarrow> (Return (), (c, w))
    | Some sk \<Rightarrow>
        (if usable sk then Return () else Blocked, (c\<lparr>cn_sock := None\<rparr>, record_event NetClose w))))"

definition AsyncConnection_handshake :: "(cstate, unit) prog" where
  "AsyncConnection_handshake = pbind (pget fst) (\<lambda>c.
     pbind (plift (hello (cn_token c))) (\<lambda>command.
     pbind clock (\<lambda>t.
     pbind (AsyncConnection_send command (Deadline_new (Some (cn_connect_timeout c)) t)) (\<lambda>response.
     pbind (plift (parse_hello response)) (\<lambda>info.
       if hi_version info \<noteq> PROTOCOL_VERSION then praise (Exc CorruptedResponseError)
       else pmodify (\<lambda>(c, w). (apply_hello info c, w)))))))"

definition AsyncConnection_dial :: "connection \<Rightarrow> pystr \<Rightarrow> int \<Rightarrow> (cstate, sock) prog" where
  "AsyncConnection_dial c host port =
     pcatch (on_world (open_connection host port
         (if cn_ssl_context c = None then None else Some (tls_hostname c host)) (cn_connect_timeout c)))
       (\<lambda>e. if catches PyTimeoutError e then praise (Exc FQTimeoutError)
            else if catches PyOSError e then praise (Exc FQConnectionError)
            else praise e)"

definition AsyncConnection_connect :: "(cstate, unit) prog" where
  "AsyncConnection_connect = pbind (pget fst) (\<lambda>c.
     pbind (plift (split_address (cn_address c))) (\<lambda>(host, port).
     pbind (AsyncConnection_dial c host port) (\<lambda>sk.
     pbind (pmodify (\<lambda>(c, w). (install_socket sk c, w))) (\<lambda>_.
       pcatch AsyncConnection_handshake (\<lambda>e. pbind AsyncConnection_close (\<lambda>_. praise e))))))"

definition AsyncConnection_reconnect :: "(cstate, unit) prog" where
  "AsyncConnection_reconnect = pbind AsyncConnection_close (\<lambda>_. AsyncConnection_connect)"

section \<open>Reading makes progress\<close>

lemma give_up_not_Return: "give_up limit t \<noteq> (Return x, t')"
  by (simp add: give_up_def split: option.split)

lemma stream_gather_Return:
  "stream_gather limit n t as = (Return bs, as', t') \<Longrightarrow>
     length bs = n \<and> sum_list (map arrival_size as) = n + sum_list (map arrival_size as')"
  by (induction limit n t as arbitrary: bs as' t' rule: stream_gather.induct)
     (auto simp: give_up_not_Return Let_def split: prod.splits if_splits outcome.splits)

lemma conn_readexactly_Return:
  "conn_readexactly n limit s = (Return bs, s') \<Longrightarrow> length bs = n \<and> conn_rx_size s = n + conn_rx_size s'"
  by (auto simp: conn_readexactly_def stream_readexactly_def conn_rx_size_def rx_size_def
      dest!: stream_gather_Return split: prod.splits option.splits if_splits)

lemma require_reader_Return: "AsyncConnection_require_reader s = (Return x, t) \<Longrightarrow> t = s"
  by (auto simp: AsyncConnection_require_reader_def split: if_splits)

lemma pcatch_reraise:
  "pcatch m (\<lambda>e. if P e then praise (a e) else if Q e then praise (b e) else if R e then praise (c e)
     else praise e) s = (Return x, t) \<longleftrightarrow> m s = (Return x, t)"
  by (auto simp: pcatch_def praise_def split: prod.splits outcome.splits if_splits)

lemma async_read_frame_Return:
  assumes "AsyncConnection_read_frame dl s = (Return f, t)"
  shows "conn_rx_size s = length f + 4 + conn_rx_size t"
proof -
  let ?limit = "limit_of dl (now (snd s))"
  obtain header u size where h: "conn_readexactly FRAME_HEADER_SIZE ?limit s = (Return header, u)"
    and rest: "(if size = 0 then pret [] else conn_readexactly size ?limit) u = (Return f, t)"
    using assms
    by (auto simp: AsyncConnection_read_frame_def pbind_eq_Return pget_def clock_def pcatch_reraise
        case_prod_unfold dest!: require_reader_Return)
  have "conn_rx_size u = length f + conn_rx_size t"
    using rest by (auto simp: pret_def split: if_splits dest: conn_readexactly_Return)
  then show ?thesis
    using conn_readexactly_Return [OF h] by (simp add: FRAME_HEADER_SIZE_def)
qed

section \<open>Split responses and streams\<close>

function async_chunked_loop :: "Deadline \<Rightarrow> assembler \<Rightarrow> cstate \<Rightarrow> bytes outcome \<times> cstate" where
  "async_chunked_loop dl assembler s = (case AsyncConnection_read_frame dl s of
      (Raise e, s') \<Rightarrow> (Raise e, s')
    | (Blocked, s') \<Rightarrow> (Blocked, s')
    | (Return frame, s') \<Rightarrow> (case ChunkAssembler_feed assembler frame of
        (Inl e, assembler') \<Rightarrow> (Raise e, s')
      | (Inr (Some response), assembler') \<Rightarrow> pbind (set_in_flight False) (\<lambda>_. pret response) s'
      | (Inr None, assembler') \<Rightarrow> async_chunked_loop dl assembler' s'))"
  by pat_completeness auto
termination
  by (relation "measure (\<lambda>(dl, assembler, s). conn_rx_size s)")
     (auto dest!: sym [of _ "AsyncConnection_read_frame _ _"] async_read_frame_Return)

declare async_chunked_loop.simps [simp del]

definition AsyncConnection_send_chunked :: "Command \<Rightarrow> Deadline \<Rightarrow> (cstate, bytes) prog" where
  "AsyncConnection_send_chunked command dl = pbind (AsyncConnection_write_request command dl) (\<lambda>_.
     async_chunked_loop dl ChunkAssembler_new)"

definition AsyncConnection_open_stream :: "Command \<Rightarrow> (cstate, unit) prog" where
  "AsyncConnection_open_stream command =
     pbind clock (\<lambda>t. AsyncConnection_write_request command (Deadline_new None t))"

definition AsyncConnection_stream_next :: "real option \<Rightarrow> (cstate, bytes option) prog" where
  "AsyncConnection_stream_next poll_interval = pbind clock (\<lambda>t. (case poll_interval of
      None \<Rightarrow> pbind (AsyncConnection_read_frame (Deadline_new None t)) (\<lambda>f. pret (Some f))
    | Some interval \<Rightarrow>
        pcatch (pbind (AsyncConnection_read_frame (Deadline_new (Some interval) t)) (\<lambda>f. pret (Some f)))
          (\<lambda>e. if catches FQTimeoutError e then pret None else praise e)))"

end
