(* ===== verification/AsyncFacts.thy ===== *)
theory AsyncFacts
  imports AsyncConnection
begin

text \<open>
  The asyncio connection keeps the contract \<open>connection_class\<close>, so everything proved there holds of it
  as well; it agrees with the synchronous connection wherever a call can be carried; and its calls end
  by their deadline.
\<close>

section \<open>Writing and reading\<close>

lemma limit_of_eq: "limit_of dl t = dl_at dl"
  by (simp add: limit_of_def Deadline_remaining_def option.map_comp comp_def option.map_ident)

lemma give_up_cases:
  "give_up limit t = (r, t') \<Longrightarrow> r = Blocked \<and> limit = None \<or> r = Raise (Exc PyTimeoutError) \<and> limit \<noteq> None"
  by (auto simp: give_up_def split: option.splits)

lemma stream_write_cases:
  assumes "stream_write bs limit sk t = (r, h, sk', t')" and "bs \<noteq> []"
  shows "prefix h bs \<and> (r = Return () \<and> h = bs \<or> r = Raise (Exc PyOSError) \<and> length h < length bs \<or>
     r = Raise (Exc PyTimeoutError) \<or> r = Blocked \<and> limit = None)"
  using assms
  by (auto simp: stream_write_def Let_def take_is_prefix min_less_iff_disj dest!: give_up_cases
      split: if_splits list.splits sending.splits prod.splits)

lemma hands_over_write: "cn_sock (fst s) \<noteq> None \<Longrightarrow> hands_over (\<lambda>bs. conn_write bs limit) s"
  unfolding hands_over_def
  by (auto simp: conn_write_def split: prod.splits option.splits dest!: stream_write_cases)

lemma require_writer_Return:
  "AsyncConnection_require_writer s = (r, t) \<Longrightarrow>
     t = s \<and> (r = Return () \<and> cn_sock (fst s) \<noteq> None \<or> r = Raise (Exc FQConnectionError))"
  by (auto simp: AsyncConnection_require_writer_def split: if_splits)

lemma async_write_request_outcome:
  assumes "AsyncConnection_write_request command dl s = (r, t)"
  shows "write_outcome command s r t"
proof -
  let ?limit = "limit_of dl (now (snd s))"
  let ?tail = "pbind (pcatch (pbind (plift (encode_frame (payload command))) (\<lambda>frame. conn_write frame ?limit))
       (\<lambda>e. if catches PyTimeoutError e then pbind (set_in_flight True) (\<lambda>_. praise (Exc FQTimeoutError))
            else if catches PyOSError e then praise (Exc FQConnectionError)
            else praise e)) (\<lambda>_. set_in_flight True)"
  have "?tail s = (r, t) \<and> cn_sock (fst s) \<noteq> None \<or> t = s \<and> r \<noteq> Return ()"
    using assms
    by (auto simp: AsyncConnection_write_request_def AsyncConnection_require_writer_def clock_def
        prog_defs case_prod_unfold split: sum.splits if_splits)
  then show ?thesis
    using write_tail_outcome [OF hands_over_write [of s ?limit], of command r t]
    by (auto simp: write_outcome_def)
qed

lemma open_kept_write [wp]: "keeps open_kept (conn_write bs limit)"
  by (rule keepsI) (auto simp: conn_write_def open_kept_def split: prod.splits option.splits)

lemma open_kept_require_writer [wp]: "keeps open_kept AsyncConnection_require_writer"
  by (rule keepsI) (auto simp: AsyncConnection_require_writer_def open_kept_def split: if_splits)

lemma async_open_kept: "keeps open_kept (AsyncConnection_write_request command dl)"
  unfolding AsyncConnection_write_request_def clock_def
  by (intro wp opened.keeps_pbind opened.keeps_pure opened.keeps_if opened.keeps_pcatch)

lemma unblocked_write: "limit \<noteq> None \<Longrightarrow> unblocked P (conn_write bs limit) (\<lambda>_. True)"
  by (auto simp: unblocked_def conn_write_def stream_write_def Let_def give_up_def
      split: prod.splits option.splits list.splits sending.splits if_splits)

lemma unblocked_require_writer: "unblocked P AsyncConnection_require_writer P"
  by (auto simp: unblocked_def AsyncConnection_require_writer_def)

lemma async_write_back:
  assumes "dl_at dl \<noteq> None"
  shows "unblocked P (AsyncConnection_write_request command dl) (\<lambda>_. True)"
proof -
  have send: "unblocked Q (pbind (plift (encode_frame p)) (\<lambda>f. conn_write f (limit_of dl t))) (\<lambda>_. True)" for Q t p
    by (intro unblocked_pbind [OF unblocked_pure(2)] unblocked_write) (simp add: limit_of_eq assms)
  have mark: "unblocked (\<lambda>_. True) (pbind (set_in_flight b) (\<lambda>_. praise e)) (\<lambda>_. True)" for b e
    by (rule unblocked_pbind [OF unblocked_flag unblocked_pure(4)])
  show ?thesis
    unfolding AsyncConnection_write_request_def clock_def
    by (intro unblocked_pbind [OF unblocked_pure(3)] unblocked_pbind [OF unblocked_pure(2)]
        unblocked_pbind [OF unblocked_require_writer] unblocked_pbind [OF unblocked_pcatch [OF send]]
        unblocked_if unblocked_flag mark unblocked_pure(4))
qed

text \<open>Reading: only the socket and the clock change, and a frame is read whole.\<close>

lemma quiet_readexactly [wp]: "keeps quiet (conn_readexactly n limit)"
  by (rule keepsI) (auto simp: conn_readexactly_def quiet_def sends_now split: prod.splits option.splits)

lemma quiet_require_reader [wp]: "keeps quiet AsyncConnection_require_reader"
  by (rule keepsI) (auto simp: AsyncConnection_require_reader_def quiet_def split: if_splits)

lemma async_read_quiet: "keeps quiet (AsyncConnection_read_frame dl)"
  unfolding AsyncConnection_read_frame_def clock_def
  by (intro wp reading.keeps_pbind reading.keeps_pure reading.keeps_if reading.keeps_pcatch)

lemma stream_gather_back:
  "stream_gather limit n t as = (r, as', t') \<Longrightarrow> limit \<noteq> None \<Longrightarrow> r \<noteq> Blocked"
  by (induction limit n t as arbitrary: r as' t' rule: stream_gather.induct)
     (auto simp: Let_def dest!: give_up_cases split: prod.splits if_splits outcome.splits)

lemma unblocked_readexactly: "limit \<noteq> None \<Longrightarrow> unblocked P (conn_readexactly n limit) (\<lambda>_. True)"
  by (auto simp: unblocked_def conn_readexactly_def stream_readexactly_def dest: stream_gather_back
      split: prod.splits option.splits if_splits)

lemma unblocked_require_reader: "unblocked P AsyncConnection_require_reader P"
  by (auto simp: unblocked_def AsyncConnection_require_reader_def)

lemma async_read_back:
  assumes "dl_at dl \<noteq> None"
  shows "unblocked P (AsyncConnection_read_frame dl) (\<lambda>_. True)"
proof -
  have exact: "unblocked Q (conn_readexactly n (limit_of dl t)) (\<lambda>_. True)" for Q n t
    by (rule unblocked_readexactly) (simp add: limit_of_eq assms)
  have empty: "unblocked Q (pret x) (\<lambda>_. True)" for Q :: "cstate \<Rightarrow> bool" and x :: bytes
    by (simp add: unblocked_def pret_def)
  show ?thesis
    unfolding AsyncConnection_read_frame_def clock_def
    by (intro unblocked_pbind [OF unblocked_pure(3)] unblocked_pbind [OF unblocked_pure(2)]
        unblocked_pbind [OF unblocked_require_reader] unblocked_pbind [OF exact] unblocked_pcatch
        unblocked_if unblocked_pure(4) exact empty)
qed

text \<open>A stream on which no connection was lost.\<close>

definition unbroken :: "arrival list \<Rightarrow> bool" where
  "unbroken as \<longleftrightarrow> (\<forall>a \<in> set as. \<forall>t. a \<noteq> Reset t)"

lemma unbroken_not_lost: "unbroken as \<Longrightarrow> \<not> lost t as"
  by (induction t as rule: lost.induct) (auto simp: unbroken_def)

definition async_ready :: "Deadline \<Rightarrow> cstate \<Rightarrow> bool" where
  "async_ready dl s \<longleftrightarrow> readable dl s \<and> (\<forall>sk. cn_sock (fst s) = Some sk \<longrightarrow> unbroken (rx sk))"

lemma due_deadline: "\<not> Deadline_expired dl t0 \<Longrightarrow> due (dl_at dl) t0"
  by (auto simp: due_def deadline_defs split: option.splits)

lemma stream_gather_stream:
  assumes "0 < n" and "n \<le> length (rx_data as)" and "\<forall>a \<in> set as. arrives dl a"
    and "\<not> Deadline_expired dl t" and "unbroken as"
  shows "\<exists>as' t'. stream_gather (dl_at dl) n t as = (Return (take n (rx_data as)), as', t') \<and>
    rx_data as' = drop n (rx_data as) \<and> (\<forall>a \<in> set as'. arrives dl a) \<and> \<not> Deadline_expired dl t' \<and>
    unbroken as'"
  using assms
proof (induction "dl_at dl" n t as rule: stream_gather.induct)
  case (4 n t t0 bs rest)
  have bs: "bs \<noteq> []" "\<not> Deadline_expired dl t0" using 4(4) by (simp_all add: arrives_def)
  note later = not_expired_max [OF 4(5) bs(2)] due_deadline [OF bs(2)]
  show ?case
  proof (cases "length bs < n")
    case True
    have "\<exists>as' t'. stream_gather (dl_at dl) (n - length bs) (max t t0) rest =
        (Return (take (n - length bs) (rx_data rest)), as', t') \<and>
      rx_data as' = drop (n - length bs) (rx_data rest) \<and> (\<forall>a \<in> set as'. arrives dl a) \<and>
      \<not> Deadline_expired dl t' \<and> unbroken as'"
      using 4(1) [OF _ _ _ _ _ _ later(1)] 4(3-6) True later(2) by (auto simp: unbroken_def)
    then show ?thesis using True later(2) by auto
  next
    case False
    then have "n < length bs \<or> n = length bs" by auto
    then show ?thesis
      using 4(4,6) later bs by (elim disjE) (auto simp: arrives_def unbroken_def)
  qed
qed auto

lemma conn_readexactly_stream:
  assumes "cn_sock (fst s) = Some sk" and "async_ready dl s" and "0 < n"
    and "n \<le> length (rx_data (rx sk))"
  shows "\<exists>sk' t. conn_readexactly n (dl_at dl) s = (Return (take n (rx_data (rx sk))), after_read s sk' t) \<and>
    rx_data (rx sk') = drop n (rx_data (rx sk)) \<and> async_ready dl (after_read s sk' t)"
proof -
  have sk: "usable sk" "\<forall>a \<in> set (rx sk). arrives dl a" "\<not> Deadline_expired dl (now (snd s))" "unbroken (rx sk)"
    using assms(1,2) by (auto simp: async_ready_def readable_def)
  from stream_gather_stream [OF assms(3,4) sk(2,3,4)] obtain as t where
    g: "stream_gather (dl_at dl) n (now (snd s)) (rx sk) = (Return (take n (rx_data (rx sk))), as, t)"
      "rx_data as = drop n (rx_data (rx sk))" "\<forall>a \<in> set as. arrives dl a" "\<not> Deadline_expired dl t" "unbroken as"
    by blast
  then show ?thesis
    using assms(1) sk unbroken_not_lost [OF sk(4)]
    by (intro exI [of _ "sk\<lparr>rx := as\<rparr>"] exI [of _ t])
       (simp add: conn_readexactly_def stream_readexactly_def case_prod_unfold after_read_def
         async_ready_def readable_def)
qed

lemma async_ready_sock:
  "cn_sock (fst s) = cn_sock (fst t) \<Longrightarrow> now (snd s) = now (snd t) \<Longrightarrow> async_ready dl s = async_ready dl t"
  using readable_sock [of s t dl] by (simp add: async_ready_def)

lemma async_read_one_frame:
  assumes "async_ready dl s" and "framed [p] (cn_max_message_size (fst s))"
    and "incoming s = wire (p # fs) @ rest"
  shows "\<exists>t. AsyncConnection_read_frame dl s = (Return p, t) \<and> same_but_read s t \<and> async_ready dl t \<and>
    incoming t = wire fs @ rest"
proof -
  obtain sk where sk: "cn_sock (fst s) = Some sk" "\<not> Deadline_expired dl (now (snd s))"
    using assms(1) by (auto simp: async_ready_def readable_def split: option.splits)
  obtain frame where frame: "encode_frame p = Inr frame"
    using assms(2) encode_frame_total [of p] by (auto simp: framed_def)
  let ?data = "frame @ wire fs @ rest"
  have data: "rx_data (rx sk) = ?data"
    using assms(3) sk frame by (simp add: incoming_def wire_def)
  have len: "length frame = length p + 4" using encode_frame_length [OF frame] .
  obtain sk1 t1 where
    r1: "conn_readexactly FRAME_HEADER_SIZE (dl_at dl) s = (Return (take FRAME_HEADER_SIZE ?data), after_read s sk1 t1)" and
    d1: "rx_data (rx sk1) = drop FRAME_HEADER_SIZE ?data" "async_ready dl (after_read s sk1 t1)"
    using conn_readexactly_stream [OF sk(1) assms(1), of FRAME_HEADER_SIZE] data len
    by (auto simp: FRAME_HEADER_SIZE_def)
  have dec: "decode_frame_size (take FRAME_HEADER_SIZE ?data)
      (cn_max_message_size (fst (after_read s sk1 t1))) = Inr (length p)"
    and body: "take (length p) (drop FRAME_HEADER_SIZE ?data) = p"
    and rest: "drop (length p) (drop FRAME_HEADER_SIZE ?data) = wire fs @ rest"
    using own_header [OF frame, of "wire fs @ rest"] own_body [OF frame, of "wire fs @ rest"] assms(2)
    by (simp_all add: framed_def)
  obtain sk2 t2 where
    r2: "(if length p = 0 then pret [] else conn_readexactly (length p) (dl_at dl)) (after_read s sk1 t1) =
      (Return p, after_read s sk2 t2)" and
    d2: "rx_data (rx sk2) = wire fs @ rest" "async_ready dl (after_read s sk2 t2)"
  proof (cases "length p = 0")
    case True
    then show ?thesis using that [of sk1 t1] d1 rest by (simp add: pret_def)
  next
    case False
    then show ?thesis
      using that conn_readexactly_stream [of "after_read s sk1 t1" sk1 dl "length p"] d1 len body rest
      by (auto simp: FRAME_HEADER_SIZE_def)
  qed
  have "pbind (conn_readexactly FRAME_HEADER_SIZE (dl_at dl)) (\<lambda>header.
      pbind (pget (\<lambda>(c, w). cn_max_message_size c)) (\<lambda>limit. pbind (plift (decode_frame_size header limit)) (\<lambda>size.
        if size = 0 then pret [] else conn_readexactly size (dl_at dl)))) s = (Return p, after_read s sk2 t2)"
    (is "?body s = _") using r2 dec
    by (simp add: pbind_Return [of "conn_readexactly FRAME_HEADER_SIZE (dl_at dl)" s, OF r1] pbind_pget pbind_plift
        case_prod_unfold del: take_append)
  then have "pcatch ?body h s = (Return p, after_read s sk2 t2)" for h by (rule pcatch_Return [of ?body s])
  then have "AsyncConnection_read_frame dl s = (Return p, after_read s sk2 t2)"
    unfolding AsyncConnection_read_frame_def limit_of_eq clock_def using sk
    by (simp add: AsyncConnection_require_reader_def Deadline_check_def
        pbind_def [of AsyncConnection_require_reader] pbind_pget [of _ _ s] pbind_plift [of _ _ s] case_prod_unfold)
  with d2 show ?thesis
    by (intro exI [of _ "after_read s sk2 t2"]) (auto simp: same_but_read_def incoming_def)
qed

lemma async_write_sent:
  assumes "can_send command dl s" and "async_ready dl s"
  shows "\<exists>t. AsyncConnection_write_request command dl s = (Return (), t) \<and> async_ready dl t \<and>
    incoming t = incoming s \<and> sends (snd t) = sends (snd s) @ [wire [payload command]] \<and>
    cn_request_in_flight (fst t) \<and> cn_max_message_size (fst t) = cn_max_message_size (fst s)"
proof -
  obtain sk dt where sk: "cn_sock (fst s) = Some sk" "usable sk" "\<forall>a \<in> set (rx sk). arrives dl a"
    "\<not> Deadline_expired dl (now (snd s))" "sends_in sk = Some dt"
    "\<not> Deadline_expired dl (now (snd s) + dt)" "unbroken (rx sk)"
    using assms by (auto simp: can_send_def readable_def async_ready_def split: option.splits)
  have len: "length (payload command) < 2 ^ 32" "int (length (payload command)) \<le> cn_max_message_size (fst s)"
    using assms by (simp_all add: can_send_def framed_def)
  obtain h where frame: "encode_frame (payload command) = Inr (h @ payload command)"
    using encode_frame_total [OF len(1)] by blast
  let ?frame = "h @ payload command"
  let ?t = "((fst s)\<lparr>cn_sock := Some (sk\<lparr>tx := tl (tx sk)\<rparr>), cn_request_in_flight := True\<rparr>,
    record_event (NetSend ?frame) ((snd s)\<lparr>now := now (snd s) + dt\<rparr>))"
  have "stream_write ?frame (dl_at dl) sk (now (snd s)) =
      (Return (), ?frame, sk\<lparr>tx := tl (tx sk)\<rparr>, now (snd s) + dt)"
    using sk(2,5) due_deadline [OF sk(6)]
    by (auto simp: stream_write_def sends_in_def Let_def split: list.splits sending.splits)
  then have "AsyncConnection_write_request command dl s = (Return (), ?t)"
    using sk len frame
    by (simp add: AsyncConnection_write_request_def AsyncConnection_require_writer_def check_request_size_def
        clock_def Deadline_check_def limit_of_eq pbind_def pcatch_def pget_def conn_write_def
        set_in_flight_def pmodify_def case_prod_unfold)
  moreover have "async_ready dl ?t" using sk by (simp add: async_ready_def readable_def)
  moreover have "incoming ?t = incoming s" using sk by (simp add: incoming_def)
  ultimately show ?thesis using frame
    by (intro exI [of _ ?t]) (simp add: wire_def)
qed

section \<open>Dialing and closing\<close>

lemma async_dial_still: "keeps still (AsyncConnection_dial c host port)"
  by (rule keepsI)
     (auto simp: AsyncConnection_dial_def on_world_def open_connection_def Let_def still_def prog_defs
       sends_def record_event_def elapse_def
       split: prod.splits list.splits dial.splits tls_result.splits option.splits if_splits)

lemma async_dial_back: "unblocked P (AsyncConnection_dial c host port) (\<lambda>_. True)"
  by (auto simp: AsyncConnection_dial_def unblocked_def on_world_def open_connection_def Let_def prog_defs
      split: prod.splits list.splits dial.splits tls_result.splits option.splits if_splits)

lemma async_close_hangs_up: "AsyncConnection_close s = (r, t) \<Longrightarrow> hangs_up s r t"
  by (auto simp: AsyncConnection_close_def hangs_up_def split: prod.splits option.splits if_splits)

interpretation async_conn: connection_class AsyncConnection_write_request AsyncConnection_read_frame
  AsyncConnection_dial AsyncConnection_send async_chunked_loop AsyncConnection_send_chunked
  AsyncConnection_close AsyncConnection_handshake AsyncConnection_connect AsyncConnection_reconnect async_ready
  by unfold_locales
     (fact async_write_request_outcome async_open_kept async_write_back async_write_sent async_read_quiet
       async_read_back async_dial_still async_dial_back async_close_hangs_up async_chunked_loop.simps
       AsyncConnection_send_def AsyncConnection_send_chunked_def AsyncConnection_handshake_def
       AsyncConnection_connect_def AsyncConnection_reconnect_def |
      erule (2) async_read_one_frame | erule (1) async_ready_sock | erule (1) async_write_sent |
      simp add: async_read_frame_Return)+

text \<open>A bundle that evaluates a concrete run.\<close>

lemmas async_eval = AsyncConnection_require_reader_def AsyncConnection_require_writer_def
  AsyncConnection_read_frame_def AsyncConnection_write_request_def AsyncConnection_send_def
  AsyncConnection_close_def AsyncConnection_handshake_def AsyncConnection_dial_def
  AsyncConnection_connect_def AsyncConnection_reconnect_def conn_readexactly_def conn_write_def
  stream_readexactly_def stream_write_def open_connection_def in_span_def limit_of_def due_def give_up_def

section \<open>Agreement with the synchronous connection\<close>

text \<open>The same answer, the same bytes sent, the same place in the stream, the same flag.\<close>

definition alike :: "bytes outcome \<times> cstate \<Rightarrow> bytes outcome \<times> cstate \<Rightarrow> bool" where
  "alike a b \<longleftrightarrow> fst a = fst b \<and> incoming (snd a) = incoming (snd b) \<and>
     sends (snd (snd a)) = sends (snd (snd b)) \<and>
     cn_request_in_flight (fst (snd a)) = cn_request_in_flight (fst (snd b))"

text \<open>
  C6. The two connections are interchangeable: on a connection that can carry a call, whose server
  answers before the deadline and does not reset it, the asyncio \<open>send\<close> and \<open>send_chunked\<close> return the
  same answer as the synchronous ones, hand over the same bytes, leave the stream at the same place
  and clear the in-flight flag alike, however the answer is split and fragmented.
\<close>

theorem async_agrees_with_sync:
  assumes "can_send command dl s" and "async_ready dl s"
  shows "(framed [answer] (cn_max_message_size (fst s)) \<and> incoming s = wire [answer] @ rest \<longrightarrow>
      alike (AsyncConnection_send command dl s) (Connection_send command dl s)) \<and>
    (framed (map nxt_frame parts @ [''ok|'' @ last_part]) (cn_max_message_size (fst s)) \<and>
     incoming s = wire (map nxt_frame parts @ [''ok|'' @ last_part]) @ rest \<longrightarrow>
      alike (AsyncConnection_send_chunked command dl s) (Connection_send_chunked command dl s))"
proof (intro conjI impI; elim conjE)
  note sync = can_send_readable [OF assms(1)]
  assume a: "framed [answer] (cn_max_message_size (fst s))" "incoming s = wire [answer] @ rest"
  show "alike (AsyncConnection_send command dl s) (Connection_send command dl s)"
    using sync_conn.send_stream [OF assms(1) sync a] async_conn.send_stream [OF assms a]
    by (auto simp: alike_def)
next
  note sync = can_send_readable [OF assms(1)]
  assume a: "framed (map nxt_frame parts @ [''ok|'' @ last_part]) (cn_max_message_size (fst s))"
    "incoming s = wire (map nxt_frame parts @ [''ok|'' @ last_part]) @ rest"
  show "alike (AsyncConnection_send_chunked command dl s) (Connection_send_chunked command dl s)"
    using sync_conn.chunked_stream [OF assms(1) sync a] async_conn.chunked_stream [OF assms a]
    by (auto simp: alike_def)
qed

theorem async_agrees_with_sync_witness:
  "alike (AsyncConnection_send sample_command \<lparr>dl_at = Some 5\<rparr> (sample_state (sample_answers 1)))
     (Connection_send sample_command \<lparr>dl_at = Some 5\<rparr> (sample_state (sample_answers 1)))"
proof -
  let ?s = "sample_state (sample_answers 1)" and ?dl = "\<lparr>dl_at = Some 5\<rparr>"
  have "can_send sample_command ?dl ?s" "async_ready ?dl ?s"
    by (simp_all add: sample_call_eval async_ready_def unbroken_def)
  moreover have "framed [''ok|7''] (cn_max_message_size (fst ?s))"
    "incoming ?s = wire [''ok|7''] @ map byte_of [0, 0, 0, 4] @ ''ok|8''"
    by (simp_all add: sample_call_eval)
  ultimately show ?thesis
    using async_agrees_with_sync [of sample_command ?dl ?s "''ok|7''" "map byte_of [0, 0, 0, 4] @ ''ok|8''"]
    by blast
qed

section \<open>The deadline bounds the whole call\<close>

text \<open>The clock is not past the deadline, or where it was.\<close>

definition timely :: "Deadline \<Rightarrow> cstate \<Rightarrow> cstate \<Rightarrow> bool" where
  "timely dl s t \<longleftrightarrow> (\<forall>e. dl_at dl = Some e \<longrightarrow> now (snd t) \<le> max (now (snd s)) e)"

interpretation timed_by: step_order "timely dl" for dl
  by unfold_locales (fastforce simp: timely_def)+

lemma due_le: "due (Some e) t0 \<longleftrightarrow> t0 \<le> e"
  and give_up_time: "give_up (Some e) t = (r, t') \<Longrightarrow> t' = max t e"
  by (auto simp: due_def give_up_def)

lemma stream_gather_time: "stream_gather (Some e) n t as = (r, as', t') \<Longrightarrow> t' \<le> max t e"
proof (induction "Some e" n t as arbitrary: r as' t' rule: stream_gather.induct)
  case (4 n t t0 bs rest)
  show ?case
  proof (cases "due (Some e) t0 \<and> length bs < n")
    case True
    obtain q u t1 where q: "stream_gather (Some e) (n - length bs) (max t t0) rest = (q, u, t1)"
      by (metis prod_cases3)
    have "t1 \<le> max (max t t0) e" using 4(1) [OF _ _ _ q] True by simp
    then show ?thesis using True q 4(2) by (cases q) (auto simp: due_le)
  next
    case False
    then show ?thesis
      using 4(2) by (auto simp: due_le dest!: give_up_time split: prod.splits if_splits)
  qed
qed (auto simp: due_le dest!: give_up_time split: prod.splits if_splits)

lemma timely_readexactly [wp]: "keeps (timely dl) (conn_readexactly n (dl_at dl))"
  by (rule keepsI)
     (auto simp: conn_readexactly_def stream_readexactly_def timely_def dest: stream_gather_time
       split: prod.splits option.splits if_splits)

lemma timely_write [wp]: "keeps (timely dl) (conn_write bs (dl_at dl))"
  by (rule keepsI)
     (auto simp: conn_write_def stream_write_def timely_def Let_def due_le dest!: give_up_time
       split: prod.splits option.splits list.splits sending.splits if_splits)

lemma timely_still [wp]: "keeps (timely dl) AsyncConnection_require_reader"
  "keeps (timely dl) AsyncConnection_require_writer" "keeps (timely dl) (set_in_flight b)"
  by (rule keepsI, auto simp: AsyncConnection_require_reader_def AsyncConnection_require_writer_def
      timely_def set_in_flight_eq split: if_splits)+

lemma timely_read_frame [wp]: "keeps (timely dl) (AsyncConnection_read_frame dl)"
  unfolding AsyncConnection_read_frame_def clock_def limit_of_eq
  by (intro wp timed_by.keeps_pbind timed_by.keeps_pure timed_by.keeps_if timed_by.keeps_pcatch)

lemma timely_write_request [wp]: "keeps (timely dl) (AsyncConnection_write_request command dl)"
  unfolding AsyncConnection_write_request_def clock_def limit_of_eq
  by (intro wp timed_by.keeps_pbind timed_by.keeps_pure timed_by.keeps_if timed_by.keeps_pcatch)

lemma timely_chunked_loop [wp]: "keeps (timely dl) (async_chunked_loop dl assembler)"
proof (rule keepsI)
  fix s r t
  show "async_chunked_loop dl assembler s = (r, t) \<Longrightarrow> timely dl s t"
  proof (induction dl assembler s arbitrary: r t rule: async_chunked_loop.induct)
    case (1 dl assembler s)
    obtain q u where q: "AsyncConnection_read_frame dl s = (q, u)" by (cases "AsyncConnection_read_frame dl s")
    have u: "timely dl s u" using keepsD [OF timely_read_frame q] .
    have "t = u \<or> t = ((fst u)\<lparr>cn_request_in_flight := False\<rparr>, snd u) \<or>
      (\<exists>frame a. q = Return frame \<and> ChunkAssembler_feed assembler frame = (Inr None, a) \<and>
         async_chunked_loop dl a u = (r, t))"
      using 1(2) q
      by (auto simp: async_chunked_loop.simps [of dl assembler s] pbind_def set_in_flight_eq pret_def
          split: outcome.splits prod.splits sum.splits option.splits)
    moreover have "timely dl u t"
      if "q = Return frame" "ChunkAssembler_feed assembler frame = (Inr None, a)"
        "async_chunked_loop dl a u = (r, t)" for frame a
      using 1(1) [OF q [symmetric] that(1) that(2) [symmetric] refl refl that(3)] .
    ultimately show ?case using u timed_by.R_trans [OF u] by (auto simp: timely_def)
  qed
qed

text \<open>
  C22. A deadline is a deadline: when \<open>send\<close> or \<open>send_chunked\<close> of the asyncio connection ends, with an
  answer or an exception, the clock has not passed the deadline (or stands where it stood, when the
  deadline was already over), however slowly the server trickles its bytes and however many frames
  the answer has.
\<close>

theorem async_calls_end_by_deadline:
  assumes "dl_at dl = Some e"
    and "AsyncConnection_send command dl s = (r, t) \<or> AsyncConnection_send_chunked command dl s = (r, t)"
  shows "r \<noteq> Blocked \<and> now (snd t) \<le> max (now (snd s)) e"
proof -
  have "keeps (timely dl) (AsyncConnection_send command dl)"
    "keeps (timely dl) (AsyncConnection_send_chunked command dl)"
    unfolding AsyncConnection_send_def AsyncConnection_send_chunked_def
    by (intro wp timed_by.keeps_pbind timed_by.keeps_pure)+
  from assms(2) keepsD [OF this(1)] keepsD [OF this(2)] have "timely dl s t" by (elim disjE)
  moreover have "dl_at dl \<noteq> None" using assms(1) by simp
  then have "unblocked (\<lambda>_. True) (AsyncConnection_send command dl) (\<lambda>_. True)"
    "unblocked (\<lambda>_. True) (AsyncConnection_send_chunked command dl) (\<lambda>_. True)"
    by (rule async_conn.send_back async_conn.send_chunked_back)+
  from assms(2) unblockedD [OF this(1) TrueI] unblockedD [OF this(2) TrueI] have "r \<noteq> Blocked"
    by (elim disjE) simp_all
  ultimately show ?thesis using assms(1) by (simp add: timely_def)
qed

theorem async_calls_end_by_deadline_witness:
  "\<exists>t. AsyncConnection_send sample_command \<lparr>dl_at = Some 5\<rparr> (sample_state (sample_answers 6)) =
     (Raise (Exc FQTimeoutError), t) \<and> now (snd t) \<le> 5"
proof -
  let ?s = "sample_state (sample_answers 6)" and ?dl = "\<lparr>dl_at = Some 5\<rparr>"
  have r: "fst (AsyncConnection_send sample_command ?dl ?s) = Raise (Exc FQTimeoutError)"
    by (simp add: sample_call_eval sample_eval async_eval)
  obtain t where t: "AsyncConnection_send sample_command ?dl ?s = (Raise (Exc FQTimeoutError), t)"
    using r by (cases "AsyncConnection_send sample_command ?dl ?s") simp
  have "now (snd t) \<le> max (now (snd ?s)) 5"
    using async_calls_end_by_deadline [OF _ disjI1 [OF t], of 5] by simp
  with t show ?thesis by (simp add: sample_state_def sample_defs)
qed

text \<open>
  The synchronous connection gives every single \<open>recv\<close> the time that was left when the frame began, so
  a server that trickles keeps a call beyond its deadline.
\<close>

lemma sync_call_outlives_deadline:
  "\<exists>t. Connection_send sample_command \<lparr>dl_at = Some 5\<rparr>
      (sample_state [Chunk 4 (map byte_of [0, 0]), Chunk 8 (map byte_of [0, 4]), Chunk 12 ''ok|7'']) =
    (Return ''ok|7'', t) \<and> now (snd t) = 12"
  (is "\<exists>t. ?run = _ \<and> _")
proof -
  have "fst ?run = Return ''ok|7''" "now (snd (snd ?run)) = 12"
    by (simp_all add: sample_call_eval sample_eval)
  then show ?thesis by (cases ?run) simp
qed

section \<open>A peer that stops reading\<close>

text \<open>
  C23. Closing waits without a limit: when the peer stops taking bytes in the middle of a request, \<open>send\<close>
  raises FQTimeoutError at its deadline and leaves the connection open; from then on \<open>close\<close>, and with
  it \<open>reconnect\<close>, waits in \<open>wait_closed\<close> for bytes that are never taken, and never returns.
\<close>

theorem stalled_peer_hangs_close:
  assumes "cn_sock (fst s) = Some sk" and "usable sk" and "tx sk = Stalled k # later_sends"
    and "framed [payload command] (cn_max_message_size (fst s))"
    and "dl_at dl = Some e" and "now (snd s) < e"
  shows "\<exists>t. AsyncConnection_send command dl s = (Raise (Exc FQTimeoutError), t) \<and>
    now (snd t) = e \<and> \<not> AsyncConnection_closed (fst t) \<and>
    fst (AsyncConnection_close t) = Blocked \<and> fst (AsyncConnection_reconnect t) = Blocked"
proof -
  have len: "length (payload command) < 2 ^ 32" "int (length (payload command)) \<le> cn_max_message_size (fst s)"
    using assms(4) by (simp_all add: framed_def)
  obtain h where frame: "encode_frame (payload command) = Inr (h @ payload command)"
    using encode_frame_total [OF len(1)] by blast
  let ?t = "((fst s)\<lparr>cn_sock := Some (sk\<lparr>tx := later_sends, usable := False\<rparr>), cn_request_in_flight := True\<rparr>,
    record_event (NetSend (h @ payload command)) ((snd s)\<lparr>now := e\<rparr>))"
  have "AsyncConnection_write_request command dl s = (Raise (Exc FQTimeoutError), ?t)"
    using assms len frame
    by (simp add: AsyncConnection_write_request_def AsyncConnection_require_writer_def clock_def limit_of_eq
        check_request_size_def prog_defs deadline_defs conn_write_def stream_write_def give_up_def
        set_in_flight_eq case_prod_unfold)
  then have "AsyncConnection_send command dl s = (Raise (Exc FQTimeoutError), ?t)"
    by (simp add: AsyncConnection_send_def pbind_def)
  then show ?thesis
    by (intro exI [of _ ?t])
       (simp add: AsyncConnection_closed_def AsyncConnection_close_def AsyncConnection_reconnect_def
         pbind_def case_prod_unfold)
qed

theorem stalled_peer_hangs_close_witness:
  "\<exists>t. AsyncConnection_send sample_command \<lparr>dl_at = Some 5\<rparr>
      (sample_connection (sample_sock [] [Stalled 3]), sample_world []) = (Raise (Exc FQTimeoutError), t) \<and>
    fst (AsyncConnection_close t) = Blocked"
proof -
  let ?s = "(sample_connection (sample_sock [] [Stalled 3]), sample_world [])"
  have "\<exists>t. AsyncConnection_send sample_command \<lparr>dl_at = Some 5\<rparr> ?s = (Raise (Exc FQTimeoutError), t) \<and>
    now (snd t) = 5 \<and> \<not> AsyncConnection_closed (fst t) \<and>
    fst (AsyncConnection_close t) = Blocked \<and> fst (AsyncConnection_reconnect t) = Blocked"
    by (rule stalled_peer_hangs_close [where sk = "sample_sock [] [Stalled 3]" and k = 3 and later_sends = "[]"])
       (simp_all add: sample_call_eval)
  then show ?thesis by blast
qed

end
