(* ===== verification/AsyncPool.thy ===== *)
theory AsyncPool
  imports AsyncFacts Generators
begin

text \<open>
  \<open>fq/aio/pool.py\<close>: the pool of asyncio connections, as one task sees it between two awaits of others.
  It has the attributes of the synchronous pool, so the record is the same; its queue differs:
  \<open>put_nowait\<close> raises when the queue is full, and waiting for a slot is bounded by \<open>asyncio.timeout\<close>.
  Closing a connection may wait for ever (see \<open>AsyncConnection\<close>).
\<close>

definition AsyncConnectionPool_new :: "int \<Rightarrow> pool result" where
  "AsyncConnectionPool_new n = (if n < 1 then Inl (Exc PyValueError)
     else Inr \<lparr>pl_size = n, pl_slots = replicate (nat n) None, pl_closed = False\<rparr>)"

section \<open>The queue\<close>

definition put_nowait :: "connection option \<Rightarrow> (pstate, unit) prog" where
  "put_nowait x = (\<lambda>(p, w). if pl_size p \<le> int (length (pl_slots p)) then (Raise (Exc PyQueueFull), (p, w))
     else (Return (), (p\<lparr>pl_slots := x # pl_slots p\<rparr>, w)))"

text \<open>\<open>async with asyncio.timeout(timeout): return await self._slots.get()\<close>\<close>

definition await_slot :: "real option \<Rightarrow> (pstate, connection option) prog" where
  "await_slot timeout = (\<lambda>(p, w). case pl_slots p of
      x # rest \<Rightarrow> (Return x, (p\<lparr>pl_slots := rest\<rparr>, w))
    | [] \<Rightarrow> (case timeout of
        None \<Rightarrow> (Blocked, (p, w))
      | Some d \<Rightarrow> (Raise (Exc PyTimeoutError), (p, elapse d w))))"

definition aclose_world :: "connection \<Rightarrow> (world, unit) prog" where
  "aclose_world c w = (case AsyncConnection_close (c, w) of (r, (c', w')) \<Rightarrow> (r, w'))"

section \<open>Opening everything upfront\<close>

fun aclose_all :: "connection list \<Rightarrow> (world, unit) prog" where
  "aclose_all [] = pret ()"
| "aclose_all (c # cs) = pbind (aclose_world c) (\<lambda>_. aclose_all cs)"

fun put_all_nowait :: "connection option list \<Rightarrow> (pstate, unit) prog" where
  "put_all_nowait [] = pret ()"
| "put_all_nowait (x # xs) = pbind (put_nowait x) (\<lambda>_. put_all_nowait xs)"

fun aprefill_loop ::
  "(world, connection) prog \<Rightarrow> nat \<Rightarrow> connection list \<Rightarrow> (pstate, exc option \<times> connection list) prog"
where
  "aprefill_loop factory 0 opened = pret (None, opened)"
| "aprefill_loop factory (Suc n) opened = (\<lambda>s.
     case pbind slot_get_nowait (\<lambda>_. on_pool_world factory) s of
       (Return c, s') \<Rightarrow> aprefill_loop factory n (opened @ [c]) s'
     | (Raise e, s') \<Rightarrow> (Return (Some e, opened), s')
     | (Blocked, s') \<Rightarrow> (Blocked, s'))"

definition AsyncConnectionPool_prefill :: "(world, connection) prog \<Rightarrow> (pstate, unit) prog" where
  "AsyncConnectionPool_prefill factory = pbind (pget (\<lambda>(p, w). nat (pl_size p))) (\<lambda>n.
     pbind (aprefill_loop factory n []) (\<lambda>(failed, opened).
       case failed of
         Some e \<Rightarrow> pbind (on_pool_world (aclose_all opened)) (\<lambda>_.
           pbind (put_all_nowait (replicate (length opened) None)) (\<lambda>_. praise e))
       | None \<Rightarrow> put_all_nowait (map Some opened)))"

section \<open>Holding a connection\<close>

definition AsyncConnectionPool_take :: "Deadline \<Rightarrow> (pstate, connection option) prog" where
  "AsyncConnectionPool_take dl = pbind (pget (\<lambda>(p, w). Deadline_remaining dl (now w))) (\<lambda>remaining.
     pwrap PyTimeoutError FQTimeoutError (await_slot remaining))"

definition AsyncConnectionPool_release :: "connection \<Rightarrow> (pstate, unit) prog" where
  "AsyncConnectionPool_release c = pbind (pget (\<lambda>(p, w). pl_closed p)) (\<lambda>closed.
     if closed then on_pool_world (aclose_world c)
     else put_nowait (if AsyncConnection_closed c then None else Some c))"

definition AsyncConnectionPool_enter ::
  "(world, connection) prog \<Rightarrow> Deadline \<Rightarrow> (pstate, connection) prog" where
  "AsyncConnectionPool_enter factory dl = pbind (pget (\<lambda>(p, w). pl_closed p)) (\<lambda>closed.
     if closed then praise (Exc PoolClosedError)
     else pbind (AsyncConnectionPool_take dl) (\<lambda>slot. case slot of
         Some c \<Rightarrow> pret c
       | None \<Rightarrow> pcatch (on_pool_world factory) (\<lambda>e. pbind (put_nowait None) (\<lambda>_. praise e))))"

definition AsyncConnectionPool_acquire ::
  "(world, connection) prog \<Rightarrow> Deadline \<Rightarrow> (cstate, 'a) prog \<Rightarrow> (pstate, 'a) prog" where
  "AsyncConnectionPool_acquire factory dl body =
     bracket (AsyncConnectionPool_enter factory dl) AsyncConnectionPool_release (\<lambda>c. run_body c body)"

section \<open>Closing\<close>

text \<open>The \<open>while\<close> loop takes a slot at a time; a close that never returns leaves the rest in the queue.\<close>

function aclose_slots :: "pstate \<Rightarrow> unit outcome \<times> pstate" where
  "aclose_slots s = (case slot_get_nowait s of
      (Return None, s') \<Rightarrow> aclose_slots s'
    | (Return (Some c), s') \<Rightarrow> (case on_pool_world (aclose_world c) s' of
          (Return u, s'') \<Rightarrow> aclose_slots s''
        | (Raise e, s'') \<Rightarrow> (Raise e, s'')
        | (Blocked, s'') \<Rightarrow> (Blocked, s''))
    | (Raise e, s') \<Rightarrow> if catches PyQueueEmpty e then (Return (), s') else (Raise e, s')
    | (Blocked, s') \<Rightarrow> (Blocked, s'))"
  by pat_completeness auto
termination
  by (relation "measure (\<lambda>(p, w). length (pl_slots p))")
     (auto simp: slot_get_nowait_def on_pool_world_def split: list.splits prod.splits)

declare aclose_slots.simps [simp del]

definition AsyncConnectionPool_aclose :: "(pstate, unit) prog" where
  "AsyncConnectionPool_aclose = (\<lambda>(p, w). if pl_closed p then (Return (), (p, w))
     else aclose_slots (p\<lparr>pl_closed := True\<rparr>, w))"

section \<open>Every slot comes home\<close>

lemma await_slot_cases:
  "await_slot d (p, w) = (r, (q, v)) \<Longrightarrow> pl_slots p \<noteq> [] \<Longrightarrow> r = Return (hd (pl_slots p)) \<and> lent p q \<and> v = w"
  by (cases "pl_slots p") (auto simp: await_slot_def lent_def same_frame_def)

lemma atake_ready:
  "AsyncConnectionPool_take dl (p, w) = (r, (q, v)) \<Longrightarrow> pl_slots p \<noteq> [] \<Longrightarrow>
     r = Return (hd (pl_slots p)) \<and> lent p q \<and> v = w"
  by (auto simp: AsyncConnectionPool_take_def prog_defs split: prod.splits outcome.splits dest!: await_slot_cases)

lemma put_nowait_home:
  assumes "pool_ready p" and "lent p q" and "slot_live x" and "put_nowait x (q, v) = (r, (q', v'))"
  shows "r = Return () \<and> home p q' \<and> v' = v"
  using assms
  by (cases "pl_slots p")
     (auto simp: put_nowait_def home_def lent_def same_frame_def pool_ready_def split: if_splits)

interpretation async_pool: slot_pool "AsyncConnectionPool_enter factory" AsyncConnectionPool_release for factory
proof
  fix p q :: pool and w v :: world and dl
  assume ready: "pool_ready p"
  then have slots: "pl_slots p \<noteq> []" "\<not> pl_closed p" by (simp_all add: pool_ready_def)
  obtain r p1 w1 where t: "AsyncConnectionPool_take dl (p, w) = (r, (p1, w1))" by (metis prod.exhaust)
  note got = atake_ready [OF t slots(1)]
  obtain f w2 where f: "factory w1 = (f, w2)" by (cases "factory w1")
  obtain u p3 w3 where put: "put_nowait None (p1, w2) = (u, (p3, w3))" by (metis prod.exhaust)
  have undone: "u = Return () \<and> home p p3"
    using put_nowait_home [OF ready _ _ put] got by (simp add: slot_live_def)
  have run: "AsyncConnectionPool_enter factory dl (p, w) = (case hd (pl_slots p) of
      Some c \<Rightarrow> (Return c, (p1, w1))
    | None \<Rightarrow> (case f of Return c \<Rightarrow> (Return c, (p1, w2)) | Raise e \<Rightarrow> (Raise e, (p3, w3))
        | Blocked \<Rightarrow> (Blocked, (p1, w2))))"
    using t got f put undone slots
    by (simp add: AsyncConnectionPool_enter_def pbind_def pget_def pret_def pcatch_def praise_def
        on_pool_world_def split: option.split outcome.split)
  show "AsyncConnectionPool_enter factory dl (p, w) = (Return c, (q, v)) \<Longrightarrow> lent p q" for c
    using run got by (auto split: option.splits outcome.splits)
  show "AsyncConnectionPool_enter factory dl (p, w) = (Raise e, (q, v)) \<Longrightarrow> home p q" for e
    using run undone by (auto split: option.splits outcome.splits)
next
  fix p q q' :: pool and v v' :: world and c r
  assume a: "pool_ready p" "lent p q" "AsyncConnectionPool_release c (q, v) = (r, (q', v'))"
  then have "\<not> pl_closed q" by (simp add: pool_ready_def lent_def same_frame_def)
  then have "put_nowait (if AsyncConnection_closed c then None else Some c) (q, v) = (r, (q', v'))"
    using a(3) by (simp add: AsyncConnectionPool_release_def pbind_def pget_def)
  from put_nowait_home [OF a(1,2) _ this] show "r = Return () \<and> home p q'"
    by (simp add: slot_live_def AsyncConnection_closed_def Connection_closed_def)
qed

section \<open>Closing\<close>

lemma aclose_world_returns: "aclose_world c w = (r, v) \<Longrightarrow> r \<noteq> Blocked \<Longrightarrow> r = Return ()"
  by (auto simp: aclose_world_def AsyncConnection_close_def split: option.splits prod.splits if_splits)

lemma aclose_slots_empties:
  "aclose_slots (p, w) = (r, (q, v)) \<Longrightarrow> r \<noteq> Blocked \<Longrightarrow> r = Return () \<and> q = p\<lparr>pl_slots := []\<rparr>"
proof (induction "pl_slots p" arbitrary: p w)
  case Nil
  then show ?case
    by (auto simp: aclose_slots.simps [of "(p, w)"] slot_get_nowait_def catches_def issubclass_eval)
next
  case (Cons x rest)
  let ?p = "p\<lparr>pl_slots := rest\<rparr>"
  show ?case
  proof (cases x)
    case None
    with Cons(2-4) Cons(1) [of ?p w] show ?thesis
      by (simp add: aclose_slots.simps [of "(p, w)"] slot_get_nowait_def split: list.splits)
  next
    case (Some c)
    obtain a u where a: "aclose_world c w = (a, u)" by (cases "aclose_world c w")
    with Cons(2-4) Some have "a \<noteq> Blocked"
      by (auto simp: aclose_slots.simps [of "(p, w)"] slot_get_nowait_def on_pool_world_def split: list.splits)
    with aclose_world_returns [OF a] have "a = Return ()" by simp
    with a Some Cons(3) Cons(2) [symmetric] have "aclose_slots (?p, u) = (r, (q, v))"
      by (simp add: aclose_slots.simps [of "(p, w)"] slot_get_nowait_def on_pool_world_def)
    with Cons(1) [of ?p u] Cons(4) show ?thesis by simp
  qed
qed

lemma aclose_outcome:
  assumes "AsyncConnectionPool_aclose (p, w) = (r, (q, v))" and "r \<noteq> Blocked"
  shows "r = Return () \<and> pl_closed q \<and> (pl_closed p \<longrightarrow> q = p) \<and> (\<not> pl_closed p \<longrightarrow> pl_slots q = [])"
  using assms by (auto simp: AsyncConnectionPool_aclose_def dest: aclose_slots_empties split: if_splits)

section \<open>A failed opening\<close>

text \<open>
  Slots taken never come back to a pool that could not be filled: with fewer slots than its size,
  \<open>prefill\<close> runs out of them.
\<close>

lemma aprefill_short:
  assumes "length (pl_slots p) < n" and "aprefill_loop factory n opened (p, w) = (Return (failed, cs), (q, v))"
  shows "failed \<noteq> None \<and> (pl_slots q = [] \<and> length cs = length opened + length (pl_slots p) \<or>
      length (pl_slots q) + length cs < length opened + length (pl_slots p)) \<and>
    length opened \<le> length cs \<and> same_frame p q"
  using assms
proof (induction n arbitrary: opened p w)
  case (Suc n)
  show ?case
  proof (cases "pl_slots p")
    case Nil
    then show ?thesis
      using Suc.prems(2) by (auto simp: pbind_def slot_get_nowait_def same_frame_def)
  next
    case (Cons x rest)
    let ?p = "p\<lparr>pl_slots := rest\<rparr>"
    obtain f w1 where f: "factory w = (f, w1)" by (cases "factory w")
    show ?thesis
    proof (cases f)
      case (Return c)
      then have run: "aprefill_loop factory n (opened @ [c]) (?p, w1) = (Return (failed, cs), (q, v))"
        using Suc.prems(2) Cons f by (simp add: pbind_def slot_get_nowait_def on_pool_world_def)
      have "length (pl_slots ?p) < n" using Suc.prems(1) Cons by simp
      from Suc.IH [OF this run] Cons show ?thesis by (auto simp: same_frame_def)
    qed (use Suc.prems Cons f in
        \<open>auto simp: pbind_def slot_get_nowait_def on_pool_world_def same_frame_def\<close>)
  qed
qed simp

lemma aprefill_empty:
  assumes "\<forall>u. \<exists>c u'. factory u = (Return c, u')" and "length (pl_slots p) < n"
    and "aprefill_loop factory n opened (p, w) = (Return (failed, cs), (q, v))"
  shows "failed = Some (Exc PyQueueEmpty)"
  using assms(2,3)
proof (induction n arbitrary: opened p w)
  case (Suc n)
  show ?case
  proof (cases "pl_slots p")
    case (Cons x rest)
    obtain c w1 where "factory w = (Return c, w1)" using assms(1) by blast
    then have run: "aprefill_loop factory n (opened @ [c]) (p\<lparr>pl_slots := rest\<rparr>, w1) = (Return (failed, cs), (q, v))"
      using Suc.prems(2) Cons by (simp add: pbind_def slot_get_nowait_def on_pool_world_def)
    with Suc.IH [OF _ run] Suc.prems(1) Cons show ?thesis by simp
  qed (use Suc.prems(2) in \<open>simp add: pbind_def slot_get_nowait_def\<close>)
qed simp

lemma aprefill_loop_eq: "aprefill_loop factory n opened s = prefill_loop factory n opened s"
  by (induction n arbitrary: opened s) (simp_all split: prod.split outcome.split)

lemma put_all_nowait_room:
  "int (length (pl_slots p) + length xs) \<le> pl_size p \<Longrightarrow>
     put_all_nowait xs (p, w) = (Return (), (p\<lparr>pl_slots := rev xs @ pl_slots p\<rparr>, w))"
proof (induction xs arbitrary: p)
  case (Cons x xs)
  let ?p = "p\<lparr>pl_slots := x # pl_slots p\<rparr>"
  have "put_all_nowait xs (?p, w) = (Return (), (?p\<lparr>pl_slots := rev xs @ pl_slots ?p\<rparr>, w))"
    using Cons.prems by (intro Cons.IH) simp
  then show ?case using Cons.prems by (simp add: pbind_def put_nowait_def)
qed (simp add: pret_def)

lemma aclose_all_returns: "fst (aclose_all cs w) \<in> {Return (), Blocked}"
proof (induction cs arbitrary: w)
  case (Cons c cs)
  have "fst (aclose_world c w) \<in> {Return (), Blocked}"
    by (auto simp: aclose_world_def AsyncConnection_close_def split: option.splits prod.splits)
  with Cons show ?case by (auto simp: pbind_def split: prod.splits outcome.splits)
qed (simp add: pret_def)

text \<open>The two ways \<open>prefill\<close> ends after its loop.\<close>

lemma aprefill_ends:
  assumes "AsyncConnectionPool_prefill factory (p, w) = (r, (q, v))" and "r \<noteq> Blocked"
    and "int (length (pl_slots p)) \<le> pl_size p" and "0 \<le> pl_size p"
    and "aprefill_loop factory (nat (pl_size p)) [] (p, w) = (Return (failed, cs), (p1, w1))"
    and "same_frame p p1" and "length (pl_slots p1) + length cs \<le> nat (pl_size p)"
  shows "case failed of
      None \<Rightarrow> r = Return () \<and> pl_slots q = rev (map Some cs) @ pl_slots p1 \<and> same_frame p q
    | Some e \<Rightarrow> r = Raise e \<and> pl_slots q = replicate (length cs) None @ pl_slots p1 \<and> same_frame p q"
proof (cases failed)
  case None
  have "put_all_nowait (map Some cs) (p1, w1) = (Return (), (p1\<lparr>pl_slots := rev (map Some cs) @ pl_slots p1\<rparr>, w1))"
    using assms(4,6,7) by (intro put_all_nowait_room) (simp add: same_frame_def)
  then show ?thesis
    using assms(1,5,6) None by (auto simp: AsyncConnectionPool_prefill_def pbind_def pget_def same_frame_def)
next
  case (Some e)
  obtain x w2 where x: "aclose_all cs w1 = (x, w2)" by (cases "aclose_all cs w1")
  then have "x = Return () \<or> x = Blocked" using aclose_all_returns [of cs w1] by simp
  moreover have "x \<noteq> Blocked"
    using assms(1,2,5) Some x
    by (auto simp: AsyncConnectionPool_prefill_def pbind_def pget_def on_pool_world_def)
  moreover have "put_all_nowait (replicate (length cs) None) (p1, w2) =
      (Return (), (p1\<lparr>pl_slots := rev (replicate (length cs) None) @ pl_slots p1\<rparr>, w2))"
    using assms(4,6,7) by (intro put_all_nowait_room) (simp add: same_frame_def)
  ultimately show ?thesis
    using assms(1,5,6) Some x
    by (auto simp: AsyncConnectionPool_prefill_def pbind_def pget_def on_pool_world_def praise_def same_frame_def)
qed

lemma aprefill_loop_returns:
  assumes "AsyncConnectionPool_prefill factory (p, w) = (r, (q, v))" and "r \<noteq> Blocked"
  shows "\<exists>failed cs t. aprefill_loop factory (nat (pl_size p)) [] (p, w) = (Return (failed, cs), t)"
proof -
  obtain a t where a: "aprefill_loop factory (nat (pl_size p)) [] (p, w) = (a, t)" by (metis prod.exhaust)
  have "a \<noteq> Blocked" "\<And>e. a \<noteq> Raise e"
    using assms a prefill_loop_no_raise [of factory "nat (pl_size p)" "[]" "(p, w)"]
    by (auto simp: AsyncConnectionPool_prefill_def pbind_def pget_def aprefill_loop_eq)
  with a show ?thesis by (cases a) auto
qed

lemma aprefill_outcome:
  assumes "AsyncConnectionPool_new n = Inr p"
    and "AsyncConnectionPool_prefill factory (p, w) = (r, (q, v))" and "r \<noteq> Blocked"
  shows "(r = Return () \<longrightarrow> int (length (pl_slots q)) = n \<and> same_frame p q \<and>
      (\<forall>x \<in> set (pl_slots q). \<exists>c u u'. x = Some c \<and> factory u = (Return c, u'))) \<and>
    (\<forall>e. r = Raise e \<longrightarrow> pl_slots q = replicate (nat n - 1) None \<and> same_frame p q)"
proof -
  have p: "0 < n" "pl_size p = n" "pl_slots p = replicate (nat n) None"
    using assms(1) by (auto simp: AsyncConnectionPool_new_def split: if_splits)
  obtain failed cs p1 w1 where loop: "aprefill_loop factory (nat n) [] (p, w) = (Return (failed, cs), (p1, w1))"
    using aprefill_loop_returns [OF assms(2,3)] p by auto
  have spec: "same_frame p p1" "\<forall>c \<in> set cs. \<exists>u u'. factory u = (Return c, u')"
    "failed = None \<Longrightarrow> length cs = nat n \<and> pl_slots p1 = []"
    "failed \<noteq> None \<Longrightarrow> length cs < nat n \<and> pl_slots p1 = replicate (nat n - (length cs + 1)) None"
    using prefill_loop_spec [OF loop [unfolded aprefill_loop_eq]] p by auto
  then have "length (pl_slots p1) + length cs \<le> nat (pl_size p)" using p by (cases failed) auto
  from aprefill_ends [OF assms(2,3) _ _ _ spec(1) this] loop p show ?thesis
    using spec by (cases failed) (auto simp: replicate_add [symmetric])
qed

lemma aprefill_after_failure:
  assumes "0 < pl_size p" and "int (length (pl_slots p)) < pl_size p"
    and "AsyncConnectionPool_prefill factory (p, w) = (r, (q, v))" and "r \<noteq> Blocked"
  shows "(\<exists>e. r = Raise e) \<and> same_frame p q \<and> length (pl_slots q) \<le> length (pl_slots p) \<and>
    ((\<forall>u. \<exists>c u'. factory u = (Return c, u')) \<longrightarrow> r = Raise (Exc PyQueueEmpty))"
proof -
  let ?n = "nat (pl_size p)"
  have short: "length (pl_slots p) < ?n" using assms(1,2) by simp
  obtain failed cs p1 w1 where loop: "aprefill_loop factory ?n [] (p, w) = (Return (failed, cs), (p1, w1))"
    using aprefill_loop_returns [OF assms(3,4)] by auto
  note spec = aprefill_short [OF short loop]
  then have "length (pl_slots p1) + length cs \<le> length (pl_slots p)" by auto
  moreover from this have "length (pl_slots p1) + length cs \<le> ?n" using short by simp
  from aprefill_ends [OF assms(3,4) _ _ loop _ this] spec assms(1,2)
  obtain e where "failed = Some e" "r = Raise e" "length (pl_slots q) = length cs + length (pl_slots p1)"
    "same_frame p q" by (cases failed) auto
  moreover have "failed = Some (Exc PyQueueEmpty)" if "\<forall>u. \<exists>c u'. factory u = (Return c, u')"
    using aprefill_empty [OF that short loop] .
  ultimately show ?thesis by auto
qed


section \<open>Concrete instances\<close>

definition sample_afactory :: "(world, connection) prog" where
  "sample_afactory w = (case AsyncConnection_connect (sample_closed, w) of
      (Return u, (c, w')) \<Rightarrow> (Return c, w') | (Raise e, (c, w')) \<Rightarrow> (Raise e, w')
    | (Blocked, (c, w')) \<Rightarrow> (Blocked, w'))"


end
