(* ===== verification/AsyncPoolTasks.thy ===== *)
theory AsyncPoolTasks
  imports PoolThreads
begin

text \<open>
  The pool of \<open>fq/aio/pool.py\<close> under several tasks of one event loop: \<open>acquire\<close>, \<open>_release\<close> and \<open>aclose\<close> as a
  step relation. A task runs until it awaits something that is not ready, so a step here reaches from one
  such await to the next: looking at \<open>_closed\<close> and taking a slot is one step when a slot is there, and so
  is looking at \<open>_closed\<close> and putting the slot back. The state is that of \<open>PoolThreads\<close>; \<open>Entered\<close> is a
  task that waits in \<open>_slots.get()\<close>, \<open>Taken None\<close> one that waits for the factory, \<open>Draining\<close> one that waits
  in \<open>aclose\<close> for a connection to be closed. A task may be cancelled in the first two; \<open>close\<close> of a
  connection swallows the cancellation.
\<close>

inductive task_step :: "threads \<Rightarrow> threads \<Rightarrow> bool" where
  enter_reuse: "\<not> tp_closed st \<Longrightarrow> tp_slots st = Some c # rest \<Longrightarrow>
    moves st Idle (Holding c) (st\<lparr>tp_phases := ps\<rparr>) \<Longrightarrow>
    task_step st (st\<lparr>tp_slots := rest, tp_phases := ps\<rparr>)"
| enter_open: "\<not> tp_closed st \<Longrightarrow> tp_slots st = None # rest \<Longrightarrow>
    moves st Idle (Taken None) (st\<lparr>tp_phases := ps\<rparr>) \<Longrightarrow>
    task_step st (st\<lparr>tp_slots := rest, tp_phases := ps\<rparr>)"
| enter_wait: "\<not> tp_closed st \<Longrightarrow> tp_slots st = [] \<Longrightarrow> moves st Idle Entered (st\<lparr>tp_phases := ps\<rparr>) \<Longrightarrow>
    task_step st (st\<lparr>tp_phases := ps\<rparr>)"
| wake_reuse: "tp_slots st = Some c # rest \<Longrightarrow> moves st Entered (Holding c) (st\<lparr>tp_phases := ps\<rparr>) \<Longrightarrow>
    task_step st (st\<lparr>tp_slots := rest, tp_phases := ps\<rparr>)"
| wake_open: "tp_slots st = None # rest \<Longrightarrow> moves st Entered (Taken None) (st\<lparr>tp_phases := ps\<rparr>) \<Longrightarrow>
    task_step st (st\<lparr>tp_slots := rest, tp_phases := ps\<rparr>)"
| wait_ends: "moves st Entered Idle (st\<lparr>tp_phases := ps\<rparr>) \<Longrightarrow>
    task_step st (st\<lparr>tp_phases := ps\<rparr>)"
| connected: "moves st (Taken None) (Holding (tp_next st)) (st\<lparr>tp_phases := ps\<rparr>) \<Longrightarrow>
    task_step st (st\<lparr>tp_phases := ps, tp_live := insert (tp_next st) (tp_live st), tp_next := Suc (tp_next st)\<rparr>)"
| connect_ends: "moves st (Taken None) Idle (st\<lparr>tp_phases := ps\<rparr>) \<Longrightarrow> length (tp_slots st) < tp_size st \<Longrightarrow>
    task_step st (st\<lparr>tp_phases := ps, tp_slots := None # tp_slots st\<rparr>)"
| connection_lost: "Holding c \<in> set (tp_phases st) \<Longrightarrow> task_step st (st\<lparr>tp_live := tp_live st - {c}\<rparr>)"
| reconnected: "Holding c \<in> set (tp_phases st) \<Longrightarrow> task_step st (st\<lparr>tp_live := insert c (tp_live st)\<rparr>)"
| give_back: "\<not> tp_closed st \<Longrightarrow> moves st (Holding c) Idle (st\<lparr>tp_phases := ps\<rparr>) \<Longrightarrow>
    length (tp_slots st) < tp_size st \<Longrightarrow>
    task_step st (st\<lparr>tp_phases := ps, tp_slots := slot_of st c # tp_slots st\<rparr>)"
| give_back_closed: "tp_closed st \<Longrightarrow> moves st (Holding c) Idle (st\<lparr>tp_phases := ps\<rparr>) \<Longrightarrow>
    task_step st (st\<lparr>tp_phases := ps, tp_live := tp_live st - {c}\<rparr>)"
| close_first: "\<not> tp_closed st \<Longrightarrow> tp_slots st = replicate m None @ Some c # rest \<Longrightarrow>
    moves st Idle Draining (st\<lparr>tp_phases := ps\<rparr>) \<Longrightarrow>
    task_step st (st\<lparr>tp_phases := ps, tp_closed := True, tp_slots := rest, tp_live := tp_live st - {c}\<rparr>)"
| close_empty: "\<not> tp_closed st \<Longrightarrow> tp_slots st = replicate m None \<Longrightarrow> Idle \<in> set (tp_phases st) \<Longrightarrow>
    task_step st (st\<lparr>tp_closed := True, tp_slots := []\<rparr>)"
| close_next: "tp_slots st = replicate m None @ Some c # rest \<Longrightarrow> Draining \<in> set (tp_phases st) \<Longrightarrow>
    task_step st (st\<lparr>tp_slots := rest, tp_live := tp_live st - {c}\<rparr>)"
| close_last: "tp_slots st = replicate m None \<Longrightarrow> moves st Draining Idle (st\<lparr>tp_phases := ps\<rparr>) \<Longrightarrow>
    task_step st (st\<lparr>tp_phases := ps, tp_slots := []\<rparr>)"

section \<open>Tasks do what threads could do\<close>

lemma moves_at: "tp_phases u = as @ ph # bs \<Longrightarrow> moves u ph ph' (u\<lparr>tp_phases := as @ ph' # bs\<rparr>)"
  by (auto simp: moves_def)

lemma movesE:
  assumes "moves st ph ph' (st\<lparr>tp_phases := ps\<rparr>)"
  obtains as bs where "tp_phases st = as @ ph # bs" "ps = as @ ph' # bs"
  using assms by (auto simp: moves_def)

lemmas steps = converse_rtranclp_into_rtranclp [of pool_step]

lemma drain_nones:
  "Draining \<in> set (tp_phases st) \<Longrightarrow> tp_slots st = replicate m None @ rest \<Longrightarrow>
     pool_step\<^sup>*\<^sup>* st (st\<lparr>tp_slots := rest\<rparr>)"
proof (induction m arbitrary: st)
  case 0
  then have "st\<lparr>tp_slots := rest\<rparr> = st" by (cases st) simp
  then show ?case by simp
next
  case (Suc m)
  let ?u = "st\<lparr>tp_slots := replicate m None @ rest\<rparr>"
  have "pool_step st ?u" using Suc.prems by (intro pool_step.drain_empty) simp_all
  moreover have "pool_step\<^sup>*\<^sup>* ?u (st\<lparr>tp_slots := rest\<rparr>)" using Suc.IH [of ?u] Suc.prems by simp
  ultimately show ?case by (rule steps)
qed

lemma drain_to:
  assumes "Draining \<in> set (tp_phases st)" and "tp_slots st = replicate m None @ Some c # rest"
  shows "pool_step\<^sup>*\<^sup>* st (st\<lparr>tp_slots := rest, tp_live := tp_live st - {c}\<rparr>)"
proof -
  let ?u = "st\<lparr>tp_slots := Some c # rest\<rparr>"
  have "pool_step ?u (?u\<lparr>tp_slots := rest, tp_live := tp_live ?u - {c}\<rparr>)"
    using assms by (intro pool_step.drain_conn) simp_all
  then show ?thesis using drain_nones [OF assms] by (simp add: rtranclp.rtrancl_into_rtrancl)
qed

text \<open>The two steps with which \<open>aclose\<close> begins.\<close>

lemma closing_steps:
  assumes "\<not> tp_closed st" and "tp_phases st = as @ Idle # bs"
  shows "pool_step\<^sup>*\<^sup>* st (st\<lparr>tp_phases := as @ Draining # bs, tp_closed := True\<rparr>)"
proof -
  let ?u = "st\<lparr>tp_phases := as @ Closing # bs\<rparr>"
  have "pool_step st ?u" by (rule pool_step.close_check [OF assms(1) moves_at [OF assms(2)]])
  moreover have "pool_step ?u (?u\<lparr>tp_phases := as @ Draining # bs, tp_closed := True\<rparr>)"
    by (intro pool_step.close_begin moves_at) simp
  ultimately show ?thesis by (simp add: rtranclp.rtrancl_into_rtrancl)
qed

lemma taking_steps:
  assumes "tp_slots st = x # rest" and "tp_phases st = as @ Entered # bs"
  shows "pool_step\<^sup>*\<^sup>* st (st\<lparr>tp_slots := rest, tp_phases := as @ (case x of None \<Rightarrow> Taken None | Some c \<Rightarrow> Holding c) # bs\<rparr>)"
proof -
  let ?u = "st\<lparr>tp_slots := rest, tp_phases := as @ Taken x # bs\<rparr>"
  have one: "pool_step st ?u" by (rule pool_step.take_slot [OF assms(1) moves_at [OF assms(2)]])
  show ?thesis
  proof (cases x)
    case None
    with one show ?thesis by auto
  next
    case (Some c)
    have "pool_step ?u (?u\<lparr>tp_phases := as @ Holding c # bs\<rparr>)"
      by (rule pool_step.reuse, rule moves_at) (simp add: Some)
    with one Some show ?thesis by (simp add: rtranclp.rtrancl_into_rtrancl)
  qed
qed

lemma entering_steps:
  assumes "\<not> tp_closed st" and "tp_slots st = x # rest" and "tp_phases st = as @ Idle # bs"
  shows "pool_step\<^sup>*\<^sup>* st (st\<lparr>tp_slots := rest, tp_phases := as @ (case x of None \<Rightarrow> Taken None | Some c \<Rightarrow> Holding c) # bs\<rparr>)"
proof -
  let ?u = "st\<lparr>tp_phases := as @ Entered # bs\<rparr>"
  have "pool_step st ?u" by (rule pool_step.enter [OF assms(1) moves_at [OF assms(3)]])
  moreover have "pool_step\<^sup>*\<^sup>* ?u (?u\<lparr>tp_slots := rest,
      tp_phases := as @ (case x of None \<Rightarrow> Taken None | Some c \<Rightarrow> Holding c) # bs\<rparr>)"
    using assms by (intro taking_steps) simp_all
  ultimately show ?thesis by (simp add: steps)
qed

text \<open>A wait that is cancelled while a slot is there is the one step no thread can take.\<close>

lemma task_step_threads:
  "task_step st st' \<Longrightarrow> pool_step\<^sup>*\<^sup>* st st' \<or>
     (\<exists>ps. moves st Entered Idle (st\<lparr>tp_phases := ps\<rparr>) \<and> st' = st\<lparr>tp_phases := ps\<rparr>)"
proof (induction rule: task_step.induct)
  case (enter_reuse st c rest ps)
  from enter_reuse(3) show ?case
  proof (rule movesE)
    fix as bs assume "tp_phases st = as @ Idle # bs" "ps = as @ Holding c # bs"
    with entering_steps [OF enter_reuse(1,2)] show ?thesis by auto
  qed
next
  case (enter_open st rest ps)
  from enter_open(3) show ?case
  proof (rule movesE)
    fix as bs assume "tp_phases st = as @ Idle # bs" "ps = as @ Taken None # bs"
    with entering_steps [OF enter_open(1,2)] show ?thesis by auto
  qed
next
  case (wake_reuse st c rest ps)
  from wake_reuse(2) show ?case
  proof (rule movesE)
    fix as bs assume "tp_phases st = as @ Entered # bs" "ps = as @ Holding c # bs"
    with taking_steps [OF wake_reuse(1)] show ?thesis by auto
  qed
next
  case (wake_open st rest ps)
  from wake_open(2) show ?case
  proof (rule movesE)
    fix as bs assume "tp_phases st = as @ Entered # bs" "ps = as @ Taken None # bs"
    with taking_steps [OF wake_open(1)] show ?thesis by auto
  qed
next
  case (give_back st c ps)
  from give_back(2) show ?case
  proof (rule movesE)
    fix as bs assume p: "tp_phases st = as @ Holding c # bs" "ps = as @ Idle # bs"
    let ?u = "st\<lparr>tp_phases := as @ Returning c # bs\<rparr>"
    have "pool_step st ?u" by (rule pool_step.release_check [OF give_back(1) moves_at [OF p(1)]])
    moreover have "pool_step ?u (?u\<lparr>tp_phases := ps, tp_slots := slot_of ?u c # tp_slots ?u\<rparr>)"
      unfolding p using give_back(3) by (intro pool_step.release_put moves_at) simp_all
    ultimately have "pool_step\<^sup>*\<^sup>* st (?u\<lparr>tp_phases := ps, tp_slots := slot_of ?u c # tp_slots ?u\<rparr>)" by simp
    moreover have "slot_of ?u c = slot_of st c" by (simp add: slot_of_def)
    ultimately show ?thesis by simp
  qed
next
  case (close_first st m c rest ps)
  from close_first(3) show ?case
  proof (rule movesE)
    fix as bs assume p: "tp_phases st = as @ Idle # bs" "ps = as @ Draining # bs"
    let ?u = "st\<lparr>tp_phases := as @ Draining # bs, tp_closed := True\<rparr>"
    have "pool_step\<^sup>*\<^sup>* st ?u" using closing_steps [OF close_first(1) p(1)] .
    moreover have "pool_step\<^sup>*\<^sup>* ?u (?u\<lparr>tp_slots := rest, tp_live := tp_live ?u - {c}\<rparr>)"
      using close_first(2) by (intro drain_to [where m = m]) simp_all
    ultimately show ?thesis using p by (auto dest: rtranclp_trans)
  qed
next
  case (close_empty st m)
  then obtain as bs where p: "tp_phases st = as @ Idle # bs" by (meson split_list)
  let ?u = "st\<lparr>tp_phases := as @ Draining # bs, tp_closed := True\<rparr>"
  have "pool_step\<^sup>*\<^sup>* st ?u" using closing_steps [OF close_empty(1) p] .
  also have "pool_step\<^sup>*\<^sup>* ?u (?u\<lparr>tp_slots := []\<rparr>)"
    using close_empty(2) by (intro drain_nones [where m = m]) simp_all
  also have "pool_step (?u\<lparr>tp_slots := []\<rparr>) (?u\<lparr>tp_slots := [], tp_phases := as @ Idle # bs\<rparr>)"
    using pool_step.close_end [OF _ moves_at [where as = as and bs = bs and ph = Draining and ph' = Idle], of "?u\<lparr>tp_slots := []\<rparr>"]
    by simp
  finally show ?case using p [symmetric] by simp
next
  case (close_next st m c rest)
  then show ?case using drain_to by blast
next
  case (close_last st m ps)
  from close_last(2) show ?case
  proof (rule movesE)
    fix as bs assume p: "tp_phases st = as @ Draining # bs" "ps = as @ Idle # bs"
    have "pool_step\<^sup>*\<^sup>* st (st\<lparr>tp_slots := []\<rparr>)" using p close_last(1) by (intro drain_nones [where m = m]) simp_all
    moreover have "pool_step (st\<lparr>tp_slots := []\<rparr>) (st\<lparr>tp_slots := [], tp_phases := ps\<rparr>)"
      using pool_step.close_end [OF _ moves_at [where as = as and bs = bs and ph = Draining and ph' = Idle], of "st\<lparr>tp_slots := []\<rparr>"] p
      by simp
    ultimately have "pool_step\<^sup>*\<^sup>* st (st\<lparr>tp_slots := [], tp_phases := ps\<rparr>)" by (rule rtranclp.rtrancl_into_rtrancl)
    moreover have "st\<lparr>tp_slots := [], tp_phases := ps\<rparr> = st\<lparr>tp_phases := ps, tp_slots := []\<rparr>" by simp
    ultimately show ?thesis by (simp only: simp_thms)
  qed
qed (blast intro: r_into_rtranclp pool_step.intros)+

section \<open>What every reachable state satisfies\<close>

lemma pool_inv_run: "pool_step\<^sup>*\<^sup>* st st' \<Longrightarrow> pool_inv st \<Longrightarrow> pool_inv st' \<and> tp_size st' = tp_size st"
  by (induction rule: rtranclp_induct) (auto dest: pool_threads.I_step step_size)

lemma pool_inv_cancel: "moves st Entered Idle (st\<lparr>tp_phases := ps\<rparr>) \<Longrightarrow> pool_inv st \<Longrightarrow> pool_inv (st\<lparr>tp_phases := ps\<rparr>)"
  using moves_counts(1) [of st Entered Idle ps] moves_room [of st Entered Idle ps]
  by (auto simp: pool_inv_def inv_defs)

text \<open>
  After \<open>aclose\<close> nothing open comes back to the queue: once no task is draining it, only empty slots are
  in it, put there by tasks whose connection attempt failed.
\<close>

definition task_inv :: "nat \<Rightarrow> threads \<Rightarrow> bool" where
  "task_inv n st \<longleftrightarrow> pool_inv st \<and> tp_size st = n \<and>
     (tp_closed st \<and> Draining \<notin> set (tp_phases st) \<longrightarrow> slot_ids (tp_slots st) = [])"

lemma moves_still_draining:
  "moves st ph ph' (st\<lparr>tp_phases := ps\<rparr>) \<Longrightarrow> ph \<noteq> Draining \<Longrightarrow> Draining \<in> set (tp_phases st) \<Longrightarrow> Draining \<in> set ps"
  "moves st ph Draining (st\<lparr>tp_phases := ps\<rparr>) \<Longrightarrow> Draining \<in> set ps"
  by (auto simp: moves_def)

lemma task_step_queue:
  "task_step st st' \<Longrightarrow> (tp_closed st \<and> Draining \<notin> set (tp_phases st) \<longrightarrow> slot_ids (tp_slots st) = []) \<Longrightarrow>
     tp_closed st' \<and> Draining \<notin> set (tp_phases st') \<longrightarrow> slot_ids (tp_slots st') = []"
  by (induction rule: task_step.induct) (auto dest: moves_still_draining)

lemma task_inv_step: "task_step st st' \<Longrightarrow> task_inv n st \<Longrightarrow> task_inv n st'"
  using task_step_threads [of st st'] task_step_queue [of st st'] pool_inv_run [of st st'] pool_inv_cancel [of st]
  unfolding task_inv_def by fastforce

interpretation pool_tasks: step_invariant "\<lambda>st. \<exists>k. st = threads_init n k" task_step "task_inv n" for n
  by unfold_locales (use pool_inv_init task_inv_step in \<open>auto simp: task_inv_def threads_init_def\<close>)

text \<open>
  C28. The asyncio pool under any interleaving of tasks, failed or cancelled waits and connection attempts,
  reconnects and \<open>aclose\<close>: no connection is held by two tasks, none that is held is in the queue, at most
  \<open>pool_size\<close> are open, and a task that is about to put its slot back finds room, so \<open>put_nowait\<close> never
  raises QueueFull.
\<close>

theorem async_connections_have_one_owner:
  assumes "task_step\<^sup>*\<^sup>* (threads_init n k) st"
  shows "(\<forall>xs ph ys ph' zs. tp_phases st = xs @ ph # ys @ ph' # zs \<longrightarrow> set (held ph) \<inter> set (held ph') = {}) \<and>
    (\<forall>ph \<in> set (tp_phases st). set (held ph) \<inter> set (slot_ids (tp_slots st)) = {}) \<and>
    card (tp_live st) \<le> n \<and>
    (\<forall>ph \<in> set (tp_phases st). busy ph = 1 \<longrightarrow> length (tp_slots st) < n)"
proof -
  have "task_inv n st" using pool_tasks.I_reachable [OF _ assms] by blast
  then have "pool_inv st" "tp_size st = n" by (simp_all add: task_inv_def)
  then show ?thesis by (rule inv_one_owner)
qed


section \<open>Concrete instances\<close>

text \<open>A pool of one slot and two tasks: the first opens a connection, the second waits, the pool is closed.\<close>

lemma task_run:
  "task_step (threads_init 1 3) (ts [] False {} 0 [Taken None, Idle, Idle])"
  "task_step (ts [] False {} 0 [Taken None, Idle, Idle]) (ts [] False {0} 1 [Holding 0, Idle, Idle])"
  "task_step (ts [] False {0} 1 [Holding 0, Idle, Idle]) (ts [] False {0} 1 [Holding 0, Entered, Idle])"
  "task_step (ts [] False {0} 1 [Holding 0, Entered, Idle]) (ts [] True {0} 1 [Holding 0, Entered, Idle])"
  "task_step (ts [] True {0} 1 [Holding 0, Entered, Idle]) (ts [] True {} 1 [Idle, Entered, Idle])"
  using task_step.enter_open [OF _ _ moves_first, of "threads_init 1 3"]
    task_step.connected [OF moves_first, of "ts [] False {} 0 [Taken None, Idle, Idle]"]
    task_step.enter_wait [OF _ _ moves_second, of "ts [] False {0} 1 [Holding 0, Idle, Idle]"]
    task_step.close_empty [of "ts [] False {0} 1 [Holding 0, Entered, Idle]" 0]
    task_step.give_back_closed [OF _ moves_first, of "ts [] True {0} 1 [Holding 0, Entered, Idle]"]
  by (simp_all add: ts_def threads_init_def numeral_3_eq_3)

lemma task_reach:
  "task_step\<^sup>*\<^sup>* (threads_init 1 3) (ts [] False {0} 1 [Holding 0, Entered, Idle])"
  "task_step\<^sup>*\<^sup>* (threads_init 1 3) (ts [] True {} 1 [Idle, Entered, Idle])"
  using task_run by (meson converse_rtranclp_into_rtranclp rtranclp.rtrancl_refl)+

theorem async_connections_have_one_owner_witness:
  "task_step\<^sup>*\<^sup>* (threads_init 1 3) (ts [] False {0} 1 [Holding 0, Entered, Idle]) \<and>
     card (tp_live (ts [] False {0} 1 [Holding 0, Entered, Idle])) \<le> 1"
  using async_connections_have_one_owner [OF task_reach(1)] task_reach(1) by blast


end
