(* ===== verification/AsyncClient.thy ===== *)
theory AsyncClient
  imports AsyncPool Generators Client
begin

text \<open>
  \<open>fq/aio/client.py\<close>: the asyncio client of one server. Its constructor does no input or output;
  \<open>open\<close> fills the pool. The methods are those of the synchronous client on the asyncio connection and
  pool. \<open>__aenter__\<close> is \<open>open\<close> and \<open>__aexit__\<close> is \<open>aclose\<close>.
\<close>

record AsyncClient =
  ac_timeout :: "real option"
  ac_connect_timeout :: real
  ac_reconnect :: ReconnectPolicy
  ac_template :: connection
  ac_pool :: pool
  ac_server_role :: pystr
  ac_auth_required :: bool
  ac_opened :: bool

type_synonym aclstate = "AsyncClient \<times> world"

section \<open>Construction and opening\<close>

definition AsyncConnection_new ::
  "pystr \<Rightarrow> pystr option \<Rightarrow> SSLContext option \<Rightarrow> pystr option \<Rightarrow> real \<Rightarrow> connection" where
  "AsyncConnection_new address token ssl_context server_hostname connect_timeout =
     \<lparr>cn_address = address, cn_token = token, cn_ssl_context = ssl_context,
      cn_server_hostname = server_hostname, cn_connect_timeout = connect_timeout, cn_sock = None,
      cn_max_message_size = DEFAULT_MAX_MESSAGE_SIZE, cn_role = [], cn_auth_required = False,
      cn_request_in_flight = False\<rparr>"

definition AsyncClient_factory :: "connection \<Rightarrow> (world, connection) prog" where
  "AsyncClient_factory template w = (case AsyncConnection_connect (template, w) of
      (Return u, (c, w')) \<Rightarrow> (Return c, w')
    | (Raise e, (c, w')) \<Rightarrow> (Raise e, w')
    | (Blocked, (c, w')) \<Rightarrow> (Blocked, w'))"

definition AsyncClient_new ::
  "(TLSConfig \<Rightarrow> SSLContext result) \<Rightarrow> pystr \<Rightarrow> int \<Rightarrow> real option \<Rightarrow> real \<Rightarrow> pystr option \<Rightarrow>
   TLSConfig option \<Rightarrow> SSLContext option \<Rightarrow> pystr option \<Rightarrow> ReconnectPolicy option \<Rightarrow> AsyncClient result" where
  "AsyncClient_new build address pool_size timeout connect_timeout token tls ssl_context server_hostname
     reconnect =
   sbind (client_context build tls ssl_context) (\<lambda>context.
   sbind (AsyncConnectionPool_new pool_size) (\<lambda>pool.
   Inr \<lparr>ac_timeout = timeout, ac_connect_timeout = connect_timeout,
     ac_reconnect = (case reconnect of None \<Rightarrow> default_policy | Some p \<Rightarrow> p),
     ac_template = AsyncConnection_new address token context (client_hostname server_hostname tls) connect_timeout,
     ac_pool = pool, ac_server_role = [], ac_auth_required = False, ac_opened = False\<rparr>))"

definition on_apool :: "(pstate, 'a) prog \<Rightarrow> (aclstate, 'a) prog" where
  "on_apool m = (\<lambda>(cl, w). case m (ac_pool cl, w) of
      (r, (p, w')) \<Rightarrow> (r, (cl\<lparr>ac_pool := p\<rparr>, w')))"

definition AsyncClient_acquire :: "Deadline \<Rightarrow> (AsyncClient \<Rightarrow> (cstate, 'a) prog) \<Rightarrow> (aclstate, 'a) prog" where
  "AsyncClient_acquire dl body = (\<lambda>(cl, w).
     on_apool (AsyncConnectionPool_acquire (AsyncClient_factory (ac_template cl)) dl (body cl)) (cl, w))"

definition AsyncClient_open :: "(aclstate, unit) prog" where
  "AsyncClient_open = pbind (pget fst) (\<lambda>cl. if ac_opened cl then pret () else
     pbind (on_apool (AsyncConnectionPool_prefill (AsyncClient_factory (ac_template cl)))) (\<lambda>_.
     pbind (pget (\<lambda>(cl, w). now w)) (\<lambda>t.
     pbind (AsyncClient_acquire (Deadline_new (Some (ac_connect_timeout cl)) t)
              (\<lambda>cl. pget (\<lambda>(c, w). (cn_role c, cn_auth_required c)))) (\<lambda>(role, auth).
     pmodify (\<lambda>(cl, w). (cl\<lparr>ac_server_role := role, ac_auth_required := auth, ac_opened := True\<rparr>, w))))))"

text \<open>\<open>AsyncClient.connect(address, ...)\<close>\<close>

definition AsyncClient_connect ::
  "(TLSConfig \<Rightarrow> SSLContext result) \<Rightarrow> pystr \<Rightarrow> int \<Rightarrow> real option \<Rightarrow> real \<Rightarrow> pystr option \<Rightarrow>
   TLSConfig option \<Rightarrow> SSLContext option \<Rightarrow> pystr option \<Rightarrow> ReconnectPolicy option \<Rightarrow>
   (world, AsyncClient) prog" where
  "AsyncClient_connect build address pool_size timeout connect_timeout token tls ssl_context server_hostname
     reconnect w =
   (case AsyncClient_new build address pool_size timeout connect_timeout token tls ssl_context
       server_hostname reconnect of
      Inl e \<Rightarrow> (Raise e, w)
    | Inr cl \<Rightarrow> (case AsyncClient_open (cl, w) of
        (Return u, (cl', w')) \<Rightarrow> (Return cl', w')
      | (Raise e, (cl', w')) \<Rightarrow> (Raise e, w')
      | (Blocked, (cl', w')) \<Rightarrow> (Blocked, w')))"

definition AsyncClient_aclose :: "(aclstate, unit) prog" where
  "AsyncClient_aclose = on_apool AsyncConnectionPool_aclose"

section \<open>Calls\<close>

definition AsyncClient_deadline :: "timeout \<Rightarrow> (aclstate, Deadline) prog" where
  "AsyncClient_deadline timeout = pget (\<lambda>(cl, w). Deadline_new
     (case timeout of DEFAULT \<Rightarrow> ac_timeout cl | Timeout v \<Rightarrow> v) (now w))"

text \<open>\<open>_backoff\<close> awaits \<open>asyncio.sleep\<close> where the synchronous client sleeps; for one task it is the same.\<close>

definition AsyncClient_backoff :: "ReconnectPolicy \<Rightarrow> nat \<Rightarrow> Deadline \<Rightarrow> (cstate, unit) prog" where
  "AsyncClient_backoff p attempt dl =
     pbind clock (\<lambda>t. pbind (plift (Deadline_check dl t)) (\<lambda>_.
     pbind (draw_delay p attempt) (\<lambda>d.
     pbind clock (\<lambda>t. let delay = Deadline_clamp dl t d in
     pbind (if 0 < delay then on_world (sleep delay) else pret ()) (\<lambda>_.
     pbind clock (\<lambda>t. plift (Deadline_check dl t)))))))"

definition async_with_retry ::
  "ReconnectPolicy \<Rightarrow> (Command \<Rightarrow> Deadline \<Rightarrow> (cstate, bytes) prog) \<Rightarrow> Command \<Rightarrow> Deadline \<Rightarrow>
   cstate \<Rightarrow> (bytes outcome \<times> cstate) option" where
  "async_with_retry p send command dl s =
     retry_loop (ReconnectPolicy_exhausted p) (send command dl)
       (\<lambda>attempt. AsyncClient_backoff p attempt dl) AsyncConnection_reconnect in_flight (read_only command) 0 s"

definition AsyncClient_with_retry ::
  "ReconnectPolicy \<Rightarrow> (Command \<Rightarrow> Deadline \<Rightarrow> (cstate, bytes) prog) \<Rightarrow> Command \<Rightarrow> Deadline \<Rightarrow>
   (cstate, bytes) prog" where
  "AsyncClient_with_retry p send command dl s =
     (case async_with_retry p send command dl s of Some r \<Rightarrow> r | None \<Rightarrow> (Blocked, s))"

definition AsyncClient_execute :: "Command \<Rightarrow> (bytes \<Rightarrow> 'a result) \<Rightarrow> timeout \<Rightarrow> (aclstate, 'a) prog" where
  "AsyncClient_execute command parse timeout = pbind (AsyncClient_deadline timeout) (\<lambda>dl.
     pbind (AsyncClient_acquire dl (\<lambda>cl.
       AsyncClient_with_retry (ac_reconnect cl) AsyncConnection_send command dl)) (\<lambda>payload.
     plift (parse payload)))"

definition async_client_call :: "Command result \<Rightarrow> (bytes \<Rightarrow> 'a result) \<Rightarrow> timeout \<Rightarrow> (aclstate, 'a) prog" where
  "async_client_call command parse timeout =
     pbind (plift command) (\<lambda>c. AsyncClient_execute c parse timeout)"

definition AsyncClient_incr :: "CappingKey \<Rightarrow> timeout \<Rightarrow> (aclstate, int) prog" where
  "AsyncClient_incr k = async_client_call (incr k) parse_value"

definition AsyncClient_incrby :: "CappingKey \<Rightarrow> int \<Rightarrow> timeout \<Rightarrow> (aclstate, int) prog" where
  "AsyncClient_incrby k value = async_client_call (incrby k value) parse_value"

definition AsyncClient_get :: "CappingKey \<Rightarrow> timeout \<Rightarrow> (aclstate, int) prog" where
  "AsyncClient_get k = async_client_call (get k) parse_value"

definition AsyncClient_watch :: "CappingKey \<Rightarrow> timeout \<Rightarrow> (aclstate, int) prog" where
  "AsyncClient_watch k = async_client_call (watch k) parse_value"

definition AsyncClient_delete :: "CappingKey \<Rightarrow> timeout \<Rightarrow> (aclstate, bool) prog" where
  "AsyncClient_delete k = async_client_call (delete k) parse_bool"

definition AsyncClient_mdelete :: "CappingKey list \<Rightarrow> timeout \<Rightarrow> (aclstate, bool list) prog" where
  "AsyncClient_mdelete ks = async_client_call (mdelete ks) parse_bools"

definition AsyncClient_rlimit_fixed_window :: "LimitKey \<Rightarrow> int \<Rightarrow> timeout \<Rightarrow> (aclstate, RateLimitResult) prog" where
  "AsyncClient_rlimit_fixed_window k limit = async_client_call (rlimit_fixed_window k limit) parse_rate_limit"

definition AsyncClient_rlimit_sliding_window ::
  "LimitKey \<Rightarrow> int \<Rightarrow> timeout \<Rightarrow> (aclstate, RateLimitResult) prog" where
  "AsyncClient_rlimit_sliding_window k limit = async_client_call (rlimit_sliding_window k limit) parse_rate_limit"

definition AsyncClient_rlimit_token_bucket ::
  "LimitKey \<Rightarrow> int \<Rightarrow> int \<Rightarrow> timeout \<Rightarrow> (aclstate, RateLimitResult) prog" where
  "AsyncClient_rlimit_token_bucket k capacity refill_amount =
     async_client_call (rlimit_token_bucket k capacity refill_amount) parse_rate_limit"

definition AsyncClient_quota_set :: "pystr \<Rightarrow> int \<Rightarrow> timeout \<Rightarrow> (aclstate, bool) prog" where
  "AsyncClient_quota_set name limit = async_client_call (quota_set name limit) parse_bool"

definition AsyncClient_quota_set_n :: "pystr \<Rightarrow> int \<Rightarrow> int \<Rightarrow> timeout \<Rightarrow> (aclstate, bool) prog" where
  "AsyncClient_quota_set_n name limit clients = async_client_call (quota_set_n name limit clients) parse_bool"

definition AsyncClient_quota_acquire ::
  "pystr \<Rightarrow> int \<Rightarrow> pystr \<Rightarrow> int option \<Rightarrow> timeout \<Rightarrow> (aclstate, QuotaAcquireResult) prog" where
  "AsyncClient_quota_acquire name amount client_id ttl =
     async_client_call (quota_acquire name amount client_id ttl) parse_quota_acquire"

definition AsyncClient_quota_acquire_n ::
  "pystr \<Rightarrow> pystr \<Rightarrow> int option \<Rightarrow> timeout \<Rightarrow> (aclstate, QuotaAcquireResult) prog" where
  "AsyncClient_quota_acquire_n name client_id ttl =
     async_client_call (quota_acquire_n name client_id ttl) parse_quota_acquire"

definition AsyncClient_quota_acquire_lease ::
  "pystr \<Rightarrow> int \<Rightarrow> int \<Rightarrow> pystr \<Rightarrow> int option \<Rightarrow> timeout \<Rightarrow> (aclstate, QuotaAcquireResult) prog" where
  "AsyncClient_quota_acquire_lease name limit amount client_id ttl =
     async_client_call (quota_acquire_lease name limit amount client_id ttl) parse_quota_acquire"

definition AsyncClient_quota_release :: "pystr \<Rightarrow> pystr \<Rightarrow> timeout \<Rightarrow> (aclstate, bool) prog" where
  "AsyncClient_quota_release name client_id = async_client_call (quota_release name client_id) parse_bool"

definition AsyncClient_quota_delete :: "pystr \<Rightarrow> timeout \<Rightarrow> (aclstate, bool) prog" where
  "AsyncClient_quota_delete name = async_client_call (quota_delete name) parse_bool"

definition AsyncClient_quota_info :: "pystr \<Rightarrow> timeout \<Rightarrow> (aclstate, QuotaInfo) prog" where
  "AsyncClient_quota_info name = async_client_call (quota_info name) parse_quota_info"

definition AsyncClient_scan :: "int \<Rightarrow> pystr \<Rightarrow> timeout \<Rightarrow> (aclstate, ScanResult) prog" where
  "AsyncClient_scan count cursor = async_client_call (scan count cursor) parse_scan"

definition AsyncClient_pscan :: "pystr \<Rightarrow> int \<Rightarrow> pystr \<Rightarrow> timeout \<Rightarrow> (aclstate, ScanResult) prog" where
  "AsyncClient_pscan pfx count cursor = async_client_call (pscan pfx count cursor) parse_scan"

definition AsyncClient_flushdb :: "timeout \<Rightarrow> (aclstate, bool) prog" where
  "AsyncClient_flushdb = async_client_call flushdb parse_bool"

definition AsyncClient_truncate :: "timeout \<Rightarrow> (aclstate, bool) prog" where
  "AsyncClient_truncate = async_client_call truncate_cmd parse_bool"

definition AsyncClient_inspect ::
  "(bytes \<Rightarrow> 'report result) \<Rightarrow> InspectSection \<Rightarrow> timeout \<Rightarrow> (aclstate, 'report) prog" where
  "AsyncClient_inspect parse_inspect section timeout = pbind (AsyncClient_deadline timeout) (\<lambda>dl.
     pbind (AsyncClient_acquire dl (\<lambda>cl. pbind (plift (inspect section)) (\<lambda>command.
       AsyncClient_with_retry (ac_reconnect cl) AsyncConnection_send_chunked command dl))) (\<lambda>payload.
     plift (parse_inspect payload)))"

section \<open>Streams\<close>

text \<open>\<open>_iter_stream\<close>: no polling and no stop flag.\<close>

definition AsyncClient_stream_ops :: "ReconnectPolicy \<Rightarrow> 'a stream \<Rightarrow> (cstate, 'a) stream_ops" where
  "AsyncClient_stream_ops policy g =
     \<lparr>op_stop = pret False,
      op_open = AsyncConnection_open_stream (sm_command g),
      op_next = AsyncConnection_stream_next None,
      op_parse = sm_parse g,
      op_exhausted = ReconnectPolicy_exhausted policy,
      op_pause = (\<lambda>attempt. pbind (draw_delay policy attempt) (\<lambda>d. on_world (sleep d))),
      op_reconnect = AsyncConnection_reconnect\<rparr>"

definition AsyncClient_iter_stream :: "Command \<Rightarrow> (bytes \<Rightarrow> 'a result) \<Rightarrow> 'a stream" where
  "AsyncClient_iter_stream command parse =
     \<lparr>sm_command = command, sm_parse = parse, sm_should_stop = None, sm_state = Fresh\<rparr>"

definition AsyncClient_stream_next ::
  "'a stream \<Rightarrow> aclstate \<Rightarrow> ('a stream_event outcome \<times> 'a stream) \<times> aclstate" where
  "AsyncClient_stream_next g = (\<lambda>(cl, w).
     case generator_next (\<lambda>s. AsyncConnectionPool_enter (AsyncClient_factory (ac_template cl))
         (Deadline_new (Some (ac_connect_timeout cl)) (now (snd s))) s)
       AsyncConnectionPool_release (AsyncClient_stream_ops (ac_reconnect cl) g) g (ac_pool cl, w) of
     (x, (p, w')) \<Rightarrow> (x, (cl\<lparr>ac_pool := p\<rparr>, w')))"

definition AsyncClient_stream_aclose :: "'a stream \<Rightarrow> aclstate \<Rightarrow> (unit outcome \<times> 'a stream) \<times> aclstate" where
  "AsyncClient_stream_aclose g = (\<lambda>(cl, w).
     case generator_close AsyncConnectionPool_release g (ac_pool cl, w) of
     (x, (p, w')) \<Rightarrow> (x, (cl\<lparr>ac_pool := p\<rparr>, w')))"

definition AsyncClient_stream :: "LimitEvent stream result" where
  "AsyncClient_stream = sbind stream (\<lambda>c. Inr (AsyncClient_iter_stream c parse_limit_event))"

definition AsyncClient_pstream :: "pystr \<Rightarrow> LimitEvent stream result" where
  "AsyncClient_pstream pfx = sbind (pstream pfx) (\<lambda>c. Inr (AsyncClient_iter_stream c parse_limit_event))"

definition AsyncClient_qstream :: "QuotaEvent stream result" where
  "AsyncClient_qstream = sbind qstream (\<lambda>c. Inr (AsyncClient_iter_stream c parse_quota_event))"

definition AsyncClient_qpstream :: "pystr \<Rightarrow> QuotaEvent stream result" where
  "AsyncClient_qpstream pfx = sbind (qpstream pfx) (\<lambda>c. Inr (AsyncClient_iter_stream c parse_quota_event))"

end
