(* ===== verification/AsyncClientFacts.thy ===== *)
theory AsyncClientFacts
  imports AsyncClient ClientFacts
begin

text \<open>
  What the asyncio client promises: its pool is ready from the constructor on, and stays so through
  calls and streams; a mutating request is delivered at most once; and where its retries end and the
  synchronous client's do not.
\<close>

section \<open>Deliveries\<close>

lemma async_backoff_eq: "AsyncClient_backoff = Client_backoff"
  by (intro ext) (simp add: AsyncClient_backoff_def Client_backoff_def)

lemma async_delivered_backoff: "AsyncClient_backoff p n d s = (r, t) \<Longrightarrow> delivered c t = delivered c s"
  unfolding async_backoff_eq by (rule delivered_backoff)

lemma async_reconnect_greets: "AsyncConnection_reconnect s = (r, t) \<Longrightarrow> greets s t"
  using async_conn.reconnect_outcome by blast

lemmas async_transport_laws = outcome_laws [OF async_conn.send_outcome]
  outcome_laws [OF async_conn.send_chunked_outcome] async_delivered_backoff
  delivered_greets [OF async_reconnect_greets]

interpretation async_plain: transport AsyncConnection_send "\<lambda>dl attempt. AsyncClient_backoff p attempt dl"
  AsyncConnection_reconnect in_flight delivered client_command for p
  by unfold_locales (erule async_transport_laws; assumption?)+

interpretation async_chunked: transport AsyncConnection_send_chunked
  "\<lambda>dl attempt. AsyncClient_backoff p attempt dl" AsyncConnection_reconnect in_flight delivered client_command for p
  by unfold_locales (erule async_transport_laws; assumption?)+

lemma async_retry_delivers:
  assumes "client_command command" and "\<not> read_only command"
    and "AsyncClient_with_retry p AsyncConnection_send command dl s = (r, t)" and "r \<noteq> Blocked"
  shows "delivered command t \<le> delivered command s + 1 \<and>
    (\<forall>x. r = Return x \<longrightarrow> delivered command t = delivered command s + 1)"
proof -
  have "async_with_retry p AsyncConnection_send command dl s = Some (r, t)"
    using assms(3,4) by (auto simp: AsyncClient_with_retry_def split: option.splits)
  then show ?thesis
    using async_plain.at_most_once [OF assms(1), of _ dl p 0 s r t] assms(2) by (auto simp: async_with_retry_def)
qed

text \<open>What the pool dials and releases.\<close>

lemma async_factory_greets:
  "AsyncClient_factory template w = (r, v) \<Longrightarrow> cn_sock template = None \<Longrightarrow> greeted w v"
  by (auto simp: AsyncClient_factory_def greeted_def greets_def split: prod.splits outcome.splits
      dest!: async_conn.connect_outcome)

lemma async_factory_opens: "AsyncClient_factory template w = (Return c, v) \<Longrightarrow> cn_sock template = None \<Longrightarrow>
    \<not> Connection_closed c \<and> \<not> cn_request_in_flight c"
  by (auto simp: AsyncClient_factory_def Connection_closed_def split: prod.splits outcome.splits
      dest: async_conn.connect_outcome)

lemma atake_sends: "AsyncConnectionPool_take dl (p, w) = (r, (q, v)) \<Longrightarrow> sends v = sends w"
  by (auto simp: AsyncConnectionPool_take_def prog_defs await_slot_def
      split: prod.splits outcome.splits list.splits option.splits)

lemma put_nowait_sends: "put_nowait x (p, w) = (r, (q, v)) \<Longrightarrow> v = w"
  by (auto simp: put_nowait_def split: if_splits)

lemma async_enter_greets:
  assumes "AsyncConnectionPool_enter (AsyncClient_factory template) dl (p, w) = (r, (q, v))"
    and "cn_sock template = None"
  shows "greeted w v"
proof -
  obtain a p1 w1 where t: "AsyncConnectionPool_take dl (p, w) = (a, (p1, w1))" by (metis prod.exhaust)
  obtain f w2 where f: "AsyncClient_factory template w1 = (f, w2)" by (cases "AsyncClient_factory template w1")
  have "greeted w1 w2" "sends w1 = sends w" using async_factory_greets [OF f assms(2)] atake_sends [OF t] .
  moreover have "v \<in> {w, w1, w2}"
    using assms(1) t f
    by (auto simp: AsyncConnectionPool_enter_def pbind_def pget_def praise_def pret_def pcatch_def
        on_pool_world_def dest: put_nowait_sends split: prod.splits outcome.splits option.splits if_splits)
  ultimately show ?thesis by (auto simp: greeted_def)
qed

lemma async_release_sends: "AsyncConnectionPool_release c (p, w) = (r, (q, v)) \<Longrightarrow> sends v = sends w"
  by (auto simp: AsyncConnectionPool_release_def pbind_def pget_def on_pool_world_def aclose_world_def
      AsyncConnection_close_def dest: put_nowait_sends split: prod.splits option.splits if_splits)

interpretation async_calls: dialing_pool "AsyncConnectionPool_enter (AsyncClient_factory template)"
  AsyncConnectionPool_release "cn_sock template = None" for template
  by unfold_locales (erule (1) async_enter_greets [rotated], erule async_release_sends)

text \<open>What a call does to the client: only its pool and the world change.\<close>

lemma async_call_run:
  assumes "async_client_call (Inr c) parse timeout (cl, w) = (r, (cl', w'))"
  obtains dl a where
    "AsyncConnectionPool_acquire (AsyncClient_factory (ac_template cl)) dl
       (AsyncClient_with_retry (ac_reconnect cl) AsyncConnection_send c dl) (ac_pool cl, w) = (a, (ac_pool cl', w'))"
    "cl' = cl\<lparr>ac_pool := ac_pool cl'\<rparr>" "r = Blocked \<longleftrightarrow> a = Blocked" "\<And>x. r = Return x \<Longrightarrow> \<exists>y. a = Return y"
proof -
  obtain dl where dl: "AsyncClient_deadline timeout (cl, w) = (Return dl, (cl, w))"
    by (simp add: AsyncClient_deadline_def pget_def)
  let ?body = "AsyncClient_with_retry (ac_reconnect cl) AsyncConnection_send c dl"
  obtain a p1 w1 where run:
    "AsyncConnectionPool_acquire (AsyncClient_factory (ac_template cl)) dl ?body (ac_pool cl, w) = (a, (p1, w1))"
    by (metis prod.exhaust)
  have out: "cl' = cl\<lparr>ac_pool := p1\<rparr> \<and> w' = w1" "r = Blocked \<longleftrightarrow> a = Blocked"
    "\<And>x. r = Return x \<Longrightarrow> \<exists>y. a = Return y"
    using assms dl run
    by (cases a; auto simp: async_client_call_def AsyncClient_execute_def AsyncClient_acquire_def on_apool_def
        pbind_def plift_def split: sum.splits)+
  then show ?thesis using that [of dl a] run by auto
qed

text \<open>
  C4. The asyncio client executes a mutating request at most once as well: whatever connection the pool
  hands out or opens, whatever the network does and however often the call reconnects and tries again,
  the request's frame is handed over complete at most once, and exactly once when the call returns.
\<close>

theorem async_call_at_most_once:
  assumes "encode_request q = Inr command" and "\<forall>token. q \<noteq> Hello token" and "\<not> request_read_only q"
    and "pool_ready (ac_pool cl)" and "cn_sock (ac_template cl) = None"
    and "async_client_call (encode_request q) parse timeout (cl, w) = (r, (cl', v))" and "r \<noteq> Blocked"
    and "encode_frame (payload command) = Inr frame"
  shows "count_list (sends v) frame \<le> count_list (sends w) frame + 1 \<and>
    (\<forall>x. r = Return x \<longrightarrow> count_list (sends v) frame = count_list (sends w) frame + 1)"
proof -
  have client: "client_command command" using assms(1,2) by (blast intro: encode_request_client)
  have mutating: "\<not> read_only command" using assms(1,3) by (auto simp: encode_request_eq sbind_eq_Inr)
  have count: "delivered command (c, u) = count_list (sends u) frame" for c u
    using assms(8) by (simp add: delivered_def)
  obtain dl a where run: "AsyncConnectionPool_acquire (AsyncClient_factory (ac_template cl)) dl
       (AsyncClient_with_retry (ac_reconnect cl) AsyncConnection_send command dl) (ac_pool cl, w) = (a, (ac_pool cl', v))"
    and out: "a \<noteq> Blocked" "\<And>x. r = Return x \<Longrightarrow> \<exists>y. a = Return y"
    using async_call_run [OF assms(6) [unfolded assms(1)]] assms(7) by metis
  have "delivered command (undefined, v) \<le> delivered command (undefined, w) + 1 \<and>
    (\<forall>x. a = Return x \<longrightarrow> delivered command (undefined, v) = delivered command (undefined, w) + 1)"
    using async_calls.bracket_at_most_once [OF run [unfolded AsyncConnectionPool_acquire_def] assms(5) out(1) assms(4) client]
      async_retry_delivers [OF client mutating] by blast
  with out show ?thesis by (auto simp: count)
qed

section \<open>The pool stays ready\<close>

text \<open>A client as its constructor leaves it.\<close>

definition unopened :: "int \<Rightarrow> AsyncClient \<Rightarrow> bool" where
  "unopened n cl \<longleftrightarrow> AsyncConnectionPool_new n = Inr (ac_pool cl) \<and> \<not> ac_opened cl \<and> cn_sock (ac_template cl) = None"

lemma new_unopened:
  "AsyncClient_new build address n timeout connect_timeout token tls ctx hostname policy = Inr cl \<Longrightarrow> unopened n cl"
  by (auto simp: AsyncClient_new_def AsyncConnection_new_def sbind_eq_Inr unopened_def)

lemma aprefill_full:
  assumes "unopened n cl"
    and "AsyncConnectionPool_prefill (AsyncClient_factory (ac_template cl)) (ac_pool cl, w) = (Return (), (q, v))"
  shows "pool_full n q"
proof -
  have new: "AsyncConnectionPool_new n = Inr (ac_pool cl)" "cn_sock (ac_template cl) = None"
    using assms(1) by (simp_all add: unopened_def)
  have q: "int (length (pl_slots q)) = n" "same_frame (ac_pool cl) q"
    "\<forall>x \<in> set (pl_slots q). \<exists>c u u'. x = Some c \<and> AsyncClient_factory (ac_template cl) u = (Return c, u')"
    using aprefill_outcome [OF new(1) assms(2)] by simp_all
  have "list_all slot_idle (pl_slots q)"
    using q(3) async_factory_opens [OF _ new(2)] by (fastforce simp: list_all_iff slot_idle_def)
  moreover have "0 < n" "\<not> pl_closed (ac_pool cl)" "pl_size (ac_pool cl) = n"
    using new(1) by (cases "ac_pool cl"; simp add: AsyncConnectionPool_new_def split: if_splits)+
  ultimately show ?thesis using q(1,2) by (auto simp: pool_full_def same_frame_def)
qed

text \<open>Looking at a pooled connection: it is taken and put back.\<close>

lemma aacquire_peek:
  assumes "pool_ready q" and "pl_slots q = Some c # rest"
  shows "AsyncConnectionPool_acquire factory dl (pget f) (q, v) = (Return (f (c, v)), (q, v))"
proof -
  have "AsyncConnectionPool_enter factory dl (q, v) = (Return c, (q\<lparr>pl_slots := rest\<rparr>, v))"
    using assms by (simp add: AsyncConnectionPool_enter_def AsyncConnectionPool_take_def await_slot_def
        pool_ready_def pbind_def pget_def pret_def pwrap_def pcatch_def)
  moreover have "AsyncConnectionPool_release c (q\<lparr>pl_slots := rest\<rparr>, v) = (Return (), (q, v))"
    using assms by (simp add: AsyncConnectionPool_release_def put_nowait_def pool_ready_def pbind_def pget_def
        slot_live_def AsyncConnection_closed_def Connection_closed_def)
  ultimately show ?thesis
    by (simp add: AsyncConnectionPool_acquire_def bracket_def run_body_def pbind_def pret_def pget_def)
qed

lemma async_open_eq:
  assumes "unopened n cl"
    and "AsyncConnectionPool_prefill (AsyncClient_factory (ac_template cl)) (ac_pool cl, w) = (a, (q, v))"
  shows "AsyncClient_open (cl, w) = (case a of
      Return u \<Rightarrow> (Return (), (cl\<lparr>ac_pool := q, ac_server_role := cn_role (the (hd (pl_slots q))),
        ac_auth_required := cn_auth_required (the (hd (pl_slots q))), ac_opened := True\<rparr>, v))
    | Raise e \<Rightarrow> (Raise e, (cl\<lparr>ac_pool := q\<rparr>, v))
    | Blocked \<Rightarrow> (Blocked, (cl\<lparr>ac_pool := q\<rparr>, v)))"
proof (cases a)
  case (Return u)
  with aprefill_full [OF assms(1), of w q v] assms(2) have full: "pool_full n q" by simp
  note ready = pool_full_ready [OF full]
  obtain c rest where c: "pl_slots q = Some c # rest" using pool_full_top [OF full] .
  have app: "pget f s = (Return (f s), s)" for f :: "'s \<Rightarrow> 'x" and s by (simp add: pget_def)
  show ?thesis
    using assms Return c
    by (simp add: AsyncClient_open_def unopened_def pbind_def app on_apool_def pmodify_def
        AsyncClient_acquire_def aacquire_peek [OF ready c])
qed (use assms in \<open>simp_all add: AsyncClient_open_def unopened_def pbind_def pget_def on_apool_def\<close>)

lemma async_open_full:
  assumes "unopened n cl" and "AsyncClient_open (cl, w) = (Return (), (cl', w'))"
  shows "pool_full n (ac_pool cl') \<and> ac_opened cl'"
proof -
  obtain a q v where pre: "AsyncConnectionPool_prefill (AsyncClient_factory (ac_template cl)) (ac_pool cl, w) = (a, (q, v))"
    by (metis prod.exhaust)
  with assms async_open_eq [OF assms(1) pre] have "a = Return ()" "ac_pool cl' = q" "ac_opened cl'"
    by (auto split: outcome.splits)
  with aprefill_full [OF assms(1), of w q v] pre show ?thesis by simp
qed

lemma async_call_home:
  assumes "pool_ready (ac_pool cl)" and "async_client_call command parse t (cl, u) = (r, (cl', u'))" and "r \<noteq> Blocked"
  shows "home (ac_pool cl) (ac_pool cl')"
proof (cases command)
  case (Inl e)
  with assms show ?thesis using pool_ready_home by (simp add: async_client_call_def pbind_def)
next
  case (Inr c)
  from async_call_run [OF assms(2) [unfolded Inr]] assms(3) obtain dl q where
    "AsyncConnectionPool_acquire (AsyncClient_factory (ac_template cl)) dl
     (AsyncClient_with_retry (ac_reconnect cl) AsyncConnection_send c dl) (ac_pool cl, u) = (q, (ac_pool cl', u'))"
    "q \<noteq> Blocked" by metis
  then show ?thesis using async_pool.bracket_home [OF assms(1)] by (simp add: AsyncConnectionPool_acquire_def)
qed

text \<open>
  C5. The asyncio client's invariant: the pool is ready as soon as the constructor returns, with
  \<open>pool_size\<close> empty slots that are opened on demand; \<open>open\<close> leaves it full, each slot with a connection
  that is open and has no request under way; and every call and every step of a stream keeps it ready:
  a call brings its slot home, a stream holds one slot exactly while it is suspended.
\<close>

theorem async_client_pool_invariant:
  "(AsyncClient_new build address n timeout connect_timeout token tls ctx hostname policy = Inr cl0 \<longrightarrow>
      pool_ready (ac_pool cl0) \<and> pl_slots (ac_pool cl0) = replicate (nat n) None \<and>
      (\<forall>w cl' w'. AsyncClient_open (cl0, w) = (Return (), (cl', w')) \<longrightarrow>
         pool_full n (ac_pool cl') \<and> ac_opened cl')) \<and>
   (pool_ready (ac_pool cl) \<and> async_client_call command parse t (cl, u) = (r, (cl', u')) \<and> r \<noteq> Blocked \<longrightarrow>
      home (ac_pool cl) (ac_pool cl') \<and> pool_ready (ac_pool cl')) \<and>
   (pool_ready p \<and> stream_slot p g (ac_pool cl) \<and>
      (AsyncClient_stream_next g (cl, u) = ((x, g'), (cl'', u'')) \<and> x \<noteq> Blocked \<or>
       AsyncClient_stream_aclose g (cl, u) = ((y, g'), (cl'', u''))) \<longrightarrow>
      stream_slot p g' (ac_pool cl''))"
proof (intro conjI impI allI; (elim conjE)?)
  assume new: "AsyncClient_new build address n timeout connect_timeout token tls ctx hostname policy = Inr cl0"
  then show "pool_ready (ac_pool cl0)" "pl_slots (ac_pool cl0) = replicate (nat n) None"
    by (auto simp: AsyncClient_new_def AsyncConnectionPool_new_def pool_ready_def sbind_eq_Inr
        list_all_iff slot_live_def split: if_splits)
  show "pool_full n (ac_pool cl')" "ac_opened cl'"
    if "AsyncClient_open (cl0, w) = (Return (), (cl', w'))" for w cl' w'
    using async_open_full [OF new_unopened [OF new] that] by simp_all
next
  assume a: "pool_ready (ac_pool cl)" "async_client_call command parse t (cl, u) = (r, (cl', u'))" "r \<noteq> Blocked"
  show "home (ac_pool cl) (ac_pool cl')" by (rule async_call_home [OF a])
  then show "pool_ready (ac_pool cl')" by (rule home_ready [OF a(1)])
next
  assume p: "pool_ready p" "stream_slot p g (ac_pool cl)"
    and run: "AsyncClient_stream_next g (cl, u) = ((x, g'), (cl'', u'')) \<and> x \<noteq> Blocked \<or>
       AsyncClient_stream_aclose g (cl, u) = ((y, g'), (cl'', u''))"
  from run show "stream_slot p g' (ac_pool cl'')"
  proof (elim disjE conjE)
    assume "AsyncClient_stream_next g (cl, u) = ((x, g'), (cl'', u''))" "x \<noteq> Blocked"
    then obtain dl where "generator_next (\<lambda>s. AsyncConnectionPool_enter (AsyncClient_factory (ac_template cl)) (dl s) s)
        AsyncConnectionPool_release (AsyncClient_stream_ops (ac_reconnect cl) g) g (ac_pool cl, u) =
      ((x, g'), (ac_pool cl'', u''))" "x \<noteq> Blocked"
      by (auto simp: AsyncClient_stream_next_def split: prod.splits)
    then show ?thesis by (rule async_pool.next_slot [OF p])
  next
    assume "AsyncClient_stream_aclose g (cl, u) = ((y, g'), (cl'', u''))"
    then have "generator_close AsyncConnectionPool_release g (ac_pool cl, u) = ((y, g'), (ac_pool cl'', u''))"
      by (auto simp: AsyncClient_stream_aclose_def split: prod.splits)
    then show ?thesis by (rule async_pool.close_slot [OF p])
  qed
qed

section \<open>Where the two clients differ\<close>

lemma connect_timeout_differs:
  assumes "split_address (cn_address (fst s)) = Inr (host, port)"
    and "dials (snd s) = Refused dt # others" and "0 < cn_connect_timeout (fst s)" and "cn_connect_timeout (fst s) < dt"
    and "\<forall>sk. cn_sock (fst s) = Some sk \<longrightarrow> usable sk"
  shows "fst (AsyncConnection_reconnect s) = Raise (Exc FQTimeoutError) \<and>
    fst (Connection_reconnect s) = Raise (Exc FQConnectionError)"
proof -
  obtain c w where s: "s = (c, w)" by (cases s)
  obtain t where "AsyncConnection_close s = (Return (), t)" "Connection_close s = (Return (), t)"
    and t: "split_address (cn_address (fst t)) = Inr (host, port)" "dials (snd t) = Refused dt # others"
      "0 < cn_connect_timeout (fst t)" "cn_connect_timeout (fst t) < dt"
    using assms s
    by (cases "cn_sock c") (auto simp: AsyncConnection_close_def Connection_close_def record_event_def)
  then show ?thesis
    by (auto simp: AsyncConnection_reconnect_def Connection_reconnect_def AsyncConnection_connect_def
        Connection_connect_def AsyncConnection_dial_def open_connection_def create_connection_def in_span_def
        record_event_def on_world_def prog_defs Let_def split: prod.splits)
qed

text \<open>
  C24. An outage that swallows connection attempts ends the asyncio client's retries at once: when a call
  lost its connection and may be tried again, and the new connection times out, the asyncio client
  gives up with FQTimeoutError, whatever time the call has left, while the synchronous client, for
  which the same timeout is a plain FQConnectionError, goes on to its next attempt.
\<close>

theorem connect_timeout_ends_async_retry:
  assumes "send s0 = (Raise (Exc FQConnectionError), s1)" and "\<not> (flag s1 \<and> \<not> safe)"
    and "\<not> exhausted (n + 1)" and "backoff (n + 1) s1 = (Return (), s2)"
    and "split_address (cn_address (fst s2)) = Inr (host, port)"
    and "dials (snd s2) = Refused dt # others" and "0 < cn_connect_timeout (fst s2)"
    and "cn_connect_timeout (fst s2) < dt" and "\<forall>sk. cn_sock (fst s2) = Some sk \<longrightarrow> usable sk"
  shows "(\<exists>t. retry_step exhausted send backoff AsyncConnection_reconnect flag safe n s0 =
        Inl (Raise (Exc FQTimeoutError), t)) \<and>
    (\<exists>t. retry_step exhausted send backoff Connection_reconnect flag safe n s0 = Inr t)"
proof -
  from connect_timeout_differs [OF assms(5-9)] obtain t u where
    "AsyncConnection_reconnect s2 = (Raise (Exc FQTimeoutError), t)"
    "Connection_reconnect s2 = (Raise (Exc FQConnectionError), u)"
    by (metis prod.collapse)
  with assms(1-4) show ?thesis by (simp add: retry_step_def)
qed

section \<open>Concrete instances\<close>

theorem connect_timeout_ends_async_retry_witness:
  "\<exists>t. retry_step (ReconnectPolicy_exhausted default_policy)
      (AsyncConnection_send sample_command \<lparr>dl_at = Some 100\<rparr>)
      (\<lambda>attempt. AsyncClient_backoff default_policy attempt \<lparr>dl_at = Some 100\<rparr>)
      AsyncConnection_reconnect in_flight False 0 (sample_closed, sample_world [Refused 6]) =
    Inl (Raise (Exc FQTimeoutError), t)"
proof -
  let ?s = "(sample_closed, sample_world [Refused 6])" and ?dl = "\<lparr>dl_at = Some 100\<rparr>"
  have send: "AsyncConnection_send sample_command ?dl ?s = (Raise (Exc FQConnectionError), ?s)"
    by (simp add: sample_eval async_eval sample_command_def)
  obtain q u where paused: "AsyncClient_backoff default_policy 1 ?dl ?s = (q, u)"
    by (cases "AsyncClient_backoff default_policy 1 ?dl ?s")
  have "fst (AsyncClient_backoff default_policy 1 ?dl ?s) = Return ()"
    by (simp add: async_backoff_eq retry_eval sample_eval)
  then have q: "q = Return ()" using paused by simp
  have u: "fst u = sample_closed" "dials (snd u) = [Refused 6]"
    using keepsD [OF idle_backoff paused [unfolded async_backoff_eq]]
    by (simp_all add: idle_def sample_world_def)
  have "(\<exists>t. retry_step (ReconnectPolicy_exhausted default_policy) (AsyncConnection_send sample_command ?dl)
      (\<lambda>attempt. AsyncClient_backoff default_policy attempt ?dl) AsyncConnection_reconnect in_flight False 0 ?s =
        Inl (Raise (Exc FQTimeoutError), t)) \<and>
    (\<exists>t. retry_step (ReconnectPolicy_exhausted default_policy) (AsyncConnection_send sample_command ?dl)
      (\<lambda>attempt. AsyncClient_backoff default_policy attempt ?dl) Connection_reconnect in_flight False 0 ?s = Inr t)"
    by (rule connect_timeout_ends_async_retry [where ?s0.0 = ?s and ?s1.0 = ?s and ?s2.0 = u and dt = 6])
       (use send paused q u in \<open>simp_all add: in_flight_def default_policy_def ReconnectPolicy_exhausted_def
          sample_closed_def Connection_new_def sample_address\<close>)
  then show ?thesis by blast
qed

definition sample_aclient :: "connection option list \<Rightarrow> AsyncClient" where
  "sample_aclient slots = \<lparr>ac_timeout = Some 5, ac_connect_timeout = 5, ac_reconnect = default_policy,
     ac_template = sample_closed, ac_pool = sample_pool slots, ac_server_role = [],
     ac_auth_required = False, ac_opened = False\<rparr>"

lemma sample_acall:
  "\<exists>v. AsyncClient_incr sample_key DEFAULT (sample_aclient [None], sample_world [Accepted 0 (TlsOk 0)
     (sample_server (sample_answers 1))]) = (Return 7, v)"
  by (simp add: AsyncClient_incr_def async_client_call_def sample_incr [simplified] AsyncClient_execute_def
      AsyncClient_deadline_def AsyncClient_acquire_def on_apool_def AsyncConnectionPool_acquire_def bracket_def
      AsyncConnectionPool_enter_def AsyncConnectionPool_take_def await_slot_def on_pool_world_def
      AsyncClient_factory_def run_body_def AsyncConnectionPool_release_def put_nowait_def
      AsyncClient_with_retry_def async_with_retry_def retry_loop.simps retry_step_def sample_aclient_def
      sample_pool_def sample_eval async_eval sample_command_def sample_answers_def sample_parse
      AsyncConnection_closed_def)

theorem async_call_at_most_once_witness:
  "\<exists>cl v frame. AsyncClient_incr sample_key DEFAULT (sample_aclient [None], sample_world [Accepted 0 (TlsOk 0)
       (sample_server (sample_answers 1))]) = (Return 7, (cl, v)) \<and>
    encode_frame (payload sample_command) = Inr frame \<and> count_list (sends v) frame = 1"
proof -
  let ?w = "sample_world [Accepted 0 (TlsOk 0) (sample_server (sample_answers 1))]"
  obtain cl v where call: "async_client_call (encode_request (Incr sample_key)) parse_value DEFAULT
      (sample_aclient [None], ?w) = (Return 7, (cl, v))"
    using sample_acall by (auto simp: AsyncClient_incr_def)
  obtain frame where frame: "encode_frame (payload sample_command) = Inr frame"
    by (simp add: sample_command_def encode_frame_def to_bytes4_def)
  have "pool_ready (ac_pool (sample_aclient [None]))" "cn_sock (ac_template (sample_aclient [None])) = None"
    by (simp_all add: sample_aclient_def sample_pool_def pool_ready_def slot_live_def sample_closed_def
        Connection_new_def)
  with async_call_at_most_once [OF sample_incr _ _ _ _ call _ frame]
  have "count_list (sends v) frame = 1" by (simp add: sends_def sample_world_def)
  with call frame show ?thesis by (auto simp: AsyncClient_incr_def)
qed

theorem async_client_pool_invariant_witness:
  "\<exists>cl. AsyncClient_new (\<lambda>cfg. Inl (Exc PyOSError)) (ustr ''fq:1'') 2 (Some 5) 5 None None None None None = Inr cl \<and>
    pool_ready (ac_pool cl) \<and>
    (\<exists>cl' v'. AsyncClient_incr sample_key DEFAULT (sample_aclient [None], sample_world [Accepted 0 (TlsOk 0)
       (sample_server (sample_answers 1))]) = (Return 7, (cl', v')) \<and> pool_ready (ac_pool cl'))"
proof -
  obtain cl where new: "AsyncClient_new (\<lambda>cfg. Inl (Exc PyOSError)) (ustr ''fq:1'') 2 (Some 5) 5 None None None None None = Inr cl"
    by (simp add: AsyncClient_new_def client_context_def AsyncConnectionPool_new_def)
  obtain cl' v' where call: "async_client_call (incr sample_key) parse_value DEFAULT (sample_aclient [None],
      sample_world [Accepted 0 (TlsOk 0) (sample_server (sample_answers 1))]) = (Return 7, (cl', v'))"
    using sample_acall by (auto simp: AsyncClient_incr_def)
  have "pool_ready (ac_pool (sample_aclient [None]))"
    by (simp add: sample_aclient_def sample_pool_def pool_ready_def slot_live_def)
  then have "home (ac_pool (sample_aclient [None])) (ac_pool cl') \<and> pool_ready (ac_pool cl')"
    by (rule mp [OF conjunct1 [OF conjunct2 [OF async_client_pool_invariant]] conjI [OF _ conjI [OF call]]]) simp
  then have "pool_ready (ac_pool cl')" by simp
  moreover have "pool_ready (ac_pool cl)"
    by (rule conjunct1 [OF mp [OF conjunct1 [OF async_client_pool_invariant] new]])
  ultimately show ?thesis using new call by (auto simp: AsyncClient_incr_def)
qed

end
