(* ===== verification/AsyncSharded.thy ===== *)
theory AsyncSharded
  imports AsyncClient Sharded
begin

text \<open>
  \<open>fq/aio/sharded.py\<close>: the asyncio sharded client. Its routing, batches and walks are those of
  \<open>Sharded\<close> over \<open>AsyncClient\<close>; opening the shards is a method of its own, and the workers of
  \<open>_fan_out\<close> are tasks that end by being cancelled. \<open>new_client\<close> is \<open>AsyncClient(address,
  **client_options)\<close>. \<open>__aenter__\<close> is \<open>open\<close> and \<open>__aexit__\<close> is \<open>aclose\<close>.
\<close>

section \<open>Opening and closing\<close>

fun async_clients :: "(pystr \<Rightarrow> AsyncClient result) \<Rightarrow> pystr list \<Rightarrow> AsyncClient list result" where
  "async_clients new_client [] = Inr []"
| "async_clients new_client (address # addresses) =
     sbind (new_client address) (\<lambda>c. sbind (async_clients new_client addresses) (\<lambda>cs. Inr (c # cs)))"

definition AsyncShardedClient_new ::
  "(pystr \<Rightarrow> AsyncClient result) \<Rightarrow> pystr list \<Rightarrow> sharding_func \<Rightarrow> AsyncClient sharded result" where
  "AsyncShardedClient_new new_client addresses func =
     (if addresses = [] then Inl (Exc PyValueError)
      else sbind (async_clients new_client addresses) (\<lambda>shards. Inr \<lparr>sh_func = func, sh_shards = shards\<rparr>))"

text \<open>The loop of \<open>open\<close>: the shards still to open, and those in \<open>opened\<close>.\<close>

fun open_shards :: "nat list \<Rightarrow> nat list \<Rightarrow> (AsyncClient shstate, unit) prog" where
  "open_shards [] opened = pret ()"
| "open_shards (i # is) opened =
     pbind (pcatch (on_shard i AsyncClient_open)
         (\<lambda>e. pbind (each_shard AsyncClient_aclose opened) (\<lambda>_. praise e)))
       (\<lambda>_. open_shards is (opened @ [i]))"

definition AsyncShardedClient_open :: "(AsyncClient shstate, unit) prog" where
  "AsyncShardedClient_open = pbind (pget (\<lambda>(sc, w). length (sh_shards sc))) (\<lambda>n. open_shards [0..<n] [])"

definition AsyncShardedClient_connect ::
  "(pystr \<Rightarrow> AsyncClient result) \<Rightarrow> pystr list \<Rightarrow> sharding_func \<Rightarrow> (world, AsyncClient sharded) prog" where
  "AsyncShardedClient_connect new_client addresses func w =
     (case AsyncShardedClient_new new_client addresses func of
        Inl e \<Rightarrow> (Raise e, w)
      | Inr sc \<Rightarrow> (case AsyncShardedClient_open (sc, w) of
          (Return u, (sc', w')) \<Rightarrow> (Return sc', w')
        | (Raise e, (sc', w')) \<Rightarrow> (Raise e, w')
        | (Blocked, (sc', w')) \<Rightarrow> (Blocked, w')))"

definition AsyncShardedClient_aclose :: "(AsyncClient shstate, unit) prog" where
  "AsyncShardedClient_aclose = pbind (all_shards AsyncClient_aclose) (\<lambda>_. pret ())"

definition AsyncShardedClient_shard_count :: "AsyncClient sharded \<Rightarrow> nat" where
  "AsyncShardedClient_shard_count = shard_count"

definition AsyncShardedClient_shard :: "AsyncClient sharded \<Rightarrow> int \<Rightarrow> nat result" where
  "AsyncShardedClient_shard = shard_at"

section \<open>Routed by key or name\<close>

definition AsyncShardedClient_incr :: "CappingKey \<Rightarrow> timeout \<Rightarrow> (AsyncClient shstate, int) prog" where
  "AsyncShardedClient_incr k t = by_key (ck_key k) (AsyncClient_incr k t)"

definition AsyncShardedClient_incrby :: "CappingKey \<Rightarrow> int \<Rightarrow> timeout \<Rightarrow> (AsyncClient shstate, int) prog" where
  "AsyncShardedClient_incrby k value t = by_key (ck_key k) (AsyncClient_incrby k value t)"

definition AsyncShardedClient_get :: "CappingKey \<Rightarrow> timeout \<Rightarrow> (AsyncClient shstate, int) prog" where
  "AsyncShardedClient_get k t = by_key (ck_key k) (AsyncClient_get k t)"

definition AsyncShardedClient_watch :: "CappingKey \<Rightarrow> timeout \<Rightarrow> (AsyncClient shstate, int) prog" where
  "AsyncShardedClient_watch k t = by_key (ck_key k) (AsyncClient_watch k t)"

definition AsyncShardedClient_delete :: "CappingKey \<Rightarrow> timeout \<Rightarrow> (AsyncClient shstate, bool) prog" where
  "AsyncShardedClient_delete k t = by_key (ck_key k) (AsyncClient_delete k t)"

definition AsyncShardedClient_rlimit_fixed_window ::
  "LimitKey \<Rightarrow> int \<Rightarrow> timeout \<Rightarrow> (AsyncClient shstate, RateLimitResult) prog" where
  "AsyncShardedClient_rlimit_fixed_window k limit t = by_key (lk_key k) (AsyncClient_rlimit_fixed_window k limit t)"

definition AsyncShardedClient_rlimit_sliding_window ::
  "LimitKey \<Rightarrow> int \<Rightarrow> timeout \<Rightarrow> (AsyncClient shstate, RateLimitResult) prog" where
  "AsyncShardedClient_rlimit_sliding_window k limit t = by_key (lk_key k) (AsyncClient_rlimit_sliding_window k limit t)"

definition AsyncShardedClient_rlimit_token_bucket ::
  "LimitKey \<Rightarrow> int \<Rightarrow> int \<Rightarrow> timeout \<Rightarrow> (AsyncClient shstate, RateLimitResult) prog" where
  "AsyncShardedClient_rlimit_token_bucket k capacity refill_amount t =
     by_key (lk_key k) (AsyncClient_rlimit_token_bucket k capacity refill_amount t)"

definition AsyncShardedClient_quota_set :: "pystr \<Rightarrow> int \<Rightarrow> timeout \<Rightarrow> (AsyncClient shstate, bool) prog" where
  "AsyncShardedClient_quota_set name limit t = by_key name (AsyncClient_quota_set name limit t)"

definition AsyncShardedClient_quota_set_n :: "pystr \<Rightarrow> int \<Rightarrow> int \<Rightarrow> timeout \<Rightarrow> (AsyncClient shstate, bool) prog" where
  "AsyncShardedClient_quota_set_n name limit clients t = by_key name (AsyncClient_quota_set_n name limit clients t)"

definition AsyncShardedClient_quota_acquire ::
  "pystr \<Rightarrow> int \<Rightarrow> pystr \<Rightarrow> int option \<Rightarrow> timeout \<Rightarrow> (AsyncClient shstate, QuotaAcquireResult) prog" where
  "AsyncShardedClient_quota_acquire name amount client_id ttl t =
     by_key name (AsyncClient_quota_acquire name amount client_id ttl t)"

definition AsyncShardedClient_quota_acquire_n ::
  "pystr \<Rightarrow> pystr \<Rightarrow> int option \<Rightarrow> timeout \<Rightarrow> (AsyncClient shstate, QuotaAcquireResult) prog" where
  "AsyncShardedClient_quota_acquire_n name client_id ttl t = by_key name (AsyncClient_quota_acquire_n name client_id ttl t)"

definition AsyncShardedClient_quota_acquire_lease ::
  "pystr \<Rightarrow> int \<Rightarrow> int \<Rightarrow> pystr \<Rightarrow> int option \<Rightarrow> timeout \<Rightarrow> (AsyncClient shstate, QuotaAcquireResult) prog" where
  "AsyncShardedClient_quota_acquire_lease name limit amount client_id ttl t =
     by_key name (AsyncClient_quota_acquire_lease name limit amount client_id ttl t)"

definition AsyncShardedClient_quota_release :: "pystr \<Rightarrow> pystr \<Rightarrow> timeout \<Rightarrow> (AsyncClient shstate, bool) prog" where
  "AsyncShardedClient_quota_release name client_id t = by_key name (AsyncClient_quota_release name client_id t)"

definition AsyncShardedClient_quota_delete :: "pystr \<Rightarrow> timeout \<Rightarrow> (AsyncClient shstate, bool) prog" where
  "AsyncShardedClient_quota_delete name t = by_key name (AsyncClient_quota_delete name t)"

definition AsyncShardedClient_quota_info :: "pystr \<Rightarrow> timeout \<Rightarrow> (AsyncClient shstate, QuotaInfo) prog" where
  "AsyncShardedClient_quota_info name t = by_key name (AsyncClient_quota_info name t)"

section \<open>Batches, scans and commands for every shard\<close>

definition AsyncShardedClient_mdelete :: "CappingKey list \<Rightarrow> timeout \<Rightarrow> (AsyncClient shstate, bool list) prog" where
  "AsyncShardedClient_mdelete keys t = sharded_mdelete (\<lambda>ks. AsyncClient_mdelete ks t) keys"

definition AsyncShardedClient_scan :: "int \<Rightarrow> pystr \<Rightarrow> timeout \<Rightarrow> (AsyncClient shstate, ScanResult) prog" where
  "AsyncShardedClient_scan n cursor t =
     sharded_walk cursor n (\<lambda>i shard_cursor remaining. on_shard i (AsyncClient_scan remaining shard_cursor t))"

definition AsyncShardedClient_pscan :: "pystr \<Rightarrow> int \<Rightarrow> pystr \<Rightarrow> timeout \<Rightarrow> (AsyncClient shstate, ScanResult) prog" where
  "AsyncShardedClient_pscan pfx n cursor t =
     sharded_walk cursor n (\<lambda>i shard_cursor remaining. on_shard i (AsyncClient_pscan pfx remaining shard_cursor t))"

definition AsyncShardedClient_flushdb :: "timeout \<Rightarrow> (AsyncClient shstate, bool) prog" where
  "AsyncShardedClient_flushdb t = all_true (AsyncClient_flushdb t)"

definition AsyncShardedClient_truncate :: "timeout \<Rightarrow> (AsyncClient shstate, bool) prog" where
  "AsyncShardedClient_truncate t = all_true (AsyncClient_truncate t)"

definition AsyncShardedClient_inspect ::
  "(bytes \<Rightarrow> 'report result) \<Rightarrow> InspectSection \<Rightarrow> timeout \<Rightarrow> (AsyncClient shstate, 'report list) prog" where
  "AsyncShardedClient_inspect parse_inspect section t = all_shards (AsyncClient_inspect parse_inspect section t)"

text \<open>The stream a worker of \<open>_fan_out\<close> iterates over on its shard.\<close>

definition AsyncShardedClient_stream :: "LimitEvent stream result" where
  "AsyncShardedClient_stream = AsyncClient_stream"

definition AsyncShardedClient_pstream :: "pystr \<Rightarrow> LimitEvent stream result" where
  "AsyncShardedClient_pstream pfx = AsyncClient_pstream pfx"

definition AsyncShardedClient_qstream :: "QuotaEvent stream result" where
  "AsyncShardedClient_qstream = AsyncClient_qstream"

definition AsyncShardedClient_qpstream :: "pystr \<Rightarrow> QuotaEvent stream result" where
  "AsyncShardedClient_qpstream pfx = AsyncClient_qpstream pfx"

end
