(* ===== verification/AsyncShardedFacts.thy ===== *)
theory AsyncShardedFacts
  imports AsyncSharded AsyncClientFacts ShardedStreams
begin

text \<open>
  What the asyncio sharded client promises: no call wears out a shard; opening is all or nothing, and a
  failed opening is final; its fan-out is a special case of the one with threads.
\<close>

section \<open>The shards stay ready\<close>

definition aclient_ready :: "AsyncClient \<Rightarrow> bool" where
  "aclient_ready cl \<longleftrightarrow> pool_ready (ac_pool cl)"

lemma async_call_ready: "keeps_one aclient_ready (async_client_call command parse t)"
  unfolding keeps_one_def aclient_ready_def using async_call_home home_ready by blast

lemma async_inspect_ready: "keeps_one aclient_ready (AsyncClient_inspect parse_inspect section t)"
proof -
  have "aclient_ready cl'"
    if run: "AsyncClient_inspect parse_inspect section t (cl, w) = (r, (cl', w'))"
      and "aclient_ready cl" "r \<noteq> Blocked" for cl w r cl' w'
  proof -
    obtain dl where dl: "AsyncClient_deadline t (cl, w) = (Return dl, (cl, w))"
      by (simp add: AsyncClient_deadline_def pget_def)
    let ?body = "\<lambda>cl. pbind (plift (inspect section)) (\<lambda>command.
      AsyncClient_with_retry (ac_reconnect cl) AsyncConnection_send_chunked command dl)"
    obtain q cl1 w1 where q: "AsyncClient_acquire dl ?body (cl, w) = (q, (cl1, w1))" by (metis prod.exhaust)
    have out: "cl' = cl1" "q = Blocked \<Longrightarrow> r = Blocked"
      using run dl q by (cases q; auto simp: AsyncClient_inspect_def pbind_def plift_def split: sum.splits)+
    obtain p1 where "AsyncConnectionPool_acquire (AsyncClient_factory (ac_template cl)) dl (?body cl) (ac_pool cl, w) =
        (q, (p1, w1))" "ac_pool cl1 = p1"
      using q by (auto simp: AsyncClient_acquire_def on_apool_def split: prod.splits)
    then show ?thesis
      using async_pool.bracket_home [of "ac_pool cl"] out that(2,3) home_ready
      by (metis AsyncConnectionPool_acquire_def aclient_ready_def)
  qed
  then show ?thesis unfolding keeps_one_def by blast
qed

lemmas async_sharded_defs = AsyncShardedClient_incr_def AsyncShardedClient_incrby_def
  AsyncShardedClient_get_def AsyncShardedClient_watch_def AsyncShardedClient_delete_def
  AsyncShardedClient_rlimit_fixed_window_def AsyncShardedClient_rlimit_sliding_window_def
  AsyncShardedClient_rlimit_token_bucket_def AsyncShardedClient_quota_set_def
  AsyncShardedClient_quota_set_n_def AsyncShardedClient_quota_acquire_def
  AsyncShardedClient_quota_acquire_n_def AsyncShardedClient_quota_acquire_lease_def
  AsyncShardedClient_quota_release_def AsyncShardedClient_quota_delete_def AsyncShardedClient_quota_info_def
  AsyncShardedClient_mdelete_def AsyncShardedClient_scan_def AsyncShardedClient_pscan_def
  AsyncShardedClient_flushdb_def AsyncShardedClient_truncate_def AsyncShardedClient_inspect_def

lemmas async_client_defs = AsyncClient_incr_def AsyncClient_incrby_def AsyncClient_get_def
  AsyncClient_watch_def AsyncClient_delete_def AsyncClient_rlimit_fixed_window_def
  AsyncClient_rlimit_sliding_window_def AsyncClient_rlimit_token_bucket_def AsyncClient_quota_set_def
  AsyncClient_quota_set_n_def AsyncClient_quota_acquire_def AsyncClient_quota_acquire_n_def
  AsyncClient_quota_acquire_lease_def AsyncClient_quota_release_def AsyncClient_quota_delete_def
  AsyncClient_quota_info_def AsyncClient_mdelete_def AsyncClient_scan_def AsyncClient_pscan_def
  AsyncClient_flushdb_def AsyncClient_truncate_def

text \<open>
  C19. No call of the asyncio sharded client wears out a shard: routed, split, walked or sent to every
  shard, whatever the result or exception, every shard's pool is as ready after it as before, and the
  list of shards and the sharding function are the same.
\<close>

theorem async_sharded_calls_keep_shards_ready:
  "keeps_shards aclient_ready (AsyncShardedClient_incr k t) \<and>
   keeps_shards aclient_ready (AsyncShardedClient_incrby k value t) \<and>
   keeps_shards aclient_ready (AsyncShardedClient_get k t) \<and>
   keeps_shards aclient_ready (AsyncShardedClient_watch k t) \<and>
   keeps_shards aclient_ready (AsyncShardedClient_delete k t) \<and>
   keeps_shards aclient_ready (AsyncShardedClient_rlimit_fixed_window lk limit t) \<and>
   keeps_shards aclient_ready (AsyncShardedClient_rlimit_sliding_window lk limit t) \<and>
   keeps_shards aclient_ready (AsyncShardedClient_rlimit_token_bucket lk capacity refill_amount t) \<and>
   keeps_shards aclient_ready (AsyncShardedClient_quota_set name limit t) \<and>
   keeps_shards aclient_ready (AsyncShardedClient_quota_set_n name limit clients t) \<and>
   keeps_shards aclient_ready (AsyncShardedClient_quota_acquire name amount client_id ttl t) \<and>
   keeps_shards aclient_ready (AsyncShardedClient_quota_acquire_n name client_id ttl t) \<and>
   keeps_shards aclient_ready (AsyncShardedClient_quota_acquire_lease name limit amount client_id ttl t) \<and>
   keeps_shards aclient_ready (AsyncShardedClient_quota_release name client_id t) \<and>
   keeps_shards aclient_ready (AsyncShardedClient_quota_delete name t) \<and>
   keeps_shards aclient_ready (AsyncShardedClient_quota_info name t) \<and>
   keeps_shards aclient_ready (AsyncShardedClient_mdelete keys t) \<and>
   keeps_shards aclient_ready (AsyncShardedClient_scan n cursor t) \<and>
   keeps_shards aclient_ready (AsyncShardedClient_pscan pfx n cursor t) \<and>
   keeps_shards aclient_ready (AsyncShardedClient_flushdb t) \<and>
   keeps_shards aclient_ready (AsyncShardedClient_truncate t) \<and>
   keeps_shards aclient_ready (AsyncShardedClient_inspect parse_inspect section t)"
  unfolding async_sharded_defs async_client_defs
  by (intro conjI shard_rules async_call_ready async_inspect_ready)

section \<open>Opening\<close>

definition opened :: "int \<Rightarrow> AsyncClient \<Rightarrow> bool" where
  "opened n cl \<longleftrightarrow> ac_opened cl \<and> pool_full n (ac_pool cl)"

definition shut :: "AsyncClient \<Rightarrow> bool" where
  "shut cl \<longleftrightarrow> ac_opened cl \<and> pl_closed (ac_pool cl) \<and> pl_slots (ac_pool cl) = []"

text \<open>A client whose opening failed: a slot is gone, the others are empty, and it is still not open.\<close>

definition broken :: "int \<Rightarrow> AsyncClient \<Rightarrow> bool" where
  "broken n cl \<longleftrightarrow> \<not> ac_opened cl \<and> pl_size (ac_pool cl) = n \<and> 0 < n \<and>
     pl_slots (ac_pool cl) = replicate (nat n - 1) None"

lemma aclose_opened:
  "AsyncClient_aclose (cl, w) = (r, (cl', w')) \<Longrightarrow> r \<noteq> Blocked \<Longrightarrow> opened n cl \<or> shut cl \<Longrightarrow> r = Return () \<and> shut cl'"
  by (auto simp: AsyncClient_aclose_def on_apool_def opened_def shut_def pool_full_def
      split: prod.splits dest!: aclose_outcome)

lemma async_open_outcome:
  assumes "unopened n cl" and "AsyncClient_open (cl, w) = (r, (cl', w'))" and "r \<noteq> Blocked"
  shows "case r of Return u \<Rightarrow> opened n cl' | Raise e \<Rightarrow> broken n cl' | Blocked \<Rightarrow> False"
proof -
  obtain a q v where pre: "AsyncConnectionPool_prefill (AsyncClient_factory (ac_template cl)) (ac_pool cl, w) = (a, (q, v))"
    by (metis prod.exhaust)
  note run = assms(2) [unfolded async_open_eq [OF assms(1) pre]]
  have new: "AsyncConnectionPool_new n = Inr (ac_pool cl)" "\<not> ac_opened cl" using assms(1) by (simp_all add: unopened_def)
  then have n: "0 < n" "pl_size (ac_pool cl) = n"
    by (cases "ac_pool cl"; simp add: AsyncConnectionPool_new_def split: if_splits)+
  show ?thesis
  proof (cases r)
    case (Return u)
    then show ?thesis using async_open_full [OF assms(1), of w cl' w'] assms(2) by (simp add: opened_def)
  next
    case (Raise e)
    with run have a: "a = Raise e" "cl' = cl\<lparr>ac_pool := q\<rparr>" by (auto split: outcome.splits)
    with aprefill_outcome [OF new(1) pre] new(2) n Raise show ?thesis by (simp add: broken_def same_frame_def)
  qed (use assms(3) in simp)
qed

lemma broken_stays_broken:
  assumes "broken n cl" and "AsyncClient_open (cl, w) = (r, t)" and "r \<noteq> Blocked"
  shows "\<exists>e. r = Raise e"
proof -
  obtain a q v where pre: "AsyncConnectionPool_prefill (AsyncClient_factory (ac_template cl)) (ac_pool cl, w) = (a, (q, v))"
    by (metis prod.exhaust)
  have "a \<noteq> Blocked" using assms pre
    by (auto simp: AsyncClient_open_def broken_def pbind_def pget_def on_apool_def split: prod.splits)
  then obtain e where "a = Raise e"
    using aprefill_after_failure [OF _ _ pre] assms(1) by (auto simp: broken_def)
  then show ?thesis using assms pre
    by (auto simp: AsyncClient_open_def broken_def pbind_def pget_def on_apool_def split: prod.splits)
qed

text \<open>Closing the shards opened so far: they end shut, the others are as they were.\<close>

lemma close_opened:
  assumes "each_shard AsyncClient_aclose is (sc, w) = (r, (sc', w'))" and "r \<noteq> Blocked"
    and "\<forall>i \<in> set is. i < length (sh_shards sc) \<and> (opened n (sh_shards sc ! i) \<or> shut (sh_shards sc ! i))"
  shows "(\<exists>us. r = Return us) \<and> length (sh_shards sc') = length (sh_shards sc) \<and>
    (\<forall>i \<in> set is. shut (sh_shards sc' ! i)) \<and> (\<forall>i. i \<notin> set is \<longrightarrow> sh_shards sc' ! i = sh_shards sc ! i)"
  using assms
proof (induction "is" arbitrary: r sc w)
  case (Cons i "is")
  obtain a cl w1 where a: "AsyncClient_aclose (sh_shards sc ! i, w) = (a, (cl, w1))" by (metis prod.exhaust)
  let ?sc = "sc\<lparr>sh_shards := (sh_shards sc)[i := cl]\<rparr>"
  have run: "on_shard i AsyncClient_aclose (sc, w) = (a, (?sc, w1))" using a by (simp add: on_shard_def)
  have "a \<noteq> Blocked" using Cons.prems(1,2) run by (auto simp: pbind_def)
  then have cl: "a = Return ()" "shut cl" using aclose_opened [OF a, of n] Cons.prems(3) by simp_all
  obtain b t where b: "each_shard AsyncClient_aclose is (?sc, w1) = (b, t)"
    by (cases "each_shard AsyncClient_aclose is (?sc, w1)")
  have t: "t = (sc', w')" "b \<noteq> Blocked" "(\<exists>us. b = Return us) \<Longrightarrow> \<exists>us. r = Return us"
    using Cons.prems(1,2) run cl(1) b by (auto simp: pbind_def pret_def split: outcome.splits)
  have "\<forall>j \<in> set is. j < length (sh_shards ?sc) \<and> (opened n (sh_shards ?sc ! j) \<or> shut (sh_shards ?sc ! j))"
    using Cons.prems(3) cl(2) by (auto simp: nth_list_update)
  from Cons.IH [OF b [unfolded t(1)] t(2) this] t(3) Cons.prems(3) cl(2) show ?case
    by (auto simp: nth_list_update)
qed (auto simp: pret_def)

text \<open>\<open>open\<close> failed at a shard from \<open>k\<close> on: those before it are shut, those after it as they were.\<close>

definition open_failed :: "int \<Rightarrow> nat \<Rightarrow> AsyncClient sharded \<Rightarrow> AsyncClient sharded \<Rightarrow> bool" where
  "open_failed n k sc sc' \<longleftrightarrow> (\<exists>i < length (sh_shards sc). k \<le> i \<and> (\<forall>j < i. shut (sh_shards sc' ! j)) \<and>
     broken n (sh_shards sc' ! i) \<and> (\<forall>j > i. sh_shards sc' ! j = sh_shards sc ! j))"

lemma open_failed_later:
  assumes "open_failed n (Suc k) (sc\<lparr>sh_shards := (sh_shards sc)[k := cl]\<rparr>) sc'"
  shows "open_failed n k sc sc'"
proof -
  obtain i where i: "i < length (sh_shards sc)" "Suc k \<le> i" "\<forall>j < i. shut (sh_shards sc' ! j)"
    "broken n (sh_shards sc' ! i)" "\<forall>j > i. sh_shards sc' ! j = (sh_shards sc)[k := cl] ! j"
    using assms by (auto simp: open_failed_def)
  then have "\<forall>j > i. sh_shards sc' ! j = sh_shards sc ! j" by auto
  with i show ?thesis by (auto simp: open_failed_def intro!: exI [of _ i])
qed

text \<open>The loop of \<open>open\<close> from shard \<open>k\<close> on.\<close>

lemma open_shards_outcome:
  assumes "open_shards [k..<length (sh_shards sc)] [0..<k] (sc, w) = (r, (sc', w'))" and "r \<noteq> Blocked"
    and "k \<le> length (sh_shards sc)" and "\<forall>j < k. opened n (sh_shards sc ! j)"
    and "\<forall>j. k \<le> j \<and> j < length (sh_shards sc) \<longrightarrow> unopened n (sh_shards sc ! j)"
  shows "length (sh_shards sc') = length (sh_shards sc) \<and> (case r of
      Return u \<Rightarrow> \<forall>j < length (sh_shards sc). opened n (sh_shards sc' ! j)
    | Raise e \<Rightarrow> open_failed n k sc sc'
    | Blocked \<Rightarrow> False)"
  using assms
proof (induction "length (sh_shards sc) - k" arbitrary: k sc w)
  case 0
  then show ?case by (auto simp: pret_def)
next
  case (Suc m)
  then have k: "k < length (sh_shards sc)" by simp
  have upt: "[k..<length (sh_shards sc)] = k # [Suc k..<length (sh_shards sc)]" using k by (rule upt_conv_Cons)
  obtain a cl w1 where a: "AsyncClient_open (sh_shards sc ! k, w) = (a, (cl, w1))" by (metis prod.exhaust)
  let ?sc = "sc\<lparr>sh_shards := (sh_shards sc)[k := cl]\<rparr>"
  have run: "on_shard k AsyncClient_open (sc, w) = (a, (?sc, w1))" using a by (simp add: on_shard_def)
  have "a \<noteq> Blocked" using Suc.prems(1,2) run upt by (auto simp: pbind_def pcatch_def)
  note cl = async_open_outcome [OF _ a this, of n]
  have fresh: "unopened n (sh_shards sc ! k)" using Suc.prems(5) k by simp
  show ?case
  proof (cases a)
    case (Return u)
    then have "open_shards [Suc k..<length (sh_shards ?sc)] [0..<Suc k] (?sc, w1) = (r, (sc', w'))"
      using Suc.prems(1) run upt by (simp add: pbind_def pcatch_def)
    moreover have "m = length (sh_shards ?sc) - Suc k" using Suc.hyps(2) by simp
    moreover have "\<forall>j < Suc k. opened n (sh_shards ?sc ! j)"
      using Suc.prems(4) cl [OF fresh] Return k by (auto simp: nth_list_update less_Suc_eq)
    moreover have "\<forall>j. Suc k \<le> j \<and> j < length (sh_shards ?sc) \<longrightarrow> unopened n (sh_shards ?sc ! j)"
      using Suc.prems(5) by simp
    ultimately have rest: "length (sh_shards sc') = length (sh_shards ?sc) \<and> (case r of
        Return u \<Rightarrow> \<forall>j < length (sh_shards ?sc). opened n (sh_shards sc' ! j)
      | Raise e \<Rightarrow> open_failed n (Suc k) ?sc sc'
      | Blocked \<Rightarrow> False)"
      using Suc.hyps(1) [of ?sc "Suc k" w1] Suc.prems(2) k by simp
    show ?thesis
      using rest open_failed_later by (auto split: outcome.splits)
  next
    case (Raise e)
    obtain b t where b: "each_shard AsyncClient_aclose [0..<k] (?sc, w1) = (b, t)"
      by (cases "each_shard AsyncClient_aclose [0..<k] (?sc, w1)")
    obtain sc2 w2 where t: "t = (sc2, w2)" by (cases t)
    have "b \<noteq> Blocked"
      using Suc.prems(1,2) run upt Raise b by (auto simp: pbind_def pcatch_def)
    from close_opened [OF b [unfolded t] this, of n] Suc.prems(4) k
    have shut: "\<exists>us. b = Return us" "length (sh_shards sc2) = length (sh_shards sc)" "\<forall>i < k. shut (sh_shards sc2 ! i)"
      "\<forall>i \<ge> k. sh_shards sc2 ! i = sh_shards ?sc ! i" by auto
    then have "r = Raise e" "sc' = sc2"
      using Suc.prems(1) run upt Raise b t by (auto simp: pbind_def pcatch_def praise_def)
    with shut cl [OF fresh] Raise k show ?thesis by (auto simp: open_failed_def intro!: exI [of _ k])
  qed (use \<open>a \<noteq> Blocked\<close> in simp)
qed

lemma reopen_fails:
  assumes "open_shards [k..<length (sh_shards sc)] [0..<k] (sc, w) = (r, t)" and "r \<noteq> Blocked"
    and "k \<le> i" and "i < length (sh_shards sc)" and "\<forall>j < i. shut (sh_shards sc ! j)" and "broken n (sh_shards sc ! i)"
  shows "\<exists>e. r = Raise e"
  using assms
proof (induction "i - k" arbitrary: k w)
  case 0
  then have k: "k = i" by simp
  have upt: "[k..<length (sh_shards sc)] = k # [Suc k..<length (sh_shards sc)]" using 0 k by (intro upt_conv_Cons) simp
  obtain a cl w1 where a: "AsyncClient_open (sh_shards sc ! k, w) = (a, (cl, w1))" by (metis prod.exhaust)
  let ?sc = "sc\<lparr>sh_shards := (sh_shards sc)[k := cl]\<rparr>"
  have run: "on_shard k AsyncClient_open (sc, w) = (a, (?sc, w1))" using a by (simp add: on_shard_def)
  have "a \<noteq> Blocked" using 0(2,3) run upt by (auto simp: pbind_def pcatch_def)
  then obtain e where e: "a = Raise e" using broken_stays_broken [OF _ a] 0 k by metis
  obtain b sc2 w2 where b: "each_shard AsyncClient_aclose [0..<k] (?sc, w1) = (b, (sc2, w2))" by (metis prod.exhaust)
  have "b \<noteq> Blocked" using 0(2,3) run upt e b by (auto simp: pbind_def pcatch_def)
  from close_opened [OF b this, of n] 0 k obtain us where "b = Return us" by auto
  then show ?case using 0(2) run upt e b by (auto simp: pbind_def pcatch_def praise_def)
next
  case (Suc m)
  then have k: "k < length (sh_shards sc)" by simp
  have upt: "[k..<length (sh_shards sc)] = k # [Suc k..<length (sh_shards sc)]" using k by (rule upt_conv_Cons)
  have "shut (sh_shards sc ! k)" using Suc.prems(5) Suc.hyps(2) by simp
  then have "on_shard k AsyncClient_open (sc, w) = (Return (), (sc, w))"
    by (simp add: on_shard_def AsyncClient_open_def shut_def pbind_def pget_def pret_def)
  then have "open_shards [Suc k..<length (sh_shards sc)] [0..<Suc k] (sc, w) = (r, t)"
    using Suc.prems(1) upt by (simp add: pbind_def pcatch_def)
  then show ?case using Suc.hyps(1) [of "Suc k" w] Suc.hyps(2) Suc.prems by simp
qed

lemma async_clients_unopened:
  "async_clients (\<lambda>address. AsyncClient_new build address n timeout connect_timeout token tls ctx hostname policy)
     addresses = Inr cs \<Longrightarrow> length cs = length addresses \<and> (\<forall>c \<in> set cs. unopened n c)"
  by (induction addresses arbitrary: cs) (auto simp: sbind_eq_Inr dest: new_unopened)


section \<open>Fanning out over tasks\<close>

text \<open>
  The workers of the asyncio \<open>_fan_out\<close> have no flag to look at: \<open>put\<close> on the unbounded queue never
  waits, and \<open>task.cancel()\<close> ends a worker at the stream's next await. \<open>fo_stop\<close> is that the tasks
  have been cancelled. The generator ends by a shard's error, by being closed at its \<open>yield\<close>, or, which
  has no counterpart among threads, because the task that iterates over it is cancelled while it waits
  in \<open>events.get()\<close>, whether or not an event has just come in: its \<open>finally\<close> cancels the workers in
  every case.
\<close>

inductive afan_step :: "'a fan_out \<Rightarrow> 'a fan_out \<Rightarrow> bool" where
  aput_event: "worker_is st i (Working (x # xs, e)) \<Longrightarrow> \<not> fo_stop st \<Longrightarrow>
    afan_step st (put_item (i, Inl x) (set_worker i (Working (xs, e)) st))"
| aput_error: "worker_is st i (Working ([], Some e)) \<Longrightarrow> \<not> fo_stop st \<Longrightarrow>
    afan_step st (put_item (i, Inr e) (set_worker i (Returned ([], None)) st))"
| cancelled: "worker_is st i (Working s) \<Longrightarrow> fo_stop st \<Longrightarrow> afan_step st (set_worker i (Returned s) st)"
| aget_event: "fo_consumer st = Getting \<Longrightarrow> fo_queue st = (i, Inl x) # rest \<Longrightarrow>
    afan_step st (st\<lparr>fo_queue := rest, fo_consumed := fo_consumed st @ [(i, Inl x)], fo_consumer := Yielding\<rparr>)"
| aget_error: "fo_consumer st = Getting \<Longrightarrow> fo_queue st = (i, Inr e) # rest \<Longrightarrow>
    afan_step st (st\<lparr>fo_queue := rest, fo_consumed := fo_consumed st @ [(i, Inr e)], fo_consumer := Failed e,
      fo_stop := True\<rparr>)"
| aresume: "fo_consumer st = Yielding \<Longrightarrow> afan_step st (st\<lparr>fo_consumer := Getting\<rparr>)"
| aclose: "fo_consumer st = Yielding \<Longrightarrow> afan_step st (st\<lparr>fo_consumer := Left, fo_stop := True\<rparr>)"
| ainterrupt: "fo_consumer st = Getting \<Longrightarrow> afan_step st (st\<lparr>fo_consumer := Left, fo_stop := True\<rparr>)"

inductive_cases afan_stepE: "afan_step st st'"

text \<open>
  A step of a task is one step of a thread, or two: the event is put, the flag is looked at. Only the
  interruption of the waiting generator is none.
\<close>

definition interrupts :: "'a fan_out \<Rightarrow> 'a fan_out \<Rightarrow> bool" where
  "interrupts st st' \<longleftrightarrow> fo_consumer st = Getting \<and> st' = st\<lparr>fo_consumer := Left, fo_stop := True\<rparr>"

lemma afan_step_threads: "afan_step st st' \<Longrightarrow> interrupts st st' \<or> fan_step\<^sup>*\<^sup>* st st'"
proof (induction rule: afan_step.induct)
  case (aput_event st i x xs e)
  let ?u = "put_item (i, Inl x) (set_worker i (Checking (xs, e)) st)"
  have "fan_step st ?u" using aput_event(1) by (rule fan_step.put_event)
  moreover have "fan_step ?u (set_worker i (Working (xs, e)) ?u)"
    using aput_event by (intro fan_step.go_on) (auto simp: worker_is_def put_item_def set_worker_def)
  moreover have "set_worker i (Working (xs, e)) ?u = put_item (i, Inl x) (set_worker i (Working (xs, e)) st)"
    by (simp add: put_item_def set_worker_def)
  ultimately show ?case by (metis r_into_rtranclp rtranclp.rtrancl_into_rtrancl)
qed (blast intro: r_into_rtranclp fan_step.intros | simp add: interrupts_def)+

text \<open>
  The simulation: the threads are in the same state, or, after an interruption, in the one they would
  have been in had the generator gone on waiting, as far as the queue and the generator are concerned.
\<close>

definition waits_instead :: "'a fan_out \<Rightarrow> 'a fan_out \<Rightarrow> bool" where
  "waits_instead st u \<longleftrightarrow> fo_consumer st = Left \<and> fo_consumer u = Getting \<and>
     fo_consumed u = fo_consumed st \<and> fo_queue u = fo_queue st"

lemma afan_step_waits:
  "afan_step st st' \<Longrightarrow> waits_instead st u \<Longrightarrow> fo_stop st \<Longrightarrow> waits_instead st' u"
  by (induction rule: afan_step.induct) (auto simp: waits_instead_def put_item_def set_worker_def)

text \<open>The tasks are cancelled exactly when the generator has ended.\<close>

definition ended :: "'a fan_out \<Rightarrow> bool" where
  "ended st \<longleftrightarrow> (case fo_consumer st of Getting \<Rightarrow> False | Yielding \<Rightarrow> False | Left \<Rightarrow> True | Failed e \<Rightarrow> True)"

lemma afan_ended: "afan_step st st' \<Longrightarrow> fo_stop st = ended st \<Longrightarrow> fo_stop st' = ended st'"
  by (induction rule: afan_step.induct) (auto simp: ended_def put_item_def set_worker_def split: consumer.splits)

lemma afan_quiet:
  "afan_step st st' \<Longrightarrow> fo_stop st = ended st \<Longrightarrow> fo_stop st \<Longrightarrow>
     fo_queue st' = fo_queue st \<and> fo_consumed st' = fo_consumed st \<and> fo_stop st'"
  by (induction rule: afan_step.induct) (auto simp: ended_def put_item_def set_worker_def)

interpretation afan: step_invariant "\<lambda>st. st = fan_out_init scripts" afan_step "\<lambda>st. fo_stop st = ended st" for scripts
  by unfold_locales (use afan_ended in \<open>auto simp: fan_out_init_def ended_def\<close>)

lemma afan_threads:
  assumes "afan_step\<^sup>*\<^sup>* (fan_out_init scripts) st"
  shows "\<exists>u. fan_step\<^sup>*\<^sup>* (fan_out_init scripts) u \<and> (u = st \<or> waits_instead st u)"
  using assms
proof (induction rule: rtranclp_induct)
  case (step st st')
  then obtain u where u: "fan_step\<^sup>*\<^sup>* (fan_out_init scripts) u" "u = st \<or> waits_instead st u" by blast
  have stop: "fo_stop st = ended st" using afan.I_reachable [OF refl step.hyps(1)] .
  show ?case
  proof (cases "u = st")
    case True
    from afan_step_threads [OF step.hyps(2)] show ?thesis
    proof
      assume "interrupts st st'"
      then have "waits_instead st' st" by (auto simp: interrupts_def waits_instead_def)
      with u(1) True show ?thesis by blast
    next
      assume "fan_step\<^sup>*\<^sup>* st st'"
      with u(1) True have "fan_step\<^sup>*\<^sup>* (fan_out_init scripts) st'" by simp
      then show ?thesis by blast
    qed
  next
    case False
    then have waits: "waits_instead st u" using u(2) by simp
    moreover from this have "fo_stop st" using stop by (simp add: waits_instead_def ended_def)
    ultimately have "waits_instead st' u" using afan_step_waits [OF step.hyps(2)] by blast
    with u(1) show ?thesis by blast
  qed
qed blast


section \<open>Concrete instances\<close>



end
