(* ===== verification/Spec2Isabelle.thy ===== *)
theory Spec2Isabelle
  imports Framing Commands Chunked Reconnect Sharding Connection ConnectionFacts ConnectionReading
    ConnectionCalls ConnectionLife Retry ClientRetry Dials Pool PoolThreads
    Client ClientFacts Streams ClientStreams
    Sharded ShardedFacts ShardedClient ShardedStreams
    Json InspectTypes
    AsyncConnection AsyncFacts AsyncPool AsyncPoolTasks AsyncClient AsyncClientFacts AsyncSharded AsyncShardedFacts
begin

text \<open>
  A model of the Python client of the fq database (\<open>src/fq\<close>), with the theorems that make it correct.

  \<^bold>\<open>The program.\<close> fq counts, limits and grants quotas; this library talks to its servers. A request is
  text with a four-byte length before it, sent over TCP or TLS; the answer is a frame of the same kind,
  several for INSPECT, endlessly many for a stream. The library has two copies of every object that does
  input and output, one for threads (\<open>fq/sync\<close>) and one for asyncio (\<open>fq/aio\<close>), over a common core
  without effects. A \<^emph>\<open>connection\<close> owns one socket and knows whether a request is in flight on it. A
  \<^emph>\<open>pool\<close> holds a fixed number of slots, lends a connection to each call and takes it back. A \<^emph>\<open>client\<close>
  encodes a command, borrows a connection, sends with retries until the deadline and decodes the answer;
  its streams are generators that keep a connection while they are suspended. A \<^emph>\<open>sharded client\<close> owns
  one client per server and routes by the hash of the key.

  \<^bold>\<open>How code is modelled.\<close> A pure function that may raise is a sum, \<open>Inl\<close> the exception and \<open>Inr\<close> the
  value (\<open>'a result\<close>). A method is a program \<open>('s, 'a) prog\<close> over an explicit state, the object paired
  with the \<open>world\<close> (the clock, the scripts of the servers that will be dialled, the random numbers, the
  trace of what was sent, dialled and closed). It gives an \<open>outcome\<close>, which is \<open>Return\<close>, \<open>Raise\<close> or
  \<open>Blocked\<close>: the call waits for something that never comes, so a theorem that a call comes back says that
  the outcome is not \<open>Blocked\<close>. An object that is lent is a value that moves from one place to another.
  Names are those of the code: \<open>Client_incr\<close> is \<open>Client.incr\<close>, \<open>AsyncConnectionPool_release\<close> is
  \<open>AsyncConnectionPool._release\<close>; an unprefixed name such as \<open>incr\<close> is the function of that name.

  \<^bold>\<open>Theories without effects.\<close>
  \<^item> \<open>Prelude\<close>, \<open>PyText\<close>: what Python's str, bytes and int do, with the limits the code runs into (UTF-8,
    surrogates, Unicode digits, the 4300 digits of \<open>int()\<close>).
  \<^item> \<open>Errors\<close> (\<open>errors.py\<close>): codes, classes and their order as an instance of \<open>order\<close>; the class that a code
    selects. \<open>Types\<close> (\<open>types.py\<close>): the records and the TLS settings. \<open>Framing\<close> (\<open>_framing.py\<close>),
    \<open>Commands\<close> (\<open>_commands.py\<close>), \<open>Responses\<close> (\<open>_responses.py\<close>), \<open>Chunked\<close> (\<open>_chunked.py\<close>),
    \<open>Reconnect\<close> (\<open>_reconnect.py\<close>), \<open>Sharding\<close> (\<open>_sharding.py\<close>). Their lemmas: decoders invert the
    documented formats and raise nothing but decoding errors, encoders check the 64-bit range before they
    encode, chunks reassemble however they are cut, cursors and groups round trip, and the masked
    integers of FNV-1a agree with 32-bit words.
  \<^item> \<open>Json\<close>: \<open>json.loads\<close> of the standard library. \<open>InspectTypes\<close> (\<open>inspect_types.py\<close>): the report of INSPECT,
    its round trip and its errors. \<open>parse_inspect\<close> is an argument of \<open>Client_inspect\<close> and
    \<open>AsyncClient_inspect\<close>.

  \<^bold>\<open>Theories with effects.\<close>
  \<^item> \<open>Effects\<close>, \<open>Network\<close>: programs, their sequencing and \<open>try\<close>, sockets, dialling, time.
  \<^item> \<open>Connection\<close>, \<open>ConnectionFacts\<close>, \<open>ConnectionReading\<close>, \<open>ConnectionClass\<close>, \<open>ConnectionCalls\<close>,
    \<open>ConnectionLife\<close> (\<open>sync/connection.py\<close>); \<open>AsyncConnection\<close>, \<open>AsyncFacts\<close> (\<open>aio/connection.py\<close>): frames are
    read correctly however they are fragmented, a call returns its own answer, the in-flight flag tells
    whether the request may have been delivered, opening is all or nothing and takes over what the
    server answered; the two connections agree where a call can be carried at all, and differ in their
    deadlines.
  \<^item> \<open>Pool\<close>, \<open>PoolThreads\<close> (\<open>sync/pool.py\<close>), \<open>PoolCalls\<close>, \<open>AsyncPool\<close>, \<open>AsyncPoolTasks\<close>
    (\<open>aio/pool.py\<close>): every slot that is lent comes home; under threads and under tasks no connection has
    two owners; opening upfront fills every slot with an open connection (\<open>pool_full\<close>); what a failed
    opening and a racing close lose.
  \<^item> \<open>Retry\<close>, \<open>Client\<close>, \<open>ClientRetry\<close>, \<open>ClientFacts\<close> (\<open>sync/client.py\<close>), \<open>AsyncClient\<close>, \<open>AsyncClientFacts\<close>
    (\<open>aio/client.py\<close>): a mutating request is delivered at most once, and once when the call returns; calls
    return the decoded answer, come back, and leave the pool ready.
  \<^item> \<open>Streams\<close>, \<open>Generators\<close>, \<open>Dials\<close>, \<open>ClientStreams\<close>: the loop of a stream and the generator around it, for
    both clients: events in order, one slot exactly while suspended, and reconnecting ends: the dials
    are counted from the last event on, and an outage under the default policy ends in an overflow.
  \<^item> \<open>Sharded\<close>, \<open>ShardedFacts\<close>, \<open>ShardedClient\<close>, \<open>ShardedStreams\<close> (\<open>sync/sharded.py\<close>), \<open>AsyncSharded\<close>,
    \<open>AsyncShardedFacts\<close> (\<open>aio/sharded.py\<close>): batches in input order with one request per shard, a scan over
    all shards as a scan of one list whatever the length of the shards' pages, opening all or nothing,
    fan-out of streams as an interleaving of workers that loses and reorders nothing; the fan-out over
    tasks refines the one over threads, except that its generator can also be cancelled while it waits;
    every shard's events come in order all the same.

  \<^bold>\<open>Interfaces.\<close> \<open>connection_class\<close> is what a connection class promises of writing, reading and dialling,
  and proves what sending, opening and reconnecting do with it; both connections interpret it, and the
  synchronous one also \<open>prompt_connection\<close>, whose close always returns. \<open>slot_pool\<close> is lending and taking
  back a slot, extended by \<open>dialing_pool\<close> with what a pool does on the network; both pools interpret them.
  \<open>transport\<close> is what the retry loop relies on, interpreted for plain and chunked calls of both clients.
  \<open>step_order\<close> is a relation that programs keep, and \<open>step_invariant\<close> an invariant of a step relation: the
  pool under threads and under tasks and the two fan-outs interpret it.

  \<^bold>\<open>Loops.\<close> Loops over data are structural. \<open>read_exactly_loop\<close>, \<open>send_chunked_loop\<close> and
  \<open>async_chunked_loop\<close> end because every round takes bytes from the script of the socket, \<open>walk_loop\<close> because
  the shard's index grows, \<open>aclose_slots\<close> because the queue shrinks, the scanners of \<open>Json\<close> because the rest
  of the text does. \<open>retry_loop\<close> and \<open>stream_loop\<close> may go on for ever with an unlimited policy and are
  partial functions whose value None is never ending; that they end is a theorem where it holds
  (\<open>client_call_comes_back\<close>, \<open>stream_reconnects_finitely\<close>). There is no fuel in the model; \<open>scan_all\<close>, a
  caller that scans to the end, takes a number of pages, and its theorem says how many are enough. The
  argument \<open>depth\<close> of \<open>json_loads\<close> is the interpreter's limit on nesting.

  \<^bold>\<open>What the environment does\<close> is quantified over: the scripts may delay, cut, refuse, reset or end anything
  at any point. \<open>ssl.SSLContext\<close> and the files behind the paths of \<open>TLSConfig\<close> are parameters
  (\<open>build_context\<close>), as is the sharding function a caller passes.

  \<^bold>\<open>Not modelled.\<close> The cancellation of a task in the middle of a call (in the pool and in the fan-out it
  is a step) and exceptions raised in a thread by a signal; the texts of exception messages other than those the server
  sends; the rounding of floats; \<open>__enter__\<close>, \<open>__exit__\<close> and their asynchronous forms, which only call
  the modelled methods; and the exports of the packages (\<open>__init__.py\<close>), which have no behaviour.
\<close>

end
